theory Spec2Isabelle
  imports Complex_Main
begin

section \<open>JavaScript values\<close>

text \<open>
  The values that flow through \<^verbatim>\<open>solis.mjs\<close>: decoded vendor responses, the
  documents kept in the persistent store and the objects the operations return.
  Numbers are idealised as reals (with \<open>JNaN\<close> apart); infinities are not
  modelled. An object is its list of properties in insertion order.
\<close>

datatype jsval =
    JUndefined
  | JNull
  | JBool bool
  | JNum real
  | JNaN
  | JStr string
  | JArr "jsval list"
  | JObj "(string \<times> jsval) list"

text \<open>What a JavaScript operation can throw.\<close>

datatype exn = TypeError string | ReferenceError string

text \<open>Truthiness, as \<^verbatim>\<open>if (v)\<close> and \<^verbatim>\<open>!v\<close> see it.\<close>

fun truthy :: "jsval \<Rightarrow> bool" where
  "truthy JUndefined = False"
| "truthy JNull = False"
| "truthy (JBool b) = b"
| "truthy (JNum x) = (x \<noteq> 0)"
| "truthy JNaN = False"
| "truthy (JStr s) = (s \<noteq> [])"
| "truthy (JArr xs) = True"
| "truthy (JObj kvs) = True"

text \<open>
  Property read \<^verbatim>\<open>v.name\<close>: it throws on \<^verbatim>\<open>undefined\<close> and \<^verbatim>\<open>null\<close>, yields
  \<^verbatim>\<open>undefined\<close> for a property an object does not have, and (for the named data
  properties this program reads) \<^verbatim>\<open>undefined\<close> on every primitive and array.
\<close>

fun getProp :: "jsval \<Rightarrow> string \<Rightarrow> exn + jsval" where
  "getProp JUndefined name = Inl (TypeError name)"
| "getProp JNull name = Inl (TypeError name)"
| "getProp (JObj kvs) name = Inr (case map_of kvs name of None \<Rightarrow> JUndefined | Some v \<Rightarrow> v)"
| "getProp v name = Inr JUndefined"

text \<open>Property write \<^verbatim>\<open>obj[name] = v\<close> on an object: replace in place, or append.\<close>

fun setField :: "string \<Rightarrow> jsval \<Rightarrow> (string \<times> jsval) list \<Rightarrow> (string \<times> jsval) list" where
  "setField name v [] = [(name, v)]"
| "setField name v (kv # kvs) =
     (if fst kv = name then (name, v) # kvs else kv # setField name v kvs)"

fun setProp :: "jsval \<Rightarrow> string \<Rightarrow> jsval \<Rightarrow> exn + jsval" where
  "setProp JUndefined name v = Inl (TypeError name)"
| "setProp JNull name v = Inl (TypeError name)"
| "setProp (JObj kvs) name v = Inr (JObj (setField name v kvs))"
| "setProp u name v = Inr u"

subsection \<open>Numeric coercion\<close>

definition isDigit :: "char \<Rightarrow> bool" where
  "isDigit c = (48 \<le> (of_char c :: nat) \<and> (of_char c :: nat) \<le> 57)"

definition digitVal :: "char \<Rightarrow> nat" where
  "digitVal c = (of_char c :: nat) - 48"

fun parseDigits :: "string \<Rightarrow> nat \<Rightarrow> nat option" where
  "parseDigits [] acc = Some acc"
| "parseDigits (c # cs) acc =
     (if isDigit c then parseDigits cs (10 * acc + digitVal c) else None)"

text \<open>An unsigned decimal literal: digits, optionally a point and more digits.\<close>

definition parseUnsigned :: "string \<Rightarrow> real option" where
  "parseUnsigned s =
     (let ip = takeWhile (\<lambda>c. c \<noteq> CHR ''.'') s;
          fp = drop 1 (dropWhile (\<lambda>c. c \<noteq> CHR ''.'') s)
      in if ip = [] \<and> fp = [] then None
         else (case parseDigits ip 0 of
                 None \<Rightarrow> None
               | Some a \<Rightarrow>
                   (case parseDigits fp 0 of
                      None \<Rightarrow> None
                    | Some b \<Rightarrow> Some (real a + real b / 10 ^ length fp))))"

text \<open>
  String to number. The empty string is 0 and a signed decimal literal is its
  value; every other text is \<open>NaN\<close>. (JavaScript also accepts surrounding white
  space, exponents, radix prefixes and \<^verbatim>\<open>Infinity\<close>; the vendor's telemetry uses
  none of them and they are outside this model.)
\<close>

definition strToNumber :: "string \<Rightarrow> jsval" where
  "strToNumber s =
     (if s = [] then JNum 0
      else (case s of
              c # r \<Rightarrow>
                (if c = CHR ''-'' then
                   (case parseUnsigned r of None \<Rightarrow> JNaN | Some x \<Rightarrow> JNum (- x))
                 else if c = CHR ''+'' then
                   (case parseUnsigned r of None \<Rightarrow> JNaN | Some x \<Rightarrow> JNum x)
                 else
                   (case parseUnsigned s of None \<Rightarrow> JNaN | Some x \<Rightarrow> JNum x))
            | [] \<Rightarrow> JNum 0))"

text \<open>
  Unary plus. Arrays and objects go through their string form: the empty array
  prints as nothing, an array of one element as that element (a number prints as
  a text that reads back as itself), a longer array with commas, an object as
  \<^verbatim>\<open>[object Object]\<close>.
\<close>

fun toNumber :: "jsval \<Rightarrow> jsval" where
  "toNumber JUndefined = JNaN"
| "toNumber JNull = JNum 0"
| "toNumber (JBool b) = JNum (if b then 1 else 0)"
| "toNumber (JNum x) = JNum x"
| "toNumber JNaN = JNaN"
| "toNumber (JStr s) = strToNumber s"
| "toNumber (JArr []) = JNum 0"
| "toNumber (JArr [JUndefined]) = JNum 0"
| "toNumber (JArr [JNull]) = JNum 0"
| "toNumber (JArr [JNum x]) = JNum x"
| "toNumber (JArr [JStr s]) = strToNumber s"
| "toNumber (JArr [JArr xs]) = toNumber (JArr xs)"
| "toNumber (JArr xs) = JNaN"
| "toNumber (JObj kvs) = JNaN"

text \<open>\<^verbatim>\<open>a - b\<close> and \<^verbatim>\<open>a / b\<close> on coerced operands; \<open>NaN\<close> is contagious.\<close>

definition jsSub :: "jsval \<Rightarrow> jsval \<Rightarrow> jsval" where
  "jsSub a b =
     (case toNumber a of
        JNum x \<Rightarrow> (case toNumber b of JNum y \<Rightarrow> JNum (x - y) | _ \<Rightarrow> JNaN)
      | _ \<Rightarrow> JNaN)"

text \<open>Division; every divisor in this program is a non-zero count or constant.\<close>

definition jsDiv :: "jsval \<Rightarrow> jsval \<Rightarrow> jsval" where
  "jsDiv a b =
     (case toNumber a of
        JNum x \<Rightarrow> (case toNumber b of JNum y \<Rightarrow> (if y = 0 then JNaN else JNum (x / y)) | _ \<Rightarrow> JNaN)
      | _ \<Rightarrow> JNaN)"

text \<open>\<^verbatim>\<open>a + b\<close> where neither operand is a string, array or object: numeric addition.\<close>

definition jsAddNum :: "jsval \<Rightarrow> jsval \<Rightarrow> jsval" where
  "jsAddNum a b =
     (case toNumber a of
        JNum x \<Rightarrow> (case toNumber b of JNum y \<Rightarrow> JNum (x + y) | _ \<Rightarrow> JNaN)
      | _ \<Rightarrow> JNaN)"

text \<open>\<^verbatim>\<open>+v !== 0\<close>: strict inequality with the number zero (\<open>NaN\<close> is not zero).\<close>

definition notZero :: "jsval \<Rightarrow> bool" where
  "notZero v = (toNumber v \<noteq> JNum 0)"

section \<open>The hierarchical store\<close>

text \<open>
  The persistent store is an ordered tree of keyed nodes. A level of the tree is
  the list of its children in ascending key order; the \<^verbatim>\<open>solis\<close> sub-tree has
  one child per calendar day (\<open>dateIndex\<close>), each with one child per sample
  (\<open>timeIndex\<close>) holding the snapshot document. A node exists when it holds
  data or has a child. The store gives back the values it was given.
\<close>

type_synonym 'a level = "(nat \<times> 'a) list"
type_synonym document = "(string \<times> jsval) list"
type_synonym day = "document level"
type_synonym store = "day level"

definition child :: "'a level \<Rightarrow> nat \<Rightarrow> 'a option" where
  "child lv k = map_of lv k"

text \<open>Writing a child keeps the level in key order.\<close>

fun putChild :: "nat \<Rightarrow> 'a \<Rightarrow> 'a level \<Rightarrow> 'a level" where
  "putChild k v [] = [(k, v)]"
| "putChild k v (e # es) =
     (if fst e = k then (k, v) # es
      else if k < fst e then (k, v) # e # es
      else e # putChild k v es)"

definition deleteChild :: "nat \<Rightarrow> 'a level \<Rightarrow> 'a level" where
  "deleteChild k lv = filter (\<lambda>e. fst e \<noteq> k) lv"

text \<open>\<^verbatim>\<open>childBefore(k)\<close> and \<^verbatim>\<open>childAfter(k)\<close>: the nearest child on either side of a key.\<close>

definition childBefore :: "'a level \<Rightarrow> nat \<Rightarrow> (nat \<times> 'a) option" where
  "childBefore lv k =
     (case filter (\<lambda>e. fst e < k) lv of [] \<Rightarrow> None | e # es \<Rightarrow> Some (last (e # es)))"

definition childAfter :: "'a level \<Rightarrow> nat \<Rightarrow> (nat \<times> 'a) option" where
  "childAfter lv k =
     (case filter (\<lambda>e. k < fst e) lv of [] \<Rightarrow> None | e # es \<Rightarrow> Some e)"

definition lastChild :: "'a level \<Rightarrow> (nat \<times> 'a) option" where
  "lastChild lv = (case lv of [] \<Rightarrow> None | e # es \<Rightarrow> Some (last (e # es)))"

text \<open>The day sub-tree under \<open>dateIndex\<close>; a day that was never written has no children.\<close>

definition dayNode :: "store \<Rightarrow> nat \<Rightarrow> day" where
  "dayNode st dateIndex = (case child st dateIndex of None \<Rightarrow> [] | Some dy \<Rightarrow> dy)"

definition dayExists :: "store \<Rightarrow> nat \<Rightarrow> bool" where
  "dayExists st dateIndex = (dayNode st dateIndex \<noteq> [])"

text \<open>
  \<^verbatim>\<open>node.$(name).value\<close> on a stored document. The value of a field that was never
  written is taken to be the empty string, the store's answer for a node without data.
\<close>

definition fieldValue :: "document \<Rightarrow> string \<Rightarrow> jsval" where
  "fieldValue doc name = (case map_of doc name of None \<Rightarrow> JStr [] | Some v \<Rightarrow> v)"

text \<open>
  A sample's key. The vendor sends \<^verbatim>\<open>dataTimestamp\<close> as the decimal text of a
  millisecond count; a whole non-negative number is accepted as well.
\<close>

fun keyOf :: "jsval \<Rightarrow> nat option" where
  "keyOf (JStr s) = (if s = [] then None else parseDigits s 0)"
| "keyOf (JNum x) = (if 0 \<le> x \<and> x = real (nat \<lfloor>x\<rfloor>) then Some (nat \<lfloor>x\<rfloor>) else None)"
| "keyOf v = None"

section \<open>The date utility\<close>

text \<open>
  The calendar utility is an external collaborator: what it answers for a point in
  time is a record of texts and indices. \<open>year\<close> is kept as the text it contributes to a concatenation.
\<close>

record dateInfo =
  timeIndex :: nat
  dateIndex :: nat
  timeText :: string
  fullTimeText :: string
  slotTimeText :: string
  dayText :: string
  monthText :: string
  year :: string
  daylightSaving :: bool
  minute :: nat
  slotTimeIndex :: nat
  slotEndTimeIndex :: nat
  previousSlotTimeIndex :: nat

text \<open>
  The environment gathers what the program calls and this repository does not
  define: the date utility (\<^verbatim>\<open>date.at\<close>, \<^verbatim>\<open>date.atMidnight\<close>, \<^verbatim>\<open>date.atTime\<close>)
  and the runtime's number printing, \<^verbatim>\<open>JSON.stringify\<close>, base64 MD5 digest and
  base64 HMAC-SHA1 (keyed by its first argument), and its \<^verbatim>\<open>+(a - b).toFixed(2)\<close>
  on two numbers \<open>a\<close> and \<open>b\<close>: there the subtraction and the rounding to two
  decimals are those of the runtime's double-precision arithmetic, which no
  function on the reals is taken to reproduce.
\<close>

record env =
  dateAt :: "nat \<Rightarrow> dateInfo"
  atMidnight :: "int \<Rightarrow> dateInfo"
  atTime :: "string \<Rightarrow> nat \<Rightarrow> dateInfo"
  numberText :: "real \<Rightarrow> string"
  stringify :: "jsval \<Rightarrow> string"
  md5Base64 :: "string \<Rightarrow> string"
  hmacSha1Base64 :: "string \<Rightarrow> string \<Rightarrow> string"
  fixedDifference :: "real \<Rightarrow> real \<Rightarrow> real"

section \<open>Ingestion: the loop of \<^verbatim>\<open>update\<close>\<close>

text \<open>A property read on a value already known not to be \<^verbatim>\<open>undefined\<close> or \<^verbatim>\<open>null\<close>.\<close>

definition readProp :: "jsval \<Rightarrow> string \<Rightarrow> jsval" where
  "readProp v name = (case getProp v name of Inl e \<Rightarrow> JUndefined | Inr x \<Rightarrow> x)"

text \<open>The document \<^verbatim>\<open>update\<close> stores for a vendor sample taken at \<open>t\<close>.\<close>

definition snapshotDocument :: "env \<Rightarrow> nat \<Rightarrow> jsval \<Rightarrow> document" where
  "snapshotDocument ev t snapshot =
     (let d = dateAt ev t in
      [(''at'', JStr (dayText d @ ''/'' @ monthText d @ ''/'' @ year d @ '': '' @ timeText d)),
       (''time'', JStr (timeText d)),
       (''pvOutputNow'', jsDiv (toNumber (readProp snapshot ''pac'')) (JNum 1000)),
       (''pvOutputTotal'', readProp snapshot ''eToday''),
       (''houseLoadNow'', jsDiv (toNumber (readProp snapshot ''familyLoadPower'')) (JNum 1000)),
       (''houseLoadTotal'', readProp snapshot ''homeLoadTodayEnergy''),
       (''gridImportNow'', jsDiv (jsSub (JNum 0) (toNumber (readProp snapshot ''pSum''))) (JNum 1000)),
       (''gridImportTotal'', readProp snapshot ''gridPurchasedTodayEnergy''),
       (''gridExportTotal'', readProp snapshot ''gridSellTodayEnergy''),
       (''batteryLevel'', readProp snapshot ''batteryCapacitySoc''),
       (''batteryChargePower'', readProp snapshot ''batteryPower'')])"

text \<open>
  One turn of the loop over \<^verbatim>\<open>resp.data\<close>: the sample is written when no node
  exists under its timestamp and its \<^verbatim>\<open>homeLoadTodayEnergy\<close>, coerced to a number,
  is not zero. Reading the timestamp of an \<^verbatim>\<open>undefined\<close> or \<^verbatim>\<open>null\<close> sample
  throws; a timestamp that is no key is reported the same way.
\<close>

definition update_snapshot :: "env \<Rightarrow> day \<Rightarrow> jsval \<Rightarrow> exn + day" where
  "update_snapshot ev dy snapshot =
     (case getProp snapshot ''dataTimestamp'' of
        Inl e \<Rightarrow> Inl e
      | Inr time \<Rightarrow>
          (case keyOf time of
             None \<Rightarrow> Inl (TypeError ''dataTimestamp'')
           | Some t \<Rightarrow>
               (if child dy t = None \<and> notZero (readProp snapshot ''homeLoadTodayEnergy'')
                then Inr (putChild t (snapshotDocument ev t snapshot) dy)
                else Inr dy)))"

text \<open>
  The loop. What was written before a throw stays written, so the result is the
  day sub-tree as the loop left it together with the exception, if any.
\<close>

fun update_loop :: "env \<Rightarrow> day \<Rightarrow> jsval list \<Rightarrow> exn option \<times> day" where
  "update_loop ev dy [] = (None, dy)"
| "update_loop ev dy (snapshot # rest) =
     (case update_snapshot ev dy snapshot of
        Inl e \<Rightarrow> (Some e, dy)
      | Inr dy' \<Rightarrow> update_loop ev dy' rest)"

section \<open>Texts\<close>

text \<open>Decimal text of a natural number (an HTTP status).\<close>

definition digitChar :: "nat \<Rightarrow> char" where
  "digitChar d = ''0123456789'' ! d"

fun natText :: "nat \<Rightarrow> string" where
  "natText n =
     (if n < 10 then [digitChar n]
      else natText (n div 10) @ [digitChar (n mod 10)])"

declare natText.simps [simp del]

text \<open>\<^verbatim>\<open>fs.join(',')\<close> on texts.\<close>

fun joinComma :: "string list \<Rightarrow> string" where
  "joinComma [] = []"
| "joinComma [f] = f"
| "joinComma (f # g # fs) = f @ CHR '','' # joinComma (g # fs)"

text \<open>
  String conversion, as concatenation with a text performs it. An array prints its
  elements with commas between them, \<^verbatim>\<open>undefined\<close> and \<^verbatim>\<open>null\<close> as nothing.
\<close>

fun jsToString :: "env \<Rightarrow> jsval \<Rightarrow> string" where
  "jsToString ev JUndefined = ''undefined''"
| "jsToString ev JNull = ''null''"
| "jsToString ev (JBool b) = (if b then ''true'' else ''false'')"
| "jsToString ev (JNum x) = numberText ev x"
| "jsToString ev JNaN = ''NaN''"
| "jsToString ev (JStr s) = s"
| "jsToString ev (JArr xs) =
     joinComma (map (\<lambda>x. case x of JUndefined \<Rightarrow> [] | JNull \<Rightarrow> [] | _ \<Rightarrow> jsToString ev x) xs)"
| "jsToString ev (JObj kvs) = ''[object Object]''"

text \<open>\<^verbatim>\<open>s.split(',')\<close>: the fields between commas; a text without a comma is one field.\<close>

fun splitComma :: "string \<Rightarrow> string list" where
  "splitComma [] = [[]]"
| "splitComma (c # cs) =
     (if c = CHR '','' then [] # splitComma cs
      else (case splitComma cs of
              f # fs \<Rightarrow> (c # f) # fs
            | [] \<Rightarrow> [[c]]))"

text \<open>
  An element's text in \<^verbatim>\<open>pcs.join(',')\<close>: \<^verbatim>\<open>undefined\<close>, \<^verbatim>\<open>null\<close> and the holes
  of an extended array print as nothing.
\<close>

fun elementText :: "env \<Rightarrow> jsval \<Rightarrow> string" where
  "elementText ev JUndefined = []"
| "elementText ev JNull = []"
| "elementText ev v = jsToString ev v"

text \<open>\<^verbatim>\<open>pcs[i] = v\<close> on an array: in range it replaces, past the end the array grows.\<close>

definition setIndex :: "jsval list \<Rightarrow> nat \<Rightarrow> jsval \<Rightarrow> jsval list" where
  "setIndex pcs i v =
     (if i < length pcs then pcs[i := v]
      else pcs @ replicate (i - length pcs) JUndefined @ [v])"

section \<open>The world\<close>

text \<open>
  Everything an operation can read or change. The configuration documents and the
  three sub-trees of the persistent store are state; the clock readings are those
  of the invocation; the vendor's service is an oracle that answers the \<open>n\<close>-th
  request, and \<open>calls\<close> records the requests sent, oldest first.
\<close>

datatype fetchOutcome =
    FetchFailed
  | FetchStatus nat jsval

record call =
  callUrl :: string
  callMethod :: string
  callHeaders :: "(string \<times> jsval) list"
  callBody :: "string option"

record world =
  config :: document
  batteryConfig :: document
  chargingEnabled :: bool
  dischargingEnabled :: bool
  movingAveragePeriod :: int
  data :: store
  chargeHistory :: "document level"
  octopusAgile :: "document level level"
  dischargeControlFlag :: bool
  now :: dateInfo
  utcNow :: string
  remote :: "nat \<Rightarrow> fetchOutcome"
  calls :: "call list"

text \<open>An operation runs in a world and ends with a value or a throw, in a new world.\<close>

type_synonym 'a operation = "world \<Rightarrow> (exn + 'a) \<times> world"

definition andThen :: "'a operation \<Rightarrow> ('a \<Rightarrow> 'b operation) \<Rightarrow> 'b operation" where
  "andThen m f w = (case m w of (Inl e, w') \<Rightarrow> (Inl e, w') | (Inr a, w') \<Rightarrow> f a w')"

definition return :: "'a \<Rightarrow> 'a operation" where
  "return a w = (Inr a, w)"

definition throw :: "exn \<Rightarrow> 'a operation" where
  "throw e w = (Inl e, w)"

text \<open>A pure step that may throw.\<close>

definition attempt :: "exn + 'a \<Rightarrow> 'a operation" where
  "attempt r w = (r, w)"

subsection \<open>Configuration getters\<close>

definition isConfigured :: "world \<Rightarrow> bool" where
  "isConfigured w =
     (if config w = [] then False
      else if \<not> truthy (readProp (JObj (config w)) ''inverterSn'') then False
      else if \<not> truthy (readProp (JObj (config w)) ''key'') then False
      else if \<not> truthy (readProp (JObj (config w)) ''secret'') then False
      else True)"

definition endpoint :: "world \<Rightarrow> jsval" where
  "endpoint w =
     (if map_of (config w) ''endpoint'' = None then JStr ''https://www.soliscloud.com:13333''
      else fieldValue (config w) ''endpoint'')"

definition inverterSn :: "world \<Rightarrow> jsval" where
  "inverterSn w = fieldValue (config w) ''inverterSn''"

definition key :: "env \<Rightarrow> world \<Rightarrow> string" where
  "key ev w = jsToString ev (fieldValue (config w) ''key'')"

definition secret :: "world \<Rightarrow> jsval" where
  "secret w = fieldValue (config w) ''secret''"

definition chargeCurrent :: "world \<Rightarrow> jsval" where
  "chargeCurrent w =
     (if map_of (batteryConfig w) ''chargeCurrent'' = None then JNum 50
      else toNumber (fieldValue (batteryConfig w) ''chargeCurrent''))"

definition dischargeCurrent :: "world \<Rightarrow> jsval" where
  "dischargeCurrent w =
     (if map_of (batteryConfig w) ''dischargeCurrent'' = None then JNum 50
      else toNumber (fieldValue (batteryConfig w) ''dischargeCurrent''))"

section \<open>The legacy settings string\<close>

text \<open>The four rewrites of the pre-4B00 settings string.\<close>

definition chargeTimeString :: "env \<Rightarrow> world \<Rightarrow> string \<Rightarrow> string \<Rightarrow> string \<Rightarrow> string" where
  "chargeTimeString ev w currentSetting fromTimeText toTimeText =
     (let pcs = map JStr (splitComma currentSetting);
          pcs = setIndex pcs 0 (chargeCurrent w);
          pcs = setIndex pcs 1 (JNum 0);
          pcs = setIndex pcs 2 (JStr (fromTimeText @ ''-'' @ toTimeText));
          pcs = setIndex pcs 3 (JStr ''00:00-00:00'');
          pcs = setIndex pcs 6 (JStr ''00:00-00:00'');
          pcs = setIndex pcs 10 (JStr ''00:00-00:00'')
      in joinComma (map (elementText ev) pcs))"

definition dischargeTimeString :: "env \<Rightarrow> world \<Rightarrow> string \<Rightarrow> string \<Rightarrow> string \<Rightarrow> string" where
  "dischargeTimeString ev w currentSetting fromTimeText toTimeText =
     (let pcs = map JStr (splitComma currentSetting);
          pcs = setIndex pcs 0 (JNum 0);
          pcs = setIndex pcs 1 (dischargeCurrent w);
          pcs = setIndex pcs 2 (JStr ''00:00-00:00'');
          pcs = setIndex pcs 3 (JStr (fromTimeText @ ''-'' @ toTimeText));
          pcs = setIndex pcs 6 (JStr ''00:00-00:00'');
          pcs = setIndex pcs 10 (JStr ''00:00-00:00'')
      in joinComma (map (elementText ev) pcs))"

definition gridOnlyTimeString :: "env \<Rightarrow> string \<Rightarrow> string \<Rightarrow> string \<Rightarrow> string" where
  "gridOnlyTimeString ev currentSetting fromTimeText toTimeText =
     (let pcs = map JStr (splitComma currentSetting);
          pcs = setIndex pcs 0 (JNum 0);
          pcs = setIndex pcs 1 (JNum 0);
          pcs = setIndex pcs 2 (JStr ''00:00-00:00'');
          pcs = setIndex pcs 3 (JStr (fromTimeText @ ''-'' @ toTimeText));
          pcs = setIndex pcs 6 (JStr ''00:00-00:00'');
          pcs = setIndex pcs 10 (JStr ''00:00-00:00'')
      in joinComma (map (elementText ev) pcs))"

definition resetTimeString :: "env \<Rightarrow> string \<Rightarrow> string" where
  "resetTimeString ev currentSetting =
     (let pcs = map JStr (splitComma currentSetting);
          pcs = setIndex pcs 0 (JNum 0);
          pcs = setIndex pcs 1 (JNum 0);
          pcs = setIndex pcs 2 (JStr ''00:00-00:00'');
          pcs = setIndex pcs 3 (JStr ''00:00-00:00'');
          pcs = setIndex pcs 6 (JStr ''00:00-00:00'');
          pcs = setIndex pcs 10 (JStr ''00:00-00:00'')
      in joinComma (map (elementText ev) pcs))"

section \<open>The request signer\<close>

text \<open>\<^verbatim>\<open>a || b\<close> on texts: an empty (or absent) text gives way to the default.\<close>

definition orElse :: "string \<Rightarrow> string \<Rightarrow> string" where
  "orElse s d = (if s = [] then d else s)"

definition md5 :: "env \<Rightarrow> string \<Rightarrow> string" where
  "md5 ev dat = md5Base64 ev dat"

record signedText =
  stsText :: string
  stsMd5 :: string

text \<open>
  \<^verbatim>\<open>stringToSign(body, url, method, contentType, date)\<close>. A structured body
  (\<^verbatim>\<open>typeof body === 'object'\<close>: an object, an array or \<^verbatim>\<open>null\<close>) is serialised;
  a text is hashed as it is; the hash refuses anything else with a \<^verbatim>\<open>TypeError\<close>.
  A missing date is read from the clock.
\<close>

definition stringToSign ::
    "env \<Rightarrow> world \<Rightarrow> jsval \<Rightarrow> string \<Rightarrow> string \<Rightarrow> string \<Rightarrow> string \<Rightarrow> exn + signedText" where
  "stringToSign ev w body url meth contentType date =
     (let meth = orElse meth ''POST'';
          date = orElse date (utcNow w);
          contentType = orElse contentType ''application/json;charset=UTF-8'';
          dat = (case body of
                   JObj kvs \<Rightarrow> Inr (stringify ev body)
                 | JArr xs \<Rightarrow> Inr (stringify ev body)
                 | JNull \<Rightarrow> Inr (stringify ev body)
                 | JStr s \<Rightarrow> Inr s
                 | _ \<Rightarrow> Inl (TypeError ''data''));
          lf = [CHR 0x0A]
      in case dat of
           Inl e \<Rightarrow> Inl e
         | Inr dat \<Rightarrow>
             (let md = md5 ev dat;
                  str = meth @ lf @ md @ lf @ contentType @ lf @ date @ lf @ url
              in Inr \<lparr>stsText = str, stsMd5 = md\<rparr>))"

text \<open>\<^verbatim>\<open>signature(stringToSign, secretKey)\<close>; the key of an HMAC must be a text.\<close>

definition signature :: "env \<Rightarrow> string \<Rightarrow> jsval \<Rightarrow> exn + string" where
  "signature ev str secretKey =
     (case secretKey of
        JStr k \<Rightarrow> Inr (hmacSha1Base64 ev k str)
      | _ \<Rightarrow> Inl (TypeError ''key''))"

section \<open>Remote calls\<close>

record requestArgs =
  argUrl :: string
  argMethod :: string
  argBody :: jsval
  argDate :: string
  argHeaders :: "(string \<times> jsval) list"
  argAuth :: string
  argMd5 :: string

text \<open>
  \<^verbatim>\<open>request(args)\<close>: one fetch. A status other than 200 and a failed fetch (or an
  undecodable body) both come back as error objects; nothing is thrown.
\<close>

definition request :: "env \<Rightarrow> requestArgs \<Rightarrow> jsval operation" where
  "request ev args w =
     (if argUrl args = [] then (Inr JUndefined, w)
      else
        (let url = jsToString ev (endpoint w) @ argUrl args;
             meth = orElse (argMethod args) ''POST'';
             headers = [(''Content-type'', JStr ''application/json;charset=UTF-8'')];
             headers = fold (\<lambda>h hs. setField (fst h) (snd h) hs) (argHeaders args) headers;
             headers = (if argDate args \<noteq> [] then setField ''Time'' (JStr (argDate args)) headers else headers);
             headers = (if argAuth args \<noteq> [] then setField ''Authorization'' (JStr (argAuth args)) headers else headers);
             headers = (if argMd5 args \<noteq> [] then setField ''Content-Md5'' (JStr (argMd5 args)) headers else headers);
             body = (if truthy (argBody args) then Some (stringify ev (argBody args)) else None);
             headers = (case body of
                          None \<Rightarrow> headers
                        | Some b \<Rightarrow> setField ''Content-Length'' (JNum (real (length b))) headers);
             sent = \<lparr>callUrl = url, callMethod = meth, callHeaders = headers, callBody = body\<rparr>;
             w' = w\<lparr>calls := calls w @ [sent]\<rparr>
         in case remote w (length (calls w)) of
              FetchFailed \<Rightarrow>
                (Inr (JObj [(''error'', JStr ''solis.request failed''), (''err'', JObj [])]), w')
            | FetchStatus status json \<Rightarrow>
                (if status \<noteq> 200
                 then (Inr (JObj [(''error'', JStr (''solis.request returned status '' @ natText status))]), w')
                 else (Inr json, w'))))"

text \<open>\<^verbatim>\<open>api(url, payload, method)\<close>: sign, then send.\<close>

definition api :: "env \<Rightarrow> string \<Rightarrow> jsval \<Rightarrow> string \<Rightarrow> jsval operation" where
  "api ev url payload meth w =
     (let meth = orElse meth ''POST'';
          date = utcNow w
      in case stringToSign ev w payload url meth ''application/json'' date of
           Inl e \<Rightarrow> (Inl e, w)
         | Inr sts \<Rightarrow>
             (case signature ev (stsText sts) (secret w) of
                Inl e \<Rightarrow> (Inl e, w)
              | Inr sg \<Rightarrow>
                  request ev
                    \<lparr>argUrl = url, argMethod = meth, argBody = payload, argDate = date,
                     argHeaders = [], argAuth = ''API '' @ key ev w @ '':'' @ sg,
                     argMd5 = stsMd5 sts\<rparr> w))"

definition errorObject :: "string \<Rightarrow> jsval" where
  "errorObject msg = JObj [(''error'', JStr msg)]"

definition statusObject :: "string \<Rightarrow> jsval" where
  "statusObject msg = JObj [(''status'', JStr msg)]"

text \<open>\<^verbatim>\<open>resp.error\<close> as a condition; the read throws on \<^verbatim>\<open>undefined\<close> and \<^verbatim>\<open>null\<close>.\<close>

definition hasError :: "jsval \<Rightarrow> exn + bool" where
  "hasError resp = (case getProp resp ''error'' of Inl e \<Rightarrow> Inl e | Inr v \<Rightarrow> Inr (truthy v))"

definition isArray :: "jsval \<Rightarrow> bool" where
  "isArray v = (case v of JArr xs \<Rightarrow> True | _ \<Rightarrow> False)"

definition isString :: "jsval \<Rightarrow> bool" where
  "isString v = (case v of JStr s \<Rightarrow> True | _ \<Rightarrow> False)"

definition inverterDayAPI :: "env \<Rightarrow> int \<Rightarrow> jsval operation" where
  "inverterDayAPI ev offset w =
     (if \<not> isConfigured w then (Inr (errorObject ''SolisCloud credentials are incomplete''), w)
      else
        (let d = atMidnight ev offset;
             time = year d @ ''-'' @ monthText d @ ''-'' @ dayText d;
             url = ''/v1/api/inverterDay'';
             tz = (if daylightSaving d then 1 else 0);
             body = JObj [(''sn'', inverterSn w), (''money'', JStr ''UKP''),
                          (''time'', JStr time), (''timeZone'', JNum tz)]
         in andThen (api ev url body [])
              (\<lambda>resp. andThen (attempt (hasError resp))
                 (\<lambda>err.
                    if \<not> err \<and> (\<not> truthy (readProp resp ''data'') \<or> \<not> isArray (readProp resp ''data''))
                    then return (errorObject ''solis.inverterDay API failed'')
                    else return resp)) w))"

text \<open>\<^verbatim>\<open>yuanzhi.slice(0, n) === text\<close>; a value without \<^verbatim>\<open>slice\<close> throws.\<close>

definition sliceIs :: "jsval \<Rightarrow> nat \<Rightarrow> string \<Rightarrow> exn + bool" where
  "sliceIs v n text =
     (case v of
        JStr s \<Rightarrow> Inr (take n s = text)
      | JArr xs \<Rightarrow> Inr False
      | _ \<Rightarrow> Inl (TypeError ''slice''))"

definition atReadAPI :: "env \<Rightarrow> jsval operation" where
  "atReadAPI ev =
     (let url = ''/v2/api/atRead'';
          body = (\<lambda>w. JObj [(''inverterSn'', inverterSn w), (''cid'', JNum 4643)])
      in andThen (\<lambda>w. api ev url (body w) [] w)
           (\<lambda>resp. andThen (attempt (hasError resp))
              (\<lambda>err.
                 if err then return resp
                 else if \<not> truthy (readProp resp ''data'') \<or> isString (readProp resp ''data'')
                 then return (errorObject ''solis.atRead API failed (1)'')
                 else if \<not> truthy (readProp (readProp resp ''data'') ''msg'')
                 then return (errorObject ''solis.atRead API failed (2)'')
                 else if \<not> truthy (readProp (readProp resp ''data'') ''yuanzhi'')
                 then return (errorObject ''solis.atRead API failed (3)'')
                 else
                   (let yuanzhi = readProp (readProp resp ''data'') ''yuanzhi'' in
                    andThen (attempt (sliceIs yuanzhi 4 ''fail''))
                      (\<lambda>failed.
                         if failed then return (errorObject ''solis.atRead API failed (4)'')
                         else andThen (attempt (sliceIs yuanzhi 5 ''error''))
                           (\<lambda>errored.
                              if errored then return (errorObject ''solis.atRead API failed (5)'')
                              else return resp))))))"

definition controlAPI :: "env \<Rightarrow> real \<Rightarrow> jsval \<Rightarrow> jsval operation" where
  "controlAPI ev cid v w =
     (let url = ''/v2/api/control'';
          body = JObj [(''inverterSn'', inverterSn w), (''cid'', JNum cid), (''value'', v)]
      in api ev url body [] w)"

text \<open>
  The check every control call is followed by: an error response is passed on, a
  response without \<^verbatim>\<open>data\<close> becomes an error object with the given message.
\<close>

definition checked :: "string \<Rightarrow> jsval \<Rightarrow> jsval operation" where
  "checked msg resp =
     andThen (attempt (hasError resp))
       (\<lambda>err.
          if err then return resp
          else if \<not> truthy (readProp resp ''data'') then return (errorObject msg)
          else return resp)"

definition chargeAPI :: "env \<Rightarrow> string \<Rightarrow> jsval operation" where
  "chargeAPI ev timeString =
     andThen (controlAPI ev 4643 (JStr timeString)) (checked ''Solis charge API failed'')"

definition dischargeAPI :: "env \<Rightarrow> string \<Rightarrow> jsval operation" where
  "dischargeAPI ev timeString =
     andThen (controlAPI ev 4643 (JStr timeString)) (checked ''Solis discharge API failed'')"

section \<open>Firmware dialect\<close>

definition toUpperCase :: "string \<Rightarrow> string" where
  "toUpperCase s =
     map (\<lambda>c. case map_of (zip ''abcdefghijklmnopqrstuvwxyz'' ''ABCDEFGHIJKLMNOPQRSTUVWXYZ'') c of
                 None \<Rightarrow> c
               | Some u \<Rightarrow> u) s"

text \<open>
  The loop over \<^verbatim>\<open>res.data.page.records\<close>: the first record with a software
  version decides. Reading a property of an \<^verbatim>\<open>undefined\<close> or \<^verbatim>\<open>null\<close> record
  throws, and so does \<^verbatim>\<open>toUpperCase\<close> on a version that is not a text.
\<close>

fun firstSoftwareVersion :: "jsval list \<Rightarrow> exn + string option" where
  "firstSoftwareVersion [] = Inr None"
| "firstSoftwareVersion (record # records) =
     (case getProp record ''inverterSoftwareVersion'' of
        Inl e \<Rightarrow> Inl e
      | Inr v \<Rightarrow>
          (if truthy v
           then (case v of JStr s \<Rightarrow> Inr (Some (toUpperCase s)) | _ \<Rightarrow> Inl (TypeError ''toUpperCase''))
           else firstSoftwareVersion records))"

text \<open>What \<^verbatim>\<open>for (... of v)\<close> iterates: an array's elements, a text's characters.\<close>

definition iterate :: "jsval \<Rightarrow> exn + jsval list" where
  "iterate v =
     (case v of
        JArr xs \<Rightarrow> Inr xs
      | JStr s \<Rightarrow> Inr (map (\<lambda>c. JStr [c]) s)
      | _ \<Rightarrow> Inl (TypeError ''iterable''))"

definition classifyFirmware :: "string \<Rightarrow> string" where
  "classifyFirmware firmwareVersion =
     (if take 1 firmwareVersion = ''4'' \<and> 1 < length firmwareVersion
         \<and> 66 \<le> (of_char (firmwareVersion ! 1) :: nat)
      then ''post-4B00'' else ''pre-4B00'')"

definition setFirmwareVersion :: "env \<Rightarrow> bool operation" where
  "setFirmwareVersion ev =
     andThen (\<lambda>w. api ev ''/v1/api/inverterDetail'' (JObj [(''sn'', inverterSn w)]) [] w)
       (\<lambda>res.
          if truthy res \<and> truthy (readProp res ''data'')
               \<and> truthy (readProp (readProp res ''data'') ''stationId'')
          then
            (let stationId = readProp (readProp res ''data'') ''stationId'' in
             andThen (api ev ''/v1/api/inverterList'' (JObj [(''stationId'', stationId)]) [])
               (\<lambda>res.
                  if truthy res \<and> truthy (readProp res ''data'')
                       \<and> truthy (readProp (readProp res ''data'') ''page'')
                       \<and> truthy (readProp (readProp (readProp res ''data'') ''page'') ''records'')
                  then
                    andThen (attempt (iterate (readProp (readProp (readProp res ''data'') ''page'') ''records'')))
                      (\<lambda>records. andThen (attempt (firstSoftwareVersion records))
                         (\<lambda>found.
                            case found of
                              None \<Rightarrow> return False
                            | Some firmwareVersion \<Rightarrow>
                                (if firmwareVersion = [] then return False
                                 else (\<lambda>w. (Inr True,
                                   w\<lparr>config := setField ''firmwareVersion''
                                        (JStr (classifyFirmware firmwareVersion)) (config w)\<rparr>)))))
                  else return False))
          else return False)"

definition getFirmwareVersion :: "env \<Rightarrow> jsval operation" where
  "getFirmwareVersion ev w =
     (if map_of (config w) ''firmwareVersion'' = None
      then andThen (setFirmwareVersion ev)
             (\<lambda>ok w'. if \<not> ok then (Inr (JStr ''Unknown''), w')
                       else (Inr (fieldValue (config w') ''firmwareVersion''), w')) w
      else (Inr (fieldValue (config w) ''firmwareVersion''), w))"

section \<open>The post-4B00 dialect\<close>

text \<open>\<^verbatim>\<open>current || this.chargeCurrent\<close>: a zero or absent current gives way to the configured one.\<close>

definition post4B00Charge :: "env \<Rightarrow> string \<Rightarrow> string \<Rightarrow> jsval \<Rightarrow> jsval operation" where
  "post4B00Charge ev fromTimeText toTimeText current =
     andThen (\<lambda>w. controlAPI ev 5948 (if truthy current then current else chargeCurrent w) w)
       (\<lambda>resp. andThen (attempt (hasError resp))
          (\<lambda>err.
             if err then return resp
             else if \<not> truthy (readProp resp ''data'')
             then return (errorObject ''Solis charge current setting 5948 API failed'')
             else
               andThen (controlAPI ev 5928 (JNum 100))
                 (\<lambda>resp. andThen (attempt (hasError resp))
                    (\<lambda>err.
                       if err then return resp
                       else if \<not> truthy (readProp resp ''data'')
                       then return (errorObject ''Solis charge SOC setting 5928 API failed'')
                       else
                         andThen (controlAPI ev 5946 (JStr (fromTimeText @ ''-'' @ toTimeText)))
                           (\<lambda>resp. andThen (attempt (hasError resp))
                              (\<lambda>err.
                                 if err then return resp
                                 else if \<not> truthy (readProp resp ''data'')
                                 then return (errorObject ''Solis charge setting 5946 API failed'')
                                 else return (statusObject
                                   (''Inverter successfully set to charge between '' @ fromTimeText
                                      @ '' and '' @ toTimeText))))))))"

definition post4B00Discharge :: "env \<Rightarrow> string \<Rightarrow> string \<Rightarrow> jsval \<Rightarrow> jsval operation" where
  "post4B00Discharge ev fromTimeText toTimeText current =
     andThen (\<lambda>w. controlAPI ev 5967 (if truthy current then current else dischargeCurrent w) w)
       (\<lambda>resp. andThen (attempt (hasError resp))
          (\<lambda>err.
             if err then return resp
             else if \<not> truthy (readProp resp ''data'')
             then return (errorObject ''Solis discharge current setting 5967 API failed'')
             else
               andThen (controlAPI ev 5965 (JNum 0))
                 (\<lambda>resp. andThen (attempt (hasError resp))
                    (\<lambda>err.
                       if err then return resp
                       else if \<not> truthy (readProp resp ''data'')
                       then return (errorObject ''Solis discharge SOC setting 5965 API failed'')
                       else
                         andThen (controlAPI ev 5964 (JStr (fromTimeText @ ''-'' @ toTimeText)))
                           (\<lambda>resp. andThen (attempt (hasError resp))
                              (\<lambda>err.
                                 if err then return resp
                                 else if \<not> truthy (readProp resp ''data'')
                                 then return (errorObject ''Solis discharge setting 5964 API failed'')
                                 else return (statusObject
                                   (''Inverter successfully set to discharge between '' @ fromTimeText
                                      @ '' and '' @ toTimeText))))))))"

section \<open>Ingestion: \<^verbatim>\<open>update\<close>\<close>

text \<open>
  \<^verbatim>\<open>update(offset)\<close>: fetch the day's telemetry and run the loop on the day's
  sub-tree. A day node comes into existence with its first sample.
\<close>

definition storeDay :: "nat \<Rightarrow> day \<Rightarrow> store \<Rightarrow> store" where
  "storeDay dateIdx dy st = (if dy = [] then st else putChild dateIdx dy st)"

definition update :: "env \<Rightarrow> int \<Rightarrow> jsval operation" where
  "update ev offset =
     andThen (inverterDayAPI ev offset)
       (\<lambda>resp. andThen (attempt (hasError resp))
          (\<lambda>err.
             if err then return resp
             else
               andThen (attempt (iterate (readProp resp ''data'')))
                 (\<lambda>snapshots w.
                    let dateIdx = timeIndex (atMidnight ev offset);
                        record = dayNode (data w) dateIdx;
                        (thrown, record') = update_loop ev record snapshots;
                        w' = w\<lparr>data := storeDay dateIdx record' (data w)\<rparr>
                    in case thrown of
                         Some e \<Rightarrow> (Inl e, w')
                       | None \<Rightarrow> (Inr (JObj [(''ok'', JStr ''Solis Data updated successfully'')]), w'))))"

section \<open>Charge history\<close>

text \<open>The \<^verbatim>\<open>dataNow\<close> getter: the snapshot at, or last before, the current time.\<close>

definition dataNow :: "env \<Rightarrow> world \<Rightarrow> exn + jsval" where
  "dataNow ev w =
     (let tIdx = timeIndex (now w);
          dataRecord = dayNode (data w) (dateIndex (now w))
      in case child dataRecord tIdx of
           Some doc \<Rightarrow> Inr (JObj doc)
         | None \<Rightarrow>
             (case childBefore dataRecord tIdx of
                Some record \<Rightarrow> Inr (JObj (snd record))
              | None \<Rightarrow>
                  (if slotTimeText (now w) = ''00:00''
                   then (let d = atMidnight ev (- 1) in
                         case lastChild (dayNode (data w) (dateIndex d)) of
                           None \<Rightarrow> Inl (TypeError ''document'')
                         | Some record2 \<Rightarrow> Inr (JObj (snd record2)))
                   else Inr JUndefined)))"

definition batteryLevelNow :: "env \<Rightarrow> world \<Rightarrow> exn + jsval" where
  "batteryLevelNow ev w =
     (case dataNow ev w of
        Inl e \<Rightarrow> Inl e
      | Inr dat \<Rightarrow> (if truthy dat then getProp dat ''batteryLevel'' else Inr JUndefined))"

definition startNewChargeHistoryRecord :: "env \<Rightarrow> unit operation" where
  "startNewChargeHistoryRecord ev w =
     (case batteryLevelNow ev w of
        Inl e \<Rightarrow> (Inl e, w)
      | Inr levelNow \<Rightarrow>
          (if truthy levelNow
           then (let d = now w;
                     slot = (case child (chargeHistory w) (slotTimeIndex d) of None \<Rightarrow> [] | Some doc \<Rightarrow> doc);
                     slot = setField ''start'' levelNow slot;
                     slot = setField ''startMinute'' (JNum (real (minute d))) slot
                 in (Inr (), w\<lparr>chargeHistory := putChild (slotTimeIndex d) slot (chargeHistory w)\<rparr>))
           else (Inr (), w)))"

text \<open>The battery collaborator's \<^verbatim>\<open>unsetDischargeControlFlag\<close>.\<close>

definition unsetDischargeControlFlag :: "unit operation" where
  "unsetDischargeControlFlag w = (Inr (), w\<lparr>dischargeControlFlag := False\<rparr>)"

section \<open>Scheduling operations\<close>

text \<open>
  Each operation asks for the firmware dialect, then either issues the post-4B00
  parameter writes or reads, rewrites and writes back the legacy settings string
  (whose \<^verbatim>\<open>split\<close> throws when the vendor's \<^verbatim>\<open>msg\<close> is not a text). An absent
  \<^verbatim>\<open>current\<close> argument is \<^verbatim>\<open>undefined\<close>.
\<close>

definition inverterCharge :: "env \<Rightarrow> bool \<Rightarrow> jsval operation" where
  "inverterCharge ev override w =
     (if \<not> override \<and> \<not> chargingEnabled w
      then (Inr (statusObject ''Inverter Charge task ignored''), w)
      else
        andThen (startNewChargeHistoryRecord ev)
          (\<lambda>u w.
             let fromD = now w;
                 toD = dateAt ev (slotEndTimeIndex fromD)
             in andThen (getFirmwareVersion ev)
                  (\<lambda>firmwareVersion.
                     if firmwareVersion = JStr ''post-4B00''
                     then post4B00Charge ev (timeText fromD) (timeText toD) JUndefined
                     else
                       andThen (atReadAPI ev)
                         (\<lambda>resp. andThen (attempt (hasError resp))
                            (\<lambda>err.
                               if err then return resp
                               else
                                 (case readProp (readProp resp ''data'') ''msg'' of
                                    JStr chargeString \<Rightarrow>
                                      andThen (\<lambda>w. chargeAPI ev (chargeTimeString ev w chargeString (timeText fromD) (timeText toD)) w)
                                        (\<lambda>resp. andThen (attempt (hasError resp))
                                           (\<lambda>err.
                                              if err then return resp
                                              else return (statusObject (''Inverter set to charge between '' @ timeText fromD @ '' and '' @ timeText toD))))
                                  | other \<Rightarrow> throw (TypeError ''split''))))) w) w)"

definition inverterChargeBetween :: "env \<Rightarrow> string \<Rightarrow> string \<Rightarrow> jsval operation" where
  "inverterChargeBetween ev fromTimeText toTimeText =
     andThen (getFirmwareVersion ev)
       (\<lambda>firmwareVersion.
          if firmwareVersion = JStr ''post-4B00''
          then post4B00Charge ev fromTimeText toTimeText JUndefined
          else
            andThen (atReadAPI ev)
              (\<lambda>resp. andThen (attempt (hasError resp))
                 (\<lambda>err.
                    if err then return resp
                    else
                      (case readProp (readProp resp ''data'') ''msg'' of
                         JStr chargeString \<Rightarrow>
                           andThen (\<lambda>w. chargeAPI ev (chargeTimeString ev w chargeString fromTimeText toTimeText) w)
                             (\<lambda>resp. andThen (attempt (hasError resp))
                                (\<lambda>err.
                                   if err then return resp
                                   else return (statusObject (''Inverter set to charge between '' @ fromTimeText @ '' and '' @ toTimeText))))
                       | other \<Rightarrow> throw (TypeError ''split'')))))"

definition inverterDischarge :: "env \<Rightarrow> bool \<Rightarrow> jsval operation" where
  "inverterDischarge ev override w =
     (if \<not> override \<and> \<not> dischargingEnabled w
      then (Inr (statusObject ''Inverter Discharge task ignored''), w)
      else
        (let fromD = now w;
             toD = dateAt ev (slotEndTimeIndex fromD)
         in andThen (getFirmwareVersion ev)
              (\<lambda>firmwareVersion.
                 if firmwareVersion = JStr ''post-4B00''
                 then post4B00Discharge ev (timeText fromD) (timeText toD) JUndefined
                 else
                   andThen (atReadAPI ev)
                     (\<lambda>resp. andThen (attempt (hasError resp))
                        (\<lambda>err.
                           if err then return resp
                           else
                             (case readProp (readProp resp ''data'') ''msg'' of
                                JStr chargeString \<Rightarrow>
                                  andThen (\<lambda>w. dischargeAPI ev (dischargeTimeString ev w chargeString (timeText fromD) (timeText toD)) w)
                                    (\<lambda>resp. andThen (attempt (hasError resp))
                                       (\<lambda>err.
                                          if err then return resp
                                          else andThen unsetDischargeControlFlag (\<lambda>u. return (statusObject (''Inverter set to discharge between '' @ timeText fromD @ '' and '' @ timeText toD)))))
                              | other \<Rightarrow> throw (TypeError ''split''))))) w))"

text \<open>
  \<^verbatim>\<open>inverterDischargeBetween(fromTimeText, toTimeText)\<close>. Its post-4B00 branch
  evaluates \<^verbatim>\<open>fromD.timeText\<close>, and no \<^verbatim>\<open>fromD\<close> is declared in this function:
  the evaluation throws a \<^verbatim>\<open>ReferenceError\<close> before anything is sent.
\<close>

definition inverterDischargeBetween :: "env \<Rightarrow> string \<Rightarrow> string \<Rightarrow> jsval operation" where
  "inverterDischargeBetween ev fromTimeText toTimeText =
     andThen (getFirmwareVersion ev)
       (\<lambda>firmwareVersion.
          if firmwareVersion = JStr ''post-4B00''
          then throw (ReferenceError ''fromD'')
          else
            andThen (atReadAPI ev)
              (\<lambda>resp. andThen (attempt (hasError resp))
                 (\<lambda>err.
                    if err then return resp
                    else
                      (case readProp (readProp resp ''data'') ''msg'' of
                         JStr chargeString \<Rightarrow>
                           andThen (\<lambda>w. dischargeAPI ev (dischargeTimeString ev w chargeString fromTimeText toTimeText) w)
                             (\<lambda>resp. andThen (attempt (hasError resp))
                                (\<lambda>err.
                                   if err then return resp
                                   else return (statusObject (''Inverter set to discharge between '' @ fromTimeText @ '' and '' @ toTimeText))))
                       | other \<Rightarrow> throw (TypeError ''split'')))))"

definition inverterGridOnly :: "env \<Rightarrow> bool \<Rightarrow> jsval operation" where
  "inverterGridOnly ev override w =
     (if \<not> override \<and> \<not> chargingEnabled w
      then (Inr (statusObject ''Inverter Grid Only task ignored''), w)
      else
        (let fromD = now w;
             toD = dateAt ev (slotEndTimeIndex fromD)
         in andThen (getFirmwareVersion ev)
              (\<lambda>firmwareVersion.
                 if firmwareVersion = JStr ''post-4B00''
                 then post4B00Discharge ev (timeText fromD) (timeText toD) (JNum 0)
                 else
                   andThen (atReadAPI ev)
                     (\<lambda>resp. andThen (attempt (hasError resp))
                        (\<lambda>err.
                           if err then return resp
                           else
                             (case readProp (readProp resp ''data'') ''msg'' of
                                JStr chargeString \<Rightarrow>
                                  andThen (\<lambda>w. dischargeAPI ev (gridOnlyTimeString ev chargeString (timeText fromD) (timeText toD)) w)
                                    (\<lambda>resp. andThen (attempt (hasError resp))
                                       (\<lambda>err.
                                          if err then return resp
                                          else return (statusObject (''Inverter set to only use grid power between '' @ timeText fromD @ '' and '' @ timeText toD))))
                              | other \<Rightarrow> throw (TypeError ''split''))))) w))"

definition inverterGridPowerBetween :: "env \<Rightarrow> string \<Rightarrow> string \<Rightarrow> jsval operation" where
  "inverterGridPowerBetween ev fromTimeText toTimeText =
     andThen (getFirmwareVersion ev)
       (\<lambda>firmwareVersion.
          if firmwareVersion = JStr ''post-4B00''
          then post4B00Discharge ev fromTimeText toTimeText (JNum 0)
          else
            andThen (atReadAPI ev)
              (\<lambda>resp. andThen (attempt (hasError resp))
                 (\<lambda>err.
                    if err then return resp
                    else
                      (case readProp (readProp resp ''data'') ''msg'' of
                         JStr chargeString \<Rightarrow>
                           andThen (\<lambda>w. dischargeAPI ev (gridOnlyTimeString ev chargeString fromTimeText toTimeText) w)
                             (\<lambda>resp. andThen (attempt (hasError resp))
                                (\<lambda>err.
                                   if err then return resp
                                   else return (statusObject (''Inverter set to only use grid power between '' @ fromTimeText @ '' and '' @ toTimeText))))
                       | other \<Rightarrow> throw (TypeError ''split'')))))"

definition inverterResetNow :: "env \<Rightarrow> bool \<Rightarrow> jsval operation" where
  "inverterResetNow ev override w =
     (if \<not> override \<and> \<not> chargingEnabled w
      then (Inr (errorObject ''Charging logic is currently disabled, so no reset command sent''), w)
      else
        andThen (getFirmwareVersion ev)
          (\<lambda>firmwareVersion.
             if firmwareVersion = JStr ''post-4B00''
             then post4B00Charge ev ''00:00'' ''00:00'' (JNum 0)
             else
               andThen (atReadAPI ev)
                 (\<lambda>resp. andThen (attempt (hasError resp))
                    (\<lambda>err.
                       if err then return resp
                       else
                         (case readProp (readProp resp ''data'') ''msg'' of
                            JStr chargeString \<Rightarrow>
                              andThen (\<lambda>w. chargeAPI ev (resetTimeString ev chargeString) w)
                                (\<lambda>resp. andThen (attempt (hasError resp))
                                   (\<lambda>err.
                                      if err then return resp
                                      else return (statusObject (''Inverter reset successfully''))))
                          | other \<Rightarrow> throw (TypeError ''split''))))) w)"

text \<open>\<^verbatim>\<open>inverterReset()\<close>: \<^verbatim>\<open>// only if midnight\<close>. It passes no override.\<close>

definition inverterReset :: "env \<Rightarrow> jsval operation" where
  "inverterReset ev w =
     (let d = now w in
      if timeText d = ''00:00''
      then inverterResetNow ev False w
      else (Inr (statusObject ''Inverter reset only done at midnight''), w))"

section \<open>Statistics\<close>

text \<open>
  \<^verbatim>\<open>a + b\<close>: when either operand is a text (or an array or object, whose
  primitive form is a text) the texts are concatenated, otherwise the numbers are added.
\<close>

definition isTextual :: "jsval \<Rightarrow> bool" where
  "isTextual v = (case v of JStr s \<Rightarrow> True | JArr xs \<Rightarrow> True | JObj kvs \<Rightarrow> True | _ \<Rightarrow> False)"

definition jsAdd :: "env \<Rightarrow> jsval \<Rightarrow> jsval \<Rightarrow> jsval" where
  "jsAdd ev a b =
     (if isTextual a \<or> isTextual b then JStr (jsToString ev a @ jsToString ev b)
      else jsAddNum a b)"

text \<open>
  \<^verbatim>\<open>+(a - b).toFixed(2)\<close>: the operands are coerced to numbers and \<open>NaN\<close> is
  contagious (\<^verbatim>\<open>NaN.toFixed(2)\<close> is the text \<^verbatim>\<open>NaN\<close>, read back as \<open>NaN\<close>); on two
  numbers the result is the runtime's.
\<close>

definition deltaOf :: "env \<Rightarrow> jsval \<Rightarrow> jsval \<Rightarrow> jsval" where
  "deltaOf ev a b =
     (case toNumber a of
        JNum x \<Rightarrow> (case toNumber b of JNum y \<Rightarrow> JNum (fixedDifference ev x y) | _ \<Rightarrow> JNaN)
      | _ \<Rightarrow> JNaN)"

text \<open>The object \<^verbatim>\<open>powerAt\<close> builds when a node exists at exactly the time asked for.\<close>

definition exactView :: "document \<Rightarrow> jsval" where
  "exactView timeNode =
     JObj [(''batteryLevel'', fieldValue timeNode ''batteryLevel''),
           (''houseLoadTotal'', fieldValue timeNode ''houseLoadTotal''),
           (''gridExportTotal'', fieldValue timeNode ''gridExportTotal''),
           (''gridimportTotal'', fieldValue timeNode ''gridimportTotal''),
           (''pvOutputTotal'', fieldValue timeNode ''pvOutputTotal'')]"

text \<open>The object it builds from a neighbouring node.\<close>

definition neighbourView :: "document \<Rightarrow> jsval" where
  "neighbourView timeNode =
     JObj [(''batteryLevel'', fieldValue timeNode ''batteryLevel''),
           (''houseLoadTotal'', fieldValue timeNode ''houseLoadTotal''),
           (''gridExportTotal'', fieldValue timeNode ''gridExportTotal''),
           (''gridImportTotal'', fieldValue timeNode ''gridImportTotal''),
           (''pvOutputTotal'', fieldValue timeNode ''pvOutputTotal'')]"

text \<open>
  \<^verbatim>\<open>powerAt(dateIndex, timeIndex)\<close>. \<^verbatim>\<open>!beforeIndex\<close> holds when there is no
  earlier node and also when its key is the number zero. With neither neighbour
  to go to, the node is asked for under \<^verbatim>\<open>undefined\<close>, reported here as a throw.
\<close>

definition powerAt :: "world \<Rightarrow> nat \<Rightarrow> nat \<Rightarrow> exn + jsval" where
  "powerAt w dateIdx timeIdx =
     (let dateNode = dayNode (data w) dateIdx in
      if dateNode = [] then Inr JUndefined
      else
        (case child dateNode timeIdx of
           Some timeNode \<Rightarrow> Inr (exactView timeNode)
         | None \<Rightarrow>
             (let beforeIndex = map_option fst (childBefore dateNode timeIdx);
                  afterIndex = map_option fst (childAfter dateNode timeIdx);
                  chosen =
                    (if beforeIndex = None \<or> beforeIndex = Some 0 then afterIndex
                     else if afterIndex = None then beforeIndex
                     else
                       (let diff1 = int timeIdx - int (the beforeIndex);
                            diff2 = int (the afterIndex) - int timeIdx
                        in if diff1 < diff2 then beforeIndex
                           else if diff1 > diff2 then afterIndex
                           else beforeIndex))
              in case chosen of
                   None \<Rightarrow> Inl (TypeError ''timeIndex'')
                 | Some k \<Rightarrow>
                     Inr (neighbourView (case child dateNode k of None \<Rightarrow> [] | Some timeNode \<Rightarrow> timeNode)))))"

text \<open>
  The inner loop of \<^verbatim>\<open>getHistory\<close>, one turn: \<^verbatim>\<open>data[name]\<close> becomes the rounded
  difference to the running value \<^verbatim>\<open>sum[name]\<close>, which becomes the value read.
\<close>

definition deltaStep :: "env \<Rightarrow> string \<Rightarrow> document \<times> document \<Rightarrow> document \<times> document" where
  "deltaStep ev name st =
     (let dat = fst st;
          running = snd st;
          v = jsAdd ev (readProp (JObj dat) name) (JNum 0)
      in (setField name (deltaOf ev v (readProp (JObj running) name)) dat,
          setField name v running))"

text \<open>The price joined to a slot, or the text \<^verbatim>\<open>not available\<close>.\<close>

definition priceAt :: "world \<Rightarrow> nat \<Rightarrow> nat \<Rightarrow> jsval" where
  "priceAt w dateIdx timeIdx =
     (case child (case child (octopusAgile w) dateIdx of None \<Rightarrow> [] | Some lv \<Rightarrow> lv) timeIdx of
        None \<Rightarrow> JStr ''not available''
      | Some agileNode \<Rightarrow>
          (if agileNode = [] then JStr ''not available'' else fieldValue agileNode ''price''))"

text \<open>
  The loop of \<^verbatim>\<open>getHistory\<close> with \<open>n\<close> turns left: the boundary advances by half an
  hour, and the loop ends at the first boundary in the future.
\<close>

fun history_loop ::
    "env \<Rightarrow> world \<Rightarrow> nat \<Rightarrow> nat \<Rightarrow> nat \<Rightarrow> document \<Rightarrow> exn + jsval list" where
  "history_loop ev w dateIdx 0 timeIdx running = Inr []"
| "history_loop ev w dateIdx (Suc n) timeIdx running =
     (let timeIdx = timeIdx + 1800000 in
      if timeIdx > timeIndex (now w) then Inr []
      else
        (case powerAt w dateIdx timeIdx of
           Inl e \<Rightarrow> Inl e
         | Inr JUndefined \<Rightarrow> Inl (TypeError ''time'')
         | Inr (JObj dat) \<Rightarrow>
             (let dat = setField ''time'' (JStr (timeText (dateAt ev timeIdx))) dat;
                  dat = setField ''price'' (priceAt w dateIdx timeIdx) dat;
                  (dat, running) = fold (deltaStep ev) (map fst running) (dat, running)
              in case history_loop ev w dateIdx n timeIdx running of
                   Inl e \<Rightarrow> Inl e
                 | Inr history \<Rightarrow> Inr (JObj dat # history))
         | Inr other \<Rightarrow> Inl (TypeError ''time'')))"

definition getHistory :: "env \<Rightarrow> world \<Rightarrow> nat \<Rightarrow> exn + jsval" where
  "getHistory ev w dateIdx =
     (if \<not> dayExists (data w) dateIdx then Inr (JBool False)
      else
        (let running = [(''houseLoadTotal'', JNum 0), (''gridExportTotal'', JNum 0),
                    (''gridImportTotal'', JNum 0), (''pvOutputTotal'', JNum 0)]
         in case history_loop ev w dateIdx 47 dateIdx running of
              Inl e \<Rightarrow> Inl e
            | Inr history \<Rightarrow> Inr (JArr history)))"

text \<open>\<^verbatim>\<open>getDataAt(timeText, offset)\<close>: the snapshot at that time of day, else the next, else the previous.\<close>

definition getDataAt :: "env \<Rightarrow> world \<Rightarrow> string \<Rightarrow> int \<Rightarrow> jsval" where
  "getDataAt ev w text offset =
     (let dateIdx = timeIndex (atMidnight ev offset);
          d = atTime ev text dateIdx;
          timeIdx = timeIndex d;
          dataRecord = dayNode (data w) dateIdx
      in case child dataRecord timeIdx of
           Some doc \<Rightarrow> JObj doc
         | None \<Rightarrow>
             (case childAfter dataRecord timeIdx of
                Some record \<Rightarrow> JObj (snd record)
              | None \<Rightarrow>
                  (case childBefore dataRecord timeIdx of
                     Some record \<Rightarrow> JObj (snd record)
                   | None \<Rightarrow> JUndefined)))"

record powerAverage =
  load :: jsval
  pv :: jsval

text \<open>
  The day nodes \<^verbatim>\<open>averagePowerBetween\<close> and \<^verbatim>\<open>profile\<close> visit: from the day before
  the most recent one backwards to the oldest. Without a day before the most
  recent there is nothing to visit.
\<close>

definition completeDays :: "world \<Rightarrow> store" where
  "completeDays w =
     (case lastChild (data w) of
        None \<Rightarrow> []
      | Some lc \<Rightarrow>
          (case childBefore (data w) (fst lc) of
             None \<Rightarrow> []
           | Some ps \<Rightarrow> rev (filter (\<lambda>e. fst e \<le> fst ps) (data w))))"

text \<open>
  The callback of the traversal, over the nodes still to visit: each visit lowers
  the offset by a day and adds the day's difference between the two times of day
  to the totals. Reading a field of a day without data throws.
\<close>

fun average_loop ::
    "env \<Rightarrow> world \<Rightarrow> string \<Rightarrow> string \<Rightarrow> store \<Rightarrow> int \<Rightarrow> jsval \<times> jsval \<Rightarrow> exn + jsval \<times> jsval" where
  "average_loop ev w from to [] offset totals = Inr totals"
| "average_loop ev w from to (dateNode # rest) offset totals =
     (let offset = offset - 1;
          dat = getDataAt ev w from offset
      in case getProp dat ''houseLoadTotal'' of
           Inl e \<Rightarrow> Inl e
         | Inr startLoad \<Rightarrow>
             (let startPV = readProp dat ''pvOutputTotal'';
                  dat = getDataAt ev w to offset
              in case getProp dat ''houseLoadTotal'' of
                   Inl e \<Rightarrow> Inl e
                 | Inr endLoad \<Rightarrow>
                     (let endPV = readProp dat ''pvOutputTotal'';
                          totalDayLoad = jsSub endLoad startLoad;
                          totalDayPV = jsSub endPV startPV
                      in average_loop ev w from to rest offset
                           (jsAdd ev (fst totals) totalDayLoad, jsAdd ev (snd totals) totalDayPV))))"

definition averagePowerBetween :: "env \<Rightarrow> world \<Rightarrow> string \<Rightarrow> string \<Rightarrow> exn + powerAverage" where
  "averagePowerBetween ev w from to =
     (let from = orElse from ''00:00'';
          to = orElse to ''23:59''
      in if data w = [] then Inr \<lparr>load = JNum 0, pv = JNum 0\<rparr>
         else if completeDays w = [] then Inr \<lparr>load = JNum 0, pv = JNum 0\<rparr>
         else
           (case average_loop ev w from to (completeDays w) 0 (JNum 0, JNum 0) of
              Inl e \<Rightarrow> Inl e
            | Inr totals \<Rightarrow>
                (let count = JNum (real (length (completeDays w)))
                 in Inr \<lparr>load = jsDiv (fst totals) count, pv = jsDiv (snd totals) count\<rparr>)))"

definition averagePowerBetweenTimeIndices :: "env \<Rightarrow> world \<Rightarrow> nat \<Rightarrow> nat \<Rightarrow> exn + powerAverage" where
  "averagePowerBetweenTimeIndices ev w fromTimeIndex toTimeIndex =
     (let fromD = dateAt ev fromTimeIndex;
          fromTimeText = timeText fromD;
          fromDateIndex = dateIndex fromD;
          toD = dateAt ev toTimeIndex;
          toTimeText = timeText toD;
          toDateIndex = dateIndex toD
      in if fromDateIndex = toDateIndex then averagePowerBetween ev w fromTimeText toTimeText
         else
           (case averagePowerBetween ev w fromTimeText ''23:30'' of
              Inl e \<Rightarrow> Inl e
            | Inr power1' \<Rightarrow>
                (case averagePowerBetween ev w ''00:00'' toTimeText of
                   Inl e \<Rightarrow> Inl e
                 | Inr power2' \<Rightarrow>
                     Inr \<lparr>load = jsAdd ev (load power1') (load power2'),
                          pv = jsAdd ev (pv power1') (pv power2')\<rparr>)))"

section \<open>Retention\<close>

text \<open>
  \<^verbatim>\<open>cleardown()\<close>: the traversal visits the day nodes from the most recent
  backwards, counting, and deletes every node counted past \<^verbatim>\<open>noOfDaysToKeep\<close>.
\<close>

fun cleardown_loop :: "int \<Rightarrow> nat \<Rightarrow> store \<Rightarrow> store \<Rightarrow> store" where
  "cleardown_loop noOfDaysToKeep count [] st = st"
| "cleardown_loop noOfDaysToKeep count (dateNode # rest) st =
     (let count = count + 1
      in cleardown_loop noOfDaysToKeep count rest
           (if int count > noOfDaysToKeep then deleteChild (fst dateNode) st else st))"

definition cleardown :: "world \<Rightarrow> world" where
  "cleardown w =
     (let noOfDaysToKeep = movingAveragePeriod w + 1
      in w\<lparr>data := cleardown_loop noOfDaysToKeep 0 (rev (data w)) (data w)\<rparr>)"

section \<open>A concrete environment\<close>

text \<open>
  An environment to run the model in: a UTC clock with fixed calendar texts, whole
  numbers printed in decimal, a plain serialiser, digests that only tag their
  input, and differences rounded to hundredths in exact decimal arithmetic (a tie
  going away from zero).
\<close>

definition hundredths :: "real \<Rightarrow> real" where
  "hundredths x =
     (if x < 0 then - (real_of_int (round (- x * 100)) / 100)
      else real_of_int (round (x * 100)) / 100)"

definition twoDigits :: "nat \<Rightarrow> string" where
  "twoDigits n = [digitChar (n div 10 mod 10), digitChar (n mod 10)]"

definition clockText :: "nat \<Rightarrow> string" where
  "clockText t = twoDigits (t div 3600000 mod 24) @ '':'' @ twoDigits (t div 60000 mod 60)"

definition utcDate :: "nat \<Rightarrow> dateInfo" where
  "utcDate t =
     \<lparr>timeIndex = t,
      dateIndex = t - t mod 86400000,
      timeText = clockText t,
      fullTimeText = clockText t @ '':'' @ twoDigits (t div 1000 mod 60),
      slotTimeText = clockText (t - t mod 1800000),
      dayText = ''15'',
      monthText = ''11'',
      year = ''2023'',
      daylightSaving = False,
      minute = t div 60000 mod 60,
      slotTimeIndex = t - t mod 1800000,
      slotEndTimeIndex = t - t mod 1800000 + 1800000,
      previousSlotTimeIndex = t - t mod 1800000 - 1800000\<rparr>"

definition clockOffset :: "string \<Rightarrow> nat" where
  "clockOffset text =
     (case (parseDigits (take 2 text) 0, parseDigits (take 2 (drop 3 text)) 0) of
        (Some h, Some m) \<Rightarrow> (h * 60 + m) * 60000
      | _ \<Rightarrow> 0)"

fun plainJson :: "jsval \<Rightarrow> string" where
  "plainJson (JStr s) = CHR 0x22 # s @ [CHR 0x22]"
| "plainJson (JNum x) = natText (nat \<lfloor>x\<rfloor>)"
| "plainJson (JBool b) = (if b then ''true'' else ''false'')"
| "plainJson (JArr xs) = ''['' @ joinComma (map plainJson xs) @ '']''"
| "plainJson (JObj kvs) =
     ''{'' @ joinComma (map (\<lambda>kv. CHR 0x22 # fst kv @ [CHR 0x22] @ '':'' @ plainJson (snd kv)) kvs) @ ''}''"
| "plainJson v = ''null''"

definition today :: nat where
  "today = 1700006400000"

definition testEnv :: env where
  "testEnv =
     \<lparr>dateAt = utcDate,
      atMidnight = (\<lambda>offset. utcDate (nat (int today + offset * 86400000))),
      atTime = (\<lambda>text dateIdx. utcDate (dateIdx + clockOffset text)),
      numberText = (\<lambda>x. natText (nat \<lfloor>x\<rfloor>)),
      stringify = plainJson,
      md5Base64 = (\<lambda>s. ''md5('' @ s @ '')''),
      hmacSha1Base64 = (\<lambda>k s. ''hmac('' @ k @ '','' @ s @ '')''),
      fixedDifference = (\<lambda>x y. hundredths (x - y))\<rparr>"

text \<open>A world with complete credentials, nothing stored and a vendor that never answers.\<close>

definition emptyWorld :: world where
  "emptyWorld =
     \<lparr>config = [(''inverterSn'', JStr ''SN1''), (''key'', JStr ''K''), (''secret'', JStr ''S'')],
      batteryConfig = [],
      chargingEnabled = True,
      dischargingEnabled = True,
      movingAveragePeriod = 7,
      data = [],
      chargeHistory = [],
      octopusAgile = [],
      dischargeControlFlag = False,
      now = utcDate today,
      utcNow = ''Wed, 15 Nov 2023 00:00:00 GMT'',
      remote = (\<lambda>n. FetchFailed),
      calls = []\<rparr>"

text \<open>Nine stored days of one sample each.\<close>

definition nineDays :: store where
  "nineDays = map (\<lambda>i. (i * 86400000, [(i * 86400000 + 1800000, [(''houseLoadTotal'', JNum 1)])])) [1, 2, 3, 4, 5, 6, 7, 8, 9]"

text \<open>A day with two samples, a quarter of an hour either side of 01:00.\<close>

definition twoSamples :: store where
  "twoSamples =
     [(today,
       [(today + 3600000 - 900000,
           [(''batteryLevel'', JNum 40), (''houseLoadTotal'', JNum 1.5), (''gridExportTotal'', JNum 0),
            (''gridImportTotal'', JNum 0.7), (''pvOutputTotal'', JNum 2)]),
        (today + 3600000 + 900000,
           [(''batteryLevel'', JNum 45), (''houseLoadTotal'', JNum 1.8), (''gridExportTotal'', JNum 0),
            (''gridImportTotal'', JNum 0.9), (''pvOutputTotal'', JNum 2.5)])])]"

section \<open>Terms of the properties\<close>

text \<open>A sample's store key and its load total, as the ingestion loop reads them.\<close>

definition sampleKey :: "jsval \<Rightarrow> nat option" where
  "sampleKey snapshot =
     (case getProp snapshot ''dataTimestamp'' of Inl e \<Rightarrow> None | Inr time \<Rightarrow> keyOf time)"

definition sampleLoad :: "jsval \<Rightarrow> jsval" where
  "sampleLoad snapshot = readProp snapshot ''homeLoadTodayEnergy''"

text \<open>A day response of two samples, and a world whose vendor always sends it.\<close>

definition sampleA :: jsval where
  "sampleA = JObj [(''dataTimestamp'', JStr ''1700008200000''), (''pac'', JNum 500), (''eToday'', JNum 2),
     (''familyLoadPower'', JNum 300), (''homeLoadTodayEnergy'', JNum 1.5), (''pSum'', JNum (- 200)),
     (''gridPurchasedTodayEnergy'', JNum 0.4), (''gridSellTodayEnergy'', JNum 0),
     (''batteryCapacitySoc'', JNum 40), (''batteryPower'', JNum 0)]"

definition sampleZero :: jsval where
  "sampleZero = JObj [(''dataTimestamp'', JStr ''1700006400000''), (''pac'', JNum 0), (''eToday'', JNum 0),
     (''familyLoadPower'', JNum 250), (''homeLoadTodayEnergy'', JNum 0), (''pSum'', JNum (- 250)),
     (''gridPurchasedTodayEnergy'', JNum 0), (''gridSellTodayEnergy'', JNum 0),
     (''batteryCapacitySoc'', JNum 40), (''batteryPower'', JNum 0)]"

definition dayResponse :: jsval where
  "dayResponse = JObj [(''success'', JBool True), (''data'', JArr [sampleZero, sampleA])]"

definition ingestWorld :: world where
  "ingestWorld = emptyWorld\<lparr>remote := (\<lambda>n. FetchStatus 200 dayResponse)\<rparr>"

text \<open>The value \<^verbatim>\<open>powerAt\<close> reports for a field at a boundary.\<close>

definition cumulative :: "world \<Rightarrow> nat \<Rightarrow> nat \<Rightarrow> string \<Rightarrow> jsval" where
  "cumulative w dateIdx timeIdx name =
     (case powerAt w dateIdx timeIdx of Inr (JObj dat) \<Rightarrow> readProp (JObj dat) name | _ \<Rightarrow> JUndefined)"

text \<open>A day with samples at 00:30 and 01:00, seen at 01:00.\<close>

definition twoBoundaries :: store where
  "twoBoundaries =
     [(today,
       [(today + 1800000,
           [(''batteryLevel'', JNum 40), (''houseLoadTotal'', JNum 1.5), (''gridExportTotal'', JNum 0),
            (''gridImportTotal'', JNum 0.4), (''pvOutputTotal'', JNum 2.004)]),
        (today + 3600000,
           [(''batteryLevel'', JNum 45), (''houseLoadTotal'', JNum 2), (''gridExportTotal'', JNum 0.1),
            (''gridImportTotal'', JNum 0.6), (''pvOutputTotal'', JNum 2.758)])])]"

definition historyWorld :: world where
  "historyWorld = emptyWorld\<lparr>data := twoBoundaries, now := utcDate (today + 3600000)\<rparr>"

text \<open>
  The Authorization value \<^verbatim>\<open>api\<close> computes, as a function of what goes into it;
  the text of a body that is hashed, and the text that is signed, given the text
  hashed and a date; what it is for a digest to collide on two inputs; and a world
  whose clock reads a day later.
\<close>

definition signedAuthorization ::
    "env \<Rightarrow> world \<Rightarrow> jsval \<Rightarrow> string \<Rightarrow> string \<Rightarrow> string \<Rightarrow> string \<Rightarrow> string \<Rightarrow> jsval \<Rightarrow> exn + string" where
  "signedAuthorization ev w body url meth contentType date accessKey secretKey =
     (case stringToSign ev w body url meth contentType date of
        Inl e \<Rightarrow> Inl e
      | Inr sts \<Rightarrow>
          (case signature ev (stsText sts) secretKey of
             Inl e \<Rightarrow> Inl e
           | Inr sg \<Rightarrow> Inr (''API '' @ accessKey @ '':'' @ sg)))"






text \<open>
  Worlds with a cached firmware dialect (the pre-4B00 one with a vendor that
  answers the read and accepts the write), with both enable flags off, and at 01:00.
\<close>

definition post4B00World :: world where
  "post4B00World = emptyWorld\<lparr>config := config emptyWorld @ [(''firmwareVersion'', JStr ''post-4B00'')]\<rparr>"

definition disabledWorld :: world where
  "disabledWorld = emptyWorld\<lparr>chargingEnabled := False, dischargingEnabled := False\<rparr>"

definition oneOClockWorld :: world where
  "oneOClockWorld = emptyWorld\<lparr>now := utcDate (today + 3600000)\<rparr>"

definition pre4B00World :: world where
  "pre4B00World = emptyWorld
     \<lparr>config := config emptyWorld @ [(''firmwareVersion'', JStr ''pre-4B00'')],
      remote := (\<lambda>n. if n = 0
         then FetchStatus 200 (JObj [(''data'', JObj
                [(''msg'', JStr ''50,50,02:00-05:00,00:00-00:00,1,2,00:00-00:00,3,4,5,00:00-00:00''),
                 (''yuanzhi'', JStr ''ok'')])])
         else FetchStatus 200 (JObj [(''data'', JObj [(''code'', JNum 0)])]))\<rparr>"

text \<open>Two complete days and the start of a third, with samples at 00:00, 02:00, 22:00 and 23:30.\<close>

definition threeDays :: store where
  "threeDays =
     [(1699833600000,
       [(1699833600000, [(''houseLoadTotal'', JNum 0.2), (''pvOutputTotal'', JNum 0)]),
        (1699840800000, [(''houseLoadTotal'', JNum 0.8), (''pvOutputTotal'', JNum 0)]),
        (1699912800000, [(''houseLoadTotal'', JNum 7), (''pvOutputTotal'', JNum 4)]),
        (1699918200000, [(''houseLoadTotal'', JNum 7.6), (''pvOutputTotal'', JNum 4)])]),
      (1699920000000,
       [(1699920000000, [(''houseLoadTotal'', JNum 0.1), (''pvOutputTotal'', JNum 0)]),
        (1699927200000, [(''houseLoadTotal'', JNum 0.5), (''pvOutputTotal'', JNum 0)]),
        (1699999200000, [(''houseLoadTotal'', JNum 9), (''pvOutputTotal'', JNum 6)]),
        (1700004600000, [(''houseLoadTotal'', JNum 10), (''pvOutputTotal'', JNum 6)])]),
      (1700006400000,
       [(1700008200000, [(''houseLoadTotal'', JNum 0.3), (''pvOutputTotal'', JNum 0)])])]"

definition averageWorld :: world where
  "averageWorld = emptyWorld\<lparr>data := threeDays\<rparr>"

section \<open>Verification\<close>

subsection \<open>Splitting and joining the settings string\<close>

lemma splitComma_nonempty: "splitComma s \<noteq> []"
  by (induction s) (auto split: list.splits)

lemma splitComma_plain: "CHR '','' \<notin> set f \<Longrightarrow> splitComma f = [f]"
  by (induction f) auto

lemma splitComma_field:
  "CHR '','' \<notin> set f \<Longrightarrow> splitComma (f @ CHR '','' # r) = f # splitComma r"
  by (induction f) auto

lemma splitComma_fields_plain: "f \<in> set (splitComma s) \<Longrightarrow> CHR '','' \<notin> set f"
proof (induction s arbitrary: f)
  case Nil
  then show ?case by simp
next
  case (Cons c cs)
  show ?case
  proof (cases "c = CHR '',''")
    case True
    with Cons show ?thesis by auto
  next
    case False
    obtain g gs where sp: "splitComma cs = g # gs"
      using splitComma_nonempty [of cs] by (cases "splitComma cs") auto
    with Cons False show ?thesis by auto
  qed
qed

lemma splitComma_joinComma:
  "fs \<noteq> [] \<Longrightarrow> \<forall>f \<in> set fs. CHR '','' \<notin> set f \<Longrightarrow> splitComma (joinComma fs) = fs"
proof (induction fs rule: joinComma.induct)
  case 1
  then show ?case by simp
next
  case (2 f)
  then show ?case by (simp add: splitComma_plain)
next
  case (3 f g fs)
  then show ?case by (simp add: splitComma_field)
qed

lemma digitChar_plain: "d < 10 \<Longrightarrow> digitChar d \<noteq> CHR '',''"
proof -
  assume "d < 10"
  then have "d \<in> {0,1,2,3,4,5,6,7,8,9}" by auto
  then show ?thesis by (auto simp: digitChar_def)
qed

lemma natText_plain: "CHR '','' \<notin> set (natText n)"
proof (induction n rule: natText.induct)
  case (1 n)
  show ?case
  proof (cases "n < 10")
    case True
    then show ?thesis using digitChar_plain [of n] by (auto simp: natText.simps [of n])
  next
    case False
    have "n mod 10 < 10" by simp
    then show ?thesis using 1 False digitChar_plain [of "n mod 10"]
      by (subst natText.simps) auto
  qed
qed

lemma length_setIndex: "i < length pcs \<Longrightarrow> length (setIndex pcs i v) = length pcs"
  by (simp add: setIndex_def)

lemma setIndex_in_range: "i < length pcs \<Longrightarrow> setIndex pcs i v = pcs[i := v]"
  by (simp add: setIndex_def)

lemma rewrite_frame:
  assumes len: "11 \<le> length (splitComma s)"
    and p0: "CHR '','' \<notin> set (elementText ev v0)"
    and p1: "CHR '','' \<notin> set (elementText ev v1)"
    and p2: "CHR '','' \<notin> set (elementText ev v2)"
    and p3: "CHR '','' \<notin> set (elementText ev v3)"
    and p6: "CHR '','' \<notin> set (elementText ev v6)"
    and p10: "CHR '','' \<notin> set (elementText ev v10)"
  defines "pcs \<equiv> (map JStr (splitComma s))[0 := v0, 1 := v1, 2 := v2, 3 := v3, 6 := v6, 10 := v10]"
  shows "splitComma (joinComma (map (elementText ev) pcs)) = map (elementText ev) pcs"
proof (rule splitComma_joinComma)
  show "map (elementText ev) pcs \<noteq> []" using len by (auto simp: pcs_def)
  show "\<forall>f\<in>set (map (elementText ev) pcs). CHR '','' \<notin> set f"
  proof
    fix f assume "f \<in> set (map (elementText ev) pcs)"
    then obtain i where i: "i < length pcs" "f = elementText ev (pcs ! i)"
      by (auto simp: in_set_conv_nth)
    have lp: "length pcs = length (splitComma s)" by (simp add: pcs_def)
    consider "i = 0" | "i = 1" | "i = 2" | "i = 3" | "i = 6" | "i = 10" | "i \<notin> {0,1,2,3,6,10}" by auto
    then show "CHR '','' \<notin> set f"
    proof cases
      case 7
      then have "pcs ! i = JStr (splitComma s ! i)" using i lp by (auto simp: pcs_def)
      then show ?thesis using i lp splitComma_fields_plain [of "splitComma s ! i" s] by auto
    qed (use i lp len p0 p1 p2 p3 p6 p10 in \<open>auto simp: pcs_def\<close>)
  qed
qed

lemma strToNumber_cases: "(\<exists>x. strToNumber s = JNum x) \<or> strToNumber s = JNaN"
  by (auto simp: strToNumber_def split: list.splits option.splits)

lemma toNumber_cases: "(\<exists>x. toNumber v = JNum x) \<or> toNumber v = JNaN"
  using strToNumber_cases by (induction v rule: toNumber.induct) auto

lemma toNumber_text_plain:
  "\<forall>x. CHR '','' \<notin> set (numberText ev x) \<Longrightarrow> CHR '','' \<notin> set (elementText ev (toNumber v))"
  using toNumber_cases [of v] by auto

lemma chargeCurrent_plain:
  "\<forall>x. CHR '','' \<notin> set (numberText ev x) \<Longrightarrow> CHR '','' \<notin> set (elementText ev (chargeCurrent w))"
  by (simp add: chargeCurrent_def toNumber_text_plain)

lemma dischargeCurrent_plain:
  "\<forall>x. CHR '','' \<notin> set (numberText ev x) \<Longrightarrow> CHR '','' \<notin> set (elementText ev (dischargeCurrent w))"
  by (simp add: dischargeCurrent_def toNumber_text_plain)

lemma rewrite_unfold:
  assumes "11 \<le> length (splitComma s)"
  shows "setIndex (setIndex (setIndex (setIndex (setIndex (setIndex (map JStr (splitComma s)) 0 v0) 1 v1) 2 v2) 3 v3) 6 v6) 10 v10
     = (map JStr (splitComma s))[0 := v0, 1 := v1, 2 := v2, 3 := v3, 6 := v6, 10 := v10]"
  using assms by (simp add: setIndex_def splitComma_nonempty)

lemma frame_of_updates:
  assumes len: "11 \<le> length (splitComma s)"
    and p0: "CHR '','' \<notin> set (elementText ev v0)"
    and p1: "CHR '','' \<notin> set (elementText ev v1)"
    and p2: "CHR '','' \<notin> set (elementText ev v2)"
    and p3: "CHR '','' \<notin> set (elementText ev v3)"
    and p6: "CHR '','' \<notin> set (elementText ev v6)"
    and p10: "CHR '','' \<notin> set (elementText ev v10)"
    and out: "out = joinComma (map (elementText ev)
        (setIndex (setIndex (setIndex (setIndex (setIndex (setIndex (map JStr (splitComma s)) 0 v0) 1 v1) 2 v2) 3 v3) 6 v6) 10 v10))"
  shows "length (splitComma out) = length (splitComma s) \<and>
     (\<forall>i < length (splitComma s). i \<notin> {0, 1, 2, 3, 6, 10} \<longrightarrow> splitComma out ! i = splitComma s ! i)"
proof -
  let ?pcs = "(map JStr (splitComma s))[0 := v0, 1 := v1, 2 := v2, 3 := v3, 6 := v6, 10 := v10]"
  have "splitComma out = map (elementText ev) ?pcs"
    unfolding out rewrite_unfold [OF len]
    by (rule rewrite_frame [OF len p0 p1 p2 p3 p6 p10])
  then show ?thesis by auto
qed

text \<open>
  C10. For a legacy settings string of at least 11 comma-separated fields, and
  time-of-day texts and a number printer that produce no comma, each of
  \<^verbatim>\<open>chargeTimeString\<close>, \<^verbatim>\<open>dischargeTimeString\<close>, \<^verbatim>\<open>gridOnlyTimeString\<close> and
  \<^verbatim>\<open>resetTimeString\<close> returns a string with the same number of fields, and every
  field at a position other than 0, 1, 2, 3, 6 and 10 is the input's field.
\<close>

theorem timeStrings_frame:
  assumes len: "11 \<le> length (splitComma currentSetting)"
    and from_plain: "CHR '','' \<notin> set fromTimeText"
    and to_plain: "CHR '','' \<notin> set toTimeText"
    and numbers_plain: "\<forall>x. CHR '','' \<notin> set (numberText ev x)"
    and out: "out \<in> {chargeTimeString ev w currentSetting fromTimeText toTimeText,
                    dischargeTimeString ev w currentSetting fromTimeText toTimeText,
                    gridOnlyTimeString ev currentSetting fromTimeText toTimeText,
                    resetTimeString ev currentSetting}"
  shows "length (splitComma out) = length (splitComma currentSetting) \<and>
     (\<forall>i < length (splitComma currentSetting).
        i \<notin> {0, 1, 2, 3, 6, 10} \<longrightarrow> splitComma out ! i = splitComma currentSetting ! i)"
proof -
  have z: "CHR '','' \<notin> set (elementText ev (JNum 0))" using numbers_plain by simp
  have zw: "CHR '','' \<notin> set (elementText ev (JStr ''00:00-00:00''))" by simp
  have win: "CHR '','' \<notin> set (elementText ev (JStr (fromTimeText @ ''-'' @ toTimeText)))"
    using from_plain to_plain by simp
  note cc = chargeCurrent_plain [OF numbers_plain, of w]
  note dc = dischargeCurrent_plain [OF numbers_plain, of w]
  consider (c) "out = chargeTimeString ev w currentSetting fromTimeText toTimeText"
    | (d) "out = dischargeTimeString ev w currentSetting fromTimeText toTimeText"
    | (g) "out = gridOnlyTimeString ev currentSetting fromTimeText toTimeText"
    | (r) "out = resetTimeString ev currentSetting"
    using out by auto
  then show ?thesis
  proof cases
    case c
    show ?thesis
      by (rule frame_of_updates [OF len cc z win zw zw zw])
         (simp add: c chargeTimeString_def Let_def)
  next
    case d
    show ?thesis
      by (rule frame_of_updates [OF len z dc zw win zw zw])
         (simp add: d dischargeTimeString_def Let_def)
  next
    case g
    show ?thesis
      by (rule frame_of_updates [OF len z z zw win zw zw])
         (simp add: g gridOnlyTimeString_def Let_def)
  next
    case r
    show ?thesis
      by (rule frame_of_updates [OF len z z zw zw zw zw])
         (simp add: r resetTimeString_def Let_def)
  qed
qed

theorem timeStrings_frame_witness:
  "length (splitComma (chargeTimeString testEnv emptyWorld
      ''50,50,02:00-05:00,00:00-00:00,1,2,00:00-00:00,3,4,5,00:00-00:00'' ''01:00'' ''01:30'')) = 11
   \<and> splitComma (chargeTimeString testEnv emptyWorld
      ''50,50,02:00-05:00,00:00-00:00,1,2,00:00-00:00,3,4,5,00:00-00:00'' ''01:00'' ''01:30'') ! 4 = ''1''
   \<and> splitComma (chargeTimeString testEnv emptyWorld
      ''50,50,02:00-05:00,00:00-00:00,1,2,00:00-00:00,3,4,5,00:00-00:00'' ''01:00'' ''01:30'') ! 9 = ''5''"
proof -
  let ?s = "''50,50,02:00-05:00,00:00-00:00,1,2,00:00-00:00,3,4,5,00:00-00:00''"
  let ?out = "chargeTimeString testEnv emptyWorld ?s ''01:00'' ''01:30''"
  have fields: "splitComma ?s =
      [''50'', ''50'', ''02:00-05:00'', ''00:00-00:00'', ''1'', ''2'', ''00:00-00:00'', ''3'', ''4'', ''5'',
       ''00:00-00:00'']"
    by simp
  have len: "11 \<le> length (splitComma ?s)" by (simp add: fields)
  have numbers: "\<forall>x. CHR '','' \<notin> set (numberText testEnv x)"
    by (simp add: testEnv_def natText_plain)
  have frame: "length (splitComma ?out) = length (splitComma ?s) \<and>
     (\<forall>i < length (splitComma ?s). i \<notin> {0, 1, 2, 3, 6, 10} \<longrightarrow> splitComma ?out ! i = splitComma ?s ! i)"
    by (rule timeStrings_frame [OF len _ _ numbers, where w = emptyWorld
          and fromTimeText = "''01:00''" and toTimeText = "''01:30''"]) simp_all
  from frame have "splitComma ?out ! 4 = splitComma ?s ! 4" and "splitComma ?out ! 9 = splitComma ?s ! 9"
    unfolding fields by simp_all
  with frame show ?thesis unfolding fields by simp
qed

subsection \<open>Retention\<close>

lemma deleteChild_filter:
  "filter (\<lambda>e. fst e \<notin> K) (deleteChild k st) = filter (\<lambda>e. fst e \<notin> insert k K) st"
  by (induction st) (auto simp: deleteChild_def)

lemma cleardown_loop_filter:
  "cleardown_loop keep c nodes st =
     filter (\<lambda>e. fst e \<notin> fst ` set (drop (nat (keep - int c)) nodes)) st"
proof (induction nodes arbitrary: c st)
  case Nil
  then show ?case by simp
next
  case (Cons node rest)
  show ?case
  proof (cases "int (c + 1) > keep")
    case True
    then have "nat (keep - int c) = 0" "nat (keep - int (c + 1)) = 0" by auto
    with True show ?thesis
      using Cons [of "c + 1" "deleteChild (fst node) st"]
      by (simp add: Let_def deleteChild_filter)
  next
    case False
    then have "nat (keep - int c) = Suc (nat (keep - int (c + 1)))" by auto
    with False show ?thesis
      using Cons [of "c + 1" st] by (simp add: Let_def)
  qed
qed

lemma filter_take_keys:
  assumes "distinct (map fst xs)"
  shows "filter (\<lambda>e. fst e \<notin> fst ` set (take m xs)) xs = drop m xs"
proof -
  have d: "distinct (map fst (take m xs) @ map fst (drop m xs))"
    using assms by (metis append_take_drop_id map_append)
  have "filter (\<lambda>e. fst e \<notin> fst ` set (take m xs)) (take m xs) = []"
    by (auto simp: filter_empty_conv)
  moreover have "filter (\<lambda>e. fst e \<notin> fst ` set (take m xs)) (drop m xs) = drop m xs"
    using d by (auto simp: filter_id_conv)
  ultimately show ?thesis
    by (metis append_take_drop_id filter_append self_append_conv2)
qed

lemma cleardown_loop_drop:
  assumes "distinct (map fst st)"
  shows "cleardown_loop keep 0 (rev st) st = drop (length st - nat keep) st"
proof -
  have "drop (nat keep) (rev st) = rev (take (length st - nat keep) st)"
    by (simp add: rev_take [symmetric] drop_rev)
  then show ?thesis
    using filter_take_keys [OF assms, of "length st - nat keep"]
    by (simp add: cleardown_loop_filter)
qed

text \<open>
  C6, as the code has it. \<^verbatim>\<open>cleardown\<close> keeps \<^verbatim>\<open>movingAveragePeriod + 1\<close> days:
  on a store whose days are in ascending key order, what remains is the last
  \<open>N + 1\<close> day sub-trees (all of them when there are fewer), and every deleted
  day is older than every day kept.
\<close>

theorem cleardown_keeps_period_plus_one:
  assumes "sorted_wrt (<) (map fst (data w))"
  shows "data (cleardown w) = drop (length (data w) - nat (movingAveragePeriod w + 1)) (data w)
    \<and> length (data (cleardown w)) = min (length (data w)) (nat (movingAveragePeriod w + 1))
    \<and> (\<forall>kept \<in> set (data (cleardown w)). \<forall>deleted \<in> set (data w) - set (data (cleardown w)).
          fst deleted < fst kept)"
proof -
  let ?m = "length (data w) - nat (movingAveragePeriod w + 1)"
  have dist: "distinct (map fst (data w))"
    using assms by (simp add: strict_sorted_iff)
  have eq: "data (cleardown w) = drop ?m (data w)"
    by (simp add: cleardown_def Let_def cleardown_loop_drop [OF dist])
  have len: "length (data (cleardown w)) = min (length (data w)) (nat (movingAveragePeriod w + 1))"
    unfolding eq by auto
  have order: "fst deleted < fst kept"
    if k: "kept \<in> set (drop ?m (data w))" and d: "deleted \<in> set (data w) - set (drop ?m (data w))"
    for kept deleted
  proof -
    from d have "deleted \<in> set (take ?m (data w))"
      by (metis DiffD1 DiffD2 UnE append_take_drop_id set_append)
    moreover have "sorted_wrt (<) (map fst (take ?m (data w)) @ map fst (drop ?m (data w)))"
      using assms by (metis append_take_drop_id map_append)
    ultimately show ?thesis using k by (auto simp: sorted_wrt_append)
  qed
  show ?thesis using eq len order by auto
qed

theorem cleardown_keeps_period_plus_one_witness:
  "sorted_wrt (<) (map fst (data (emptyWorld\<lparr>data := nineDays\<rparr>)))
   \<and> data (cleardown (emptyWorld\<lparr>data := nineDays\<rparr>)) = drop 1 nineDays
   \<and> length (data (cleardown (emptyWorld\<lparr>data := nineDays\<rparr>))) = 8"
proof -
  have s: "sorted_wrt (<) (map fst (data (emptyWorld\<lparr>data := nineDays\<rparr>)))"
    by (simp add: nineDays_def)
  have p: "nat (movingAveragePeriod emptyWorld + 1) = 8"
    by (simp add: emptyWorld_def)
  have l: "length nineDays = 9" by (simp add: nineDays_def)
  show ?thesis
    using s cleardown_keeps_period_plus_one [OF s] by (simp add: p l)
qed

text \<open>
  C6 as stated fails: with a retained window of 7 and nine stored days, eight
  day sub-trees remain, not seven.
\<close>

theorem cleardown_window_counterexample:
  "movingAveragePeriod (emptyWorld\<lparr>data := nineDays\<rparr>) = 7
   \<and> length (data (emptyWorld\<lparr>data := nineDays\<rparr>)) = 9
   \<and> length (data (cleardown (emptyWorld\<lparr>data := nineDays\<rparr>))) = 8
   \<and> length (data (cleardown (emptyWorld\<lparr>data := nineDays\<rparr>))) \<noteq> 7"
  by (simp add: cleardown_def emptyWorld_def nineDays_def deleteChild_def Let_def)

subsection \<open>Nearest-neighbour lookup\<close>

lemma child_member:
  "sorted_wrt (<) (map fst lv) \<Longrightarrow> e \<in> set lv \<Longrightarrow> child lv (fst e) = Some (snd e)"
  by (simp add: child_def strict_sorted_iff)

lemma childBefore_Some:
  assumes "childBefore lv t = Some b"
  shows "b \<in> set lv \<and> fst b < t"
proof -
  from assms obtain e es where f: "filter (\<lambda>e. fst e < t) lv = e # es" and b: "b = last (e # es)"
    by (auto simp: childBefore_def split: list.splits)
  have "b \<in> set (filter (\<lambda>e. fst e < t) lv)" unfolding f b by (rule last_in_set) simp
  then show ?thesis by auto
qed

lemma childBefore_greatest:
  assumes s: "sorted_wrt (<) (map fst lv)" and "childBefore lv t = Some b"
    and e: "e \<in> set lv" "fst e < t"
  shows "fst e \<le> fst b"
proof -
  let ?f = "filter (\<lambda>e. fst e < t) lv"
  from assms obtain x xs where f: "?f = x # xs" and b: "b = last ?f"
    by (auto simp: childBefore_def split: list.splits)
  have sf: "sorted_wrt (<) (map fst ?f)"
    using s by (induction lv) (auto)
  have split: "?f = butlast ?f @ [b]" unfolding b using f by simp
  have "sorted_wrt (<) (map fst (butlast ?f @ [b]))" using sf split by simp
  then have older: "\<forall>y \<in> set (butlast ?f). fst y < fst b"
    by (simp add: sorted_wrt_append)
  have "e \<in> set (butlast ?f @ [b])" using e split by simp
  then show ?thesis using older by auto
qed

lemma childAfter_Some:
  assumes "childAfter lv t = Some a"
  shows "a \<in> set lv \<and> t < fst a"
proof -
  from assms obtain es where f: "filter (\<lambda>e. t < fst e) lv = a # es"
    by (auto simp: childAfter_def split: list.splits)
  then have "a \<in> set (filter (\<lambda>e. t < fst e) lv)" by simp
  then show ?thesis by auto
qed

lemma childAfter_least:
  assumes s: "sorted_wrt (<) (map fst lv)" and "childAfter lv t = Some a"
    and e: "e \<in> set lv" "t < fst e"
  shows "fst a \<le> fst e"
proof -
  let ?f = "filter (\<lambda>e. t < fst e) lv"
  from assms obtain es where f: "?f = a # es"
    by (auto simp: childAfter_def split: list.splits)
  have sf: "sorted_wrt (<) (map fst ?f)"
    using s by (induction lv) (auto)
  have "e \<in> set ?f" using e by simp
  then show ?thesis using sf unfolding f by auto
qed

lemma childBefore_found:
  assumes "e \<in> set lv" and "fst e < t"
  shows "childBefore lv t \<noteq> None"
proof -
  from assms have "e \<in> set (filter (\<lambda>e. fst e < t) lv)" by simp
  then have "filter (\<lambda>e. fst e < t) lv \<noteq> []" by (metis empty_iff empty_set)
  then show ?thesis by (simp add: childBefore_def split: list.splits)
qed

lemma childAfter_found:
  assumes "e \<in> set lv" and "t < fst e"
  shows "childAfter lv t \<noteq> None"
proof -
  from assms have "e \<in> set (filter (\<lambda>e. t < fst e) lv)" by simp
  then have "filter (\<lambda>e. t < fst e) lv \<noteq> []" by (metis empty_iff empty_set)
  then show ?thesis by (simp add: childAfter_def split: list.splits)
qed

text \<open>
  Which node \<^verbatim>\<open>powerAt\<close> answers from, on a day sub-tree in ascending key order
  whose keys are positive timestamps: the node stored at exactly the time asked
  for when there is one (through the view of the exact-match branch); otherwise,
  with a previous and a next sample, the nearer of the two, the previous one on a
  tie; and with only one neighbour, that neighbour. The previous sample is the one
  with the greatest key below the time asked for, the next the one with the least
  key above it, and each is found whenever a sample lies on its side.
\<close>

lemma powerAt_selection:
  assumes sorted: "sorted_wrt (<) (map fst (dayNode (data w) d))"
    and positive: "\<forall>e \<in> set (dayNode (data w) d). 0 < fst e"
    and day: "dayNode (data w) d \<noteq> []"
  shows "(\<forall>doc. child (dayNode (data w) d) t = Some doc \<longrightarrow> powerAt w d t = Inr (exactView doc))
    \<and> (child (dayNode (data w) d) t = None \<longrightarrow>
         (\<forall>b a. childBefore (dayNode (data w) d) t = Some b \<and> childAfter (dayNode (data w) d) t = Some a \<longrightarrow>
            powerAt w d t = Inr (neighbourView (snd (if t - fst b \<le> fst a - t then b else a))))
       \<and> (\<forall>b. childBefore (dayNode (data w) d) t = Some b \<and> childAfter (dayNode (data w) d) t = None \<longrightarrow>
            powerAt w d t = Inr (neighbourView (snd b)))
       \<and> (\<forall>a. childBefore (dayNode (data w) d) t = None \<and> childAfter (dayNode (data w) d) t = Some a \<longrightarrow>
            powerAt w d t = Inr (neighbourView (snd a))))
    \<and> (\<forall>b. childBefore (dayNode (data w) d) t = Some b \<longrightarrow>
          b \<in> set (dayNode (data w) d) \<and> fst b < t
          \<and> (\<forall>e \<in> set (dayNode (data w) d). fst e < t \<longrightarrow> fst e \<le> fst b))
    \<and> (\<forall>a. childAfter (dayNode (data w) d) t = Some a \<longrightarrow>
          a \<in> set (dayNode (data w) d) \<and> t < fst a
          \<and> (\<forall>e \<in> set (dayNode (data w) d). t < fst e \<longrightarrow> fst a \<le> fst e))
    \<and> (\<forall>e \<in> set (dayNode (data w) d). fst e < t \<longrightarrow> childBefore (dayNode (data w) d) t \<noteq> None)
    \<and> (\<forall>e \<in> set (dayNode (data w) d). t < fst e \<longrightarrow> childAfter (dayNode (data w) d) t \<noteq> None)"
proof -
  let ?dy = "dayNode (data w) d"
  have exact: "powerAt w d t = Inr (exactView doc)" if "child ?dy t = Some doc" for doc
    using that day by (simp add: powerAt_def Let_def)
  have both: "powerAt w d t = Inr (neighbourView (snd (if t - fst b \<le> fst a - t then b else a)))"
    if n: "child ?dy t = None" and b: "childBefore ?dy t = Some b" and a: "childAfter ?dy t = Some a" for b a
  proof -
    from childBefore_Some [OF b] have bm: "b \<in> set ?dy" "fst b < t" by auto
    from childAfter_Some [OF a] have am: "a \<in> set ?dy" "t < fst a" by auto
    from bm positive have b0: "fst b \<noteq> 0" by auto
    note cb = child_member [OF sorted bm(1)] and ca = child_member [OF sorted am(1)]
    show ?thesis
      using day n b a b0 bm am cb ca by (auto simp: powerAt_def Let_def)
  qed
  have before: "powerAt w d t = Inr (neighbourView (snd b))"
    if n: "child ?dy t = None" and b: "childBefore ?dy t = Some b" and a: "childAfter ?dy t = None" for b
  proof -
    from childBefore_Some [OF b] have bm: "b \<in> set ?dy" "fst b < t" by auto
    from bm positive have b0: "fst b \<noteq> 0" by auto
    note cb = child_member [OF sorted bm(1)]
    show ?thesis using day n b a b0 cb by (auto simp: powerAt_def Let_def)
  qed
  have after: "powerAt w d t = Inr (neighbourView (snd a))"
    if n: "child ?dy t = None" and b: "childBefore ?dy t = None" and a: "childAfter ?dy t = Some a" for a
  proof -
    from childAfter_Some [OF a] have am: "a \<in> set ?dy" "t < fst a" by auto
    note ca = child_member [OF sorted am(1)]
    show ?thesis using day n b a ca by (auto simp: powerAt_def Let_def)
  qed
  have prev: "b \<in> set ?dy \<and> fst b < t \<and> (\<forall>e \<in> set ?dy. fst e < t \<longrightarrow> fst e \<le> fst b)"
    if b: "childBefore ?dy t = Some b" for b
    using childBefore_Some [OF b] childBefore_greatest [OF sorted b] by blast
  have nxt: "a \<in> set ?dy \<and> t < fst a \<and> (\<forall>e \<in> set ?dy. t < fst e \<longrightarrow> fst a \<le> fst e)"
    if a: "childAfter ?dy t = Some a" for a
    using childAfter_Some [OF a] childAfter_least [OF sorted a] by blast
  have fb: "\<forall>e \<in> set ?dy. fst e < t \<longrightarrow> childBefore ?dy t \<noteq> None"
    using childBefore_found by blast
  have fa: "\<forall>e \<in> set ?dy. t < fst e \<longrightarrow> childAfter ?dy t \<noteq> None"
    using childAfter_found by blast
  have sel: "(\<forall>doc. child ?dy t = Some doc \<longrightarrow> powerAt w d t = Inr (exactView doc))
    \<and> (child ?dy t = None \<longrightarrow>
         (\<forall>b a. childBefore ?dy t = Some b \<and> childAfter ?dy t = Some a \<longrightarrow>
            powerAt w d t = Inr (neighbourView (snd (if t - fst b \<le> fst a - t then b else a))))
       \<and> (\<forall>b. childBefore ?dy t = Some b \<and> childAfter ?dy t = None \<longrightarrow>
            powerAt w d t = Inr (neighbourView (snd b)))
       \<and> (\<forall>a. childBefore ?dy t = None \<and> childAfter ?dy t = Some a \<longrightarrow>
            powerAt w d t = Inr (neighbourView (snd a))))
    \<and> (\<forall>b. childBefore ?dy t = Some b \<longrightarrow>
          b \<in> set ?dy \<and> fst b < t \<and> (\<forall>e \<in> set ?dy. fst e < t \<longrightarrow> fst e \<le> fst b))
    \<and> (\<forall>a. childAfter ?dy t = Some a \<longrightarrow>
          a \<in> set ?dy \<and> t < fst a \<and> (\<forall>e \<in> set ?dy. t < fst e \<longrightarrow> fst a \<le> fst e))"
    using exact both before after prev nxt by blast
  show ?thesis
    using sel fb fa by (intro conjI) blast+
qed

text \<open>
  The specification's example: samples at \<open>T - 900000\<close> and \<open>T + 900000\<close>, target
  \<open>T\<close>; the earlier sample answers.
\<close>

lemma powerAt_tie_example:
  "powerAt (emptyWorld\<lparr>data := twoSamples\<rparr>) today (today + 3600000)
     = Inr (JObj [(''batteryLevel'', JNum 40), (''houseLoadTotal'', JNum 1.5), (''gridExportTotal'', JNum 0),
                  (''gridImportTotal'', JNum 0.7), (''pvOutputTotal'', JNum 2)])"
proof -
  let ?w = "emptyWorld\<lparr>data := twoSamples\<rparr>"
  let ?b = "(today + 3600000 - 900000,
           [(''batteryLevel'', JNum 40), (''houseLoadTotal'', JNum 1.5), (''gridExportTotal'', JNum 0),
            (''gridImportTotal'', JNum 0.7), (''pvOutputTotal'', JNum 2)])"
  let ?a = "(today + 3600000 + 900000,
           [(''batteryLevel'', JNum 45), (''houseLoadTotal'', JNum 1.8), (''gridExportTotal'', JNum 0),
            (''gridImportTotal'', JNum 0.9), (''pvOutputTotal'', JNum 2.5)])"
  have dy: "dayNode (data ?w) today = [?b, ?a]"
    by (simp add: dayNode_def child_def twoSamples_def)
  have s: "sorted_wrt (<) (map fst (dayNode (data ?w) today))"
    and p: "\<forall>e \<in> set (dayNode (data ?w) today). 0 < fst e"
    and n: "dayNode (data ?w) today \<noteq> []"
    unfolding dy by (simp_all add: today_def)
  have c: "child (dayNode (data ?w) today) (today + 3600000) = None"
    and b: "childBefore (dayNode (data ?w) today) (today + 3600000) = Some ?b"
    and a: "childAfter (dayNode (data ?w) today) (today + 3600000) = Some ?a"
    unfolding dy by (simp_all add: child_def childBefore_def childAfter_def today_def)
  from powerAt_selection [OF s p n, of "today + 3600000"] c b a
  have "powerAt ?w today (today + 3600000)
     = Inr (neighbourView (snd (if today + 3600000 - fst ?b \<le> fst ?a - (today + 3600000) then ?b else ?a)))"
    by blast
  then show ?thesis by (simp add: neighbourView_def fieldValue_def today_def)
qed

lemma twoSamples_day:
  "dayNode twoSamples 1700006400000 =
     [(1700009100000,
        [(''batteryLevel'', JNum 40), (''houseLoadTotal'', JNum 1.5), (''gridExportTotal'', JNum 0),
         (''gridImportTotal'', JNum 0.7), (''pvOutputTotal'', JNum 2)]),
      (1700010900000,
        [(''batteryLevel'', JNum 45), (''houseLoadTotal'', JNum 1.8), (''gridExportTotal'', JNum 0),
         (''gridImportTotal'', JNum 0.9), (''pvOutputTotal'', JNum 2.5)])]"
  by (simp add: dayNode_def child_def twoSamples_def today_def)

text \<open>
  C7. \<^verbatim>\<open>powerAt\<close> does not return the record stored at exactly the time asked
  for. The day holds, at 00:45, a record whose \<^verbatim>\<open>gridImportTotal\<close> is 0.7. Asked
  for 00:45, \<^verbatim>\<open>powerAt\<close> answers with an object that has no \<^verbatim>\<open>gridImportTotal\<close>:
  the exact-match branch reads and writes the field under the name
  \<^verbatim>\<open>gridimportTotal\<close>, which the record does not have. Asked for the instant one
  millisecond later, it answers from the same record through the neighbour
  branch, and \<^verbatim>\<open>gridImportTotal\<close> is 0.7.
\<close>

theorem powerAt_exact_drops_gridImportTotal:
  "child (dayNode (data (emptyWorld\<lparr>data := twoSamples\<rparr>)) 1700006400000) 1700009100000
     = Some [(''batteryLevel'', JNum 40), (''houseLoadTotal'', JNum 1.5), (''gridExportTotal'', JNum 0),
             (''gridImportTotal'', JNum 0.7), (''pvOutputTotal'', JNum 2)]
   \<and> powerAt (emptyWorld\<lparr>data := twoSamples\<rparr>) 1700006400000 1700009100000
     = Inr (JObj [(''batteryLevel'', JNum 40), (''houseLoadTotal'', JNum 1.5), (''gridExportTotal'', JNum 0),
                  (''gridimportTotal'', JStr []), (''pvOutputTotal'', JNum 2)])
   \<and> getProp (JObj [(''batteryLevel'', JNum 40), (''houseLoadTotal'', JNum 1.5), (''gridExportTotal'', JNum 0),
                  (''gridimportTotal'', JStr []), (''pvOutputTotal'', JNum 2)]) ''gridImportTotal''
     = Inr JUndefined
   \<and> powerAt (emptyWorld\<lparr>data := twoSamples\<rparr>) 1700006400000 1700009100001
     = Inr (JObj [(''batteryLevel'', JNum 40), (''houseLoadTotal'', JNum 1.5), (''gridExportTotal'', JNum 0),
                  (''gridImportTotal'', JNum 0.7), (''pvOutputTotal'', JNum 2)])"
  by (simp add: powerAt_def twoSamples_day child_def childBefore_def childAfter_def exactView_def
      neighbourView_def fieldValue_def Let_def)

subsection \<open>Ingestion\<close>

lemma child_putChild: "child (putChild k v lv) k' = (if k' = k then Some v else child lv k')"
  by (induction lv) (auto simp: child_def)

lemma keys_putChild: "set (map fst (putChild k v lv)) = insert k (set (map fst lv))"
  by (induction lv) auto

lemma distinct_putChild:
  "child lv k = None \<Longrightarrow> distinct (map fst lv) \<Longrightarrow> distinct (map fst (putChild k v lv))"
proof (induction lv)
  case Nil
  then show ?case by simp
next
  case (Cons e es)
  from Cons.prems have ne: "fst e \<noteq> k" by (auto simp: child_def split: if_splits)
  with Cons.prems have "child es k = None" by (cases e) (auto simp: child_def)
  with Cons have d: "distinct (map fst (putChild k v es))" by simp
  have notin: "k \<notin> set (map fst (e # es))"
    using Cons.prems(1) by (metis child_def map_of_eq_None_iff set_map)
  show ?case
  proof (cases "k < fst e")
    case True
    with ne notin Cons.prems show ?thesis by auto
  next
    case False
    have "fst e \<notin> set (map fst (putChild k v es))"
      using Cons.prems(2) ne by (simp only: keys_putChild) auto
    with False ne d show ?thesis by simp
  qed
qed

lemma update_snapshot_Inr:
  assumes "update_snapshot ev dy s = Inr dy'"
  obtains t where "sampleKey s = Some t"
    and "dy' = (if child dy t = None \<and> notZero (sampleLoad s)
                then putChild t (snapshotDocument ev t s) dy else dy)"
  using assms
  by (auto simp: update_snapshot_def sampleKey_def sampleLoad_def split: sum.splits option.splits if_splits)

lemma update_snapshot_noop:
  assumes "sampleKey s = Some t" and "notZero (sampleLoad s) \<longrightarrow> child dy t \<noteq> None"
  shows "update_snapshot ev dy s = Inr dy"
  using assms
  by (auto simp: update_snapshot_def sampleKey_def sampleLoad_def split: sum.splits option.splits)

lemma update_loop_spec:
  assumes "update_loop ev dy snaps = (r, dy')"
  shows "(\<forall>t doc. child dy t = Some doc \<longrightarrow> child dy' t = Some doc)
    \<and> (\<forall>t. child dy t = None \<and> child dy' t \<noteq> None \<longrightarrow>
          (\<exists>s \<in> set snaps. sampleKey s = Some t \<and> notZero (sampleLoad s)
             \<and> child dy' t = Some (snapshotDocument ev t s)))
    \<and> (r = None \<longrightarrow> (\<forall>s \<in> set snaps. sampleKey s \<noteq> None
          \<and> (\<forall>t. sampleKey s = Some t \<and> notZero (sampleLoad s) \<longrightarrow> child dy' t \<noteq> None)))
    \<and> (distinct (map fst dy) \<longrightarrow> distinct (map fst dy'))"
  using assms
proof (induction snaps arbitrary: dy)
  case Nil
  then show ?case by auto
next
  case (Cons s rest)
  show ?case
  proof (cases "update_snapshot ev dy s")
    case (Inl e)
    with Cons.prems show ?thesis by auto
  next
    case (Inr dy1)
    with Cons.prems have loop: "update_loop ev dy1 rest = (r, dy')" by simp
    note ih = Cons.IH [OF loop]
    from Inr obtain t where k: "sampleKey s = Some t"
      and dy1: "dy1 = (if child dy t = None \<and> notZero (sampleLoad s)
                then putChild t (snapshotDocument ev t s) dy else dy)"
      by (rule update_snapshot_Inr)
    have keep1: "child dy1 u = Some doc" if "child dy u = Some doc" for u doc
      using that dy1 by (auto simp: child_putChild)
    have new1: "u = t \<and> notZero (sampleLoad s) \<and> child dy1 u = Some (snapshotDocument ev t s)"
      if "child dy u = None" "child dy1 u \<noteq> None" for u
      using that dy1 by (auto simp: child_putChild split: if_splits)
    have stored1: "child dy1 t \<noteq> None" if "notZero (sampleLoad s)"
      using that dy1 by (auto simp: child_putChild)
    have d1: "distinct (map fst dy1)" if "distinct (map fst dy)"
      using that dy1 by (auto simp: distinct_putChild)
    have P1: "\<forall>u doc. child dy u = Some doc \<longrightarrow> child dy' u = Some doc"
      using keep1 ih by blast
    have P2: "\<forall>u. child dy u = None \<and> child dy' u \<noteq> None \<longrightarrow>
          (\<exists>s' \<in> set (s # rest). sampleKey s' = Some u \<and> notZero (sampleLoad s')
             \<and> child dy' u = Some (snapshotDocument ev u s'))"
    proof (intro allI impI)
      fix u assume u: "child dy u = None \<and> child dy' u \<noteq> None"
      show "\<exists>s' \<in> set (s # rest). sampleKey s' = Some u \<and> notZero (sampleLoad s')
             \<and> child dy' u = Some (snapshotDocument ev u s')"
      proof (cases "child dy1 u")
        case None
        with u ih show ?thesis by auto
      next
        case (Some doc)
        with u new1 [of u] have "u = t" "notZero (sampleLoad s)" "doc = snapshotDocument ev t s" by auto
        moreover from Some ih have "child dy' u = Some doc" by blast
        ultimately show ?thesis using k by auto
      qed
    qed
    have P3: "r = None \<longrightarrow> (\<forall>s' \<in> set (s # rest). sampleKey s' \<noteq> None
          \<and> (\<forall>u. sampleKey s' = Some u \<and> notZero (sampleLoad s') \<longrightarrow> child dy' u \<noteq> None))"
    proof
      assume r: "r = None"
      have "child dy' t \<noteq> None" if "notZero (sampleLoad s)"
        using stored1 [OF that] ih by (cases "child dy1 t") auto
      with r k ih show "\<forall>s' \<in> set (s # rest). sampleKey s' \<noteq> None
          \<and> (\<forall>u. sampleKey s' = Some u \<and> notZero (sampleLoad s') \<longrightarrow> child dy' u \<noteq> None)"
        by auto
    qed
    have P4: "distinct (map fst dy) \<longrightarrow> distinct (map fst dy')"
      using d1 ih by blast
    show ?thesis using P1 P2 P3 P4 by blast
  qed
qed

lemma update_loop_noop:
  assumes "\<forall>s \<in> set snaps. sampleKey s \<noteq> None
      \<and> (\<forall>t. sampleKey s = Some t \<and> notZero (sampleLoad s) \<longrightarrow> child dy t \<noteq> None)"
  shows "update_loop ev dy snaps = (None, dy)"
  using assms
proof (induction snaps)
  case Nil
  then show ?case by simp
next
  case (Cons s rest)
  then obtain t where t: "sampleKey s = Some t" by auto
  with Cons.prems have "notZero (sampleLoad s) \<longrightarrow> child dy t \<noteq> None" by auto
  from update_snapshot_noop [OF t this] have "update_snapshot ev dy s = Inr dy" .
  with Cons show ?case by simp
qed

lemma update_loop_idempotent:
  assumes "update_loop ev dy snaps = (None, dy')"
  shows "update_loop ev dy' snaps = (None, dy')"
  using update_loop_spec [OF assms] by (intro update_loop_noop) blast

lemma update_loop_nonempty:
  assumes "update_loop ev dy snaps = (r, dy')" and "dy \<noteq> []"
  shows "dy' \<noteq> []"
proof -
  from assms(2) obtain k v es where dy: "dy = (k, v) # es" by (cases dy) auto
  then have "child dy k = Some v" by (simp add: child_def)
  with update_loop_spec [OF assms(1)] have "child dy' k = Some v" by blast
  then show ?thesis by (auto simp: child_def)
qed

lemma request_frame:
  "request ev args w = (r, w') \<Longrightarrow> w'\<lparr>calls := calls w\<rparr> = w"
  by (auto simp: request_def Let_def split: if_splits fetchOutcome.splits)

lemma api_frame:
  "api ev url payload meth w = (r, w') \<Longrightarrow> w'\<lparr>calls := calls w\<rparr> = w"
  by (auto simp: api_def Let_def split: sum.splits dest: request_frame)

lemma inverterDayAPI_frame:
  assumes "inverterDayAPI ev offset w = (r, w')"
  shows "w'\<lparr>calls := calls w\<rparr> = w"
proof (cases "isConfigured w")
  case False
  with assms show ?thesis by (auto simp: inverterDayAPI_def)
next
  case True
  let ?d = "atMidnight ev offset"
  let ?body = "JObj [(''sn'', inverterSn w), (''money'', JStr ''UKP''),
                  (''time'', JStr (year ?d @ ''-'' @ monthText ?d @ ''-'' @ dayText ?d)),
                  (''timeZone'', JNum (if daylightSaving ?d then 1 else 0))]"
  obtain r0 w0 where a: "api ev ''/v1/api/inverterDay'' ?body [] w = (r0, w0)" by force
  from assms True a have "w' = w0"
    by (auto simp: inverterDayAPI_def Let_def andThen_def attempt_def return_def
             split: sum.splits if_splits)
  with api_frame [OF a] show ?thesis by simp
qed

lemma frame_data: "w'\<lparr>calls := cs\<rparr> = w \<Longrightarrow> data w' = data w"
  by (cases w', cases w) auto

lemma inverterDayAPI_array:
  assumes "inverterDayAPI ev offset w = (Inr resp, w')" and "hasError resp = Inr False"
  shows "\<exists>snaps. readProp resp ''data'' = JArr snaps"
proof -
  have e: "hasError (errorObject m) = Inr True" if "m \<noteq> []" for m
    using that by (simp add: hasError_def errorObject_def)
  from assms e [of "''SolisCloud credentials are incomplete''"] e [of "''solis.inverterDay API failed''"]
  have "isArray (readProp resp ''data'')"
    by (auto simp: inverterDayAPI_def Let_def andThen_def attempt_def return_def
             split: sum.splits if_splits prod.splits)
  then show ?thesis by (auto simp: isArray_def split: jsval.splits)
qed

lemma update_unfold:
  assumes api: "inverterDayAPI ev offset w = (Inr resp, w1)"
    and noerr: "hasError resp = Inr False"
    and arr: "readProp resp ''data'' = JArr snaps"
    and loop: "update_loop ev (dayNode (data w1) (timeIndex (atMidnight ev offset))) snaps = (thrown, dy')"
  shows "update ev offset w =
     ((case thrown of Some e \<Rightarrow> Inl e
       | None \<Rightarrow> Inr (JObj [(''ok'', JStr ''Solis Data updated successfully'')])),
      w1\<lparr>data := storeDay (timeIndex (atMidnight ev offset)) dy' (data w1)\<rparr>)"
  using assms
  by (simp add: update_def andThen_def attempt_def return_def iterate_def Let_def split: option.splits)

lemma dayNode_storeDay:
  "dayNode (storeDay d dy st) d' = (if d' = d \<and> dy \<noteq> [] then dy else dayNode st d')"
  by (simp add: storeDay_def dayNode_def child_putChild)

text \<open>
  C1. Suppose \<^verbatim>\<open>update\<close> gets a day response without error from the vendor and
  returns. Then, on the day's sub-tree: every record that existed is still there,
  unchanged; a timestamp that had no record has one afterwards only when a sample
  of the response carries that timestamp and a \<^verbatim>\<open>homeLoadTodayEnergy\<close> that,
  coerced to a number, is not zero, and the record is that sample's document;
  every such sample is stored; a timestamp whose samples all have a zero load gets
  no record; distinct keys stay distinct (one record per timestamp); other days
  are untouched; and ingesting the same response again returns the same success
  object and leaves every day sub-tree as it is.
\<close>

theorem update_idempotent_ingestion:
  assumes api: "inverterDayAPI ev offset w = (Inr resp, w1)"
    and noerr: "hasError resp = Inr False"
    and upd: "update ev offset w = (Inr ok, w')"
  shows "\<exists>snaps. readProp resp ''data'' = JArr snaps \<and>
     (let d = timeIndex (atMidnight ev offset);
          before = dayNode (data w) d;
          after = dayNode (data w') d
      in (\<forall>t doc. child before t = Some doc \<longrightarrow> child after t = Some doc)
       \<and> (\<forall>t. child before t = None \<and> child after t \<noteq> None \<longrightarrow>
             (\<exists>s \<in> set snaps. sampleKey s = Some t \<and> notZero (sampleLoad s)
                \<and> child after t = Some (snapshotDocument ev t s)))
       \<and> (\<forall>s \<in> set snaps. \<forall>t. sampleKey s = Some t \<and> notZero (sampleLoad s) \<longrightarrow> child after t \<noteq> None)
       \<and> (\<forall>t. child before t = None
               \<and> (\<forall>s \<in> set snaps. sampleKey s = Some t \<longrightarrow> \<not> notZero (sampleLoad s))
             \<longrightarrow> child after t = None)
       \<and> (distinct (map fst before) \<longrightarrow> distinct (map fst after))
       \<and> (\<forall>d'. d' \<noteq> d \<longrightarrow> dayNode (data w') d' = dayNode (data w) d')
       \<and> (\<forall>w2. inverterDayAPI ev offset w' = (Inr resp, w2) \<longrightarrow>
             (\<exists>w''. update ev offset w' = (Inr ok, w'')
                \<and> (\<forall>d'. dayNode (data w'') d' = dayNode (data w') d'))))"
proof -
  let ?d = "timeIndex (atMidnight ev offset)"
  let ?before = "dayNode (data w) ?d"
  let ?after = "dayNode (data w') ?d"
  from inverterDayAPI_array [OF api noerr] obtain snaps where arr: "readProp resp ''data'' = JArr snaps"
    by auto
  from inverterDayAPI_frame [OF api] have d1: "data w1 = data w" by (rule frame_data)
  obtain thrown dy' where loop: "update_loop ev ?before snaps = (thrown, dy')" by force
  from update_unfold [OF api noerr arr] loop d1
  have u: "update ev offset w =
     ((case thrown of Some e \<Rightarrow> Inl e
       | None \<Rightarrow> Inr (JObj [(''ok'', JStr ''Solis Data updated successfully'')])),
      w1\<lparr>data := storeDay ?d dy' (data w1)\<rparr>)" by simp
  with upd have thrown: "thrown = None" and ok: "ok = JObj [(''ok'', JStr ''Solis Data updated successfully'')]"
    and w': "w' = w1\<lparr>data := storeDay ?d dy' (data w1)\<rparr>"
    by (auto split: option.splits)
  have empty: "?before = []" if "dy' = []"
    using update_loop_nonempty [OF loop] that by blast
  have after: "?after = dy'"
    using empty by (auto simp: w' d1 dayNode_storeDay)
  have others: "dayNode (data w') d' = dayNode (data w) d'" if "d' \<noteq> ?d" for d'
    using that by (simp add: w' d1 dayNode_storeDay)
  note spec = update_loop_spec [OF loop]
  have again: "\<exists>w''. update ev offset w' = (Inr ok, w'') \<and> (\<forall>d'. dayNode (data w'') d' = dayNode (data w') d')"
    if api2: "inverterDayAPI ev offset w' = (Inr resp, w2)" for w2
  proof -
    from inverterDayAPI_frame [OF api2] have d2: "data w2 = data w'" by (rule frame_data)
    have loop2: "update_loop ev (dayNode (data w2) ?d) snaps = (None, dy')"
      using update_loop_idempotent [of ev ?before snaps dy'] loop thrown after d2 by simp
    from update_unfold [OF api2 noerr arr loop2]
    have u2: "update ev offset w' = (Inr ok, w2\<lparr>data := storeDay ?d dy' (data w2)\<rparr>)"
      by (simp add: ok)
    have "dayNode (data (w2\<lparr>data := storeDay ?d dy' (data w2)\<rparr>)) d' = dayNode (data w') d'" for d'
      using after by (auto simp: d2 dayNode_storeDay)
    with u2 show ?thesis by blast
  qed
  show ?thesis
    using arr spec thrown others again unfolding Let_def after by (intro exI [of _ snaps]) blast
qed

lemmas run_api = inverterDayAPI_def isConfigured_def readProp_def
      api_def stringToSign_def signature_def secret_def key_def inverterSn_def endpoint_def
      fieldValue_def request_def Let_def andThen_def attempt_def return_def hasError_def
      isArray_def orElse_def md5_def

lemma frame_shape: "w'\<lparr>calls := calls w\<rparr> = w \<Longrightarrow> w' = w\<lparr>calls := calls w'\<rparr>"
  by (cases w', cases w) auto

text \<open>
  A response with a zero-load sample at midnight and the specification's sample
  (\<^verbatim>\<open>pac=500, eToday=2.0, familyLoadPower=300, homeLoadTodayEnergy=1.5\<close>) half an
  hour later: only the second is stored, and a second ingestion changes nothing.
\<close>

theorem update_idempotent_ingestion_witness:
  "fst (update testEnv 0 ingestWorld) = Inr (JObj [(''ok'', JStr ''Solis Data updated successfully'')])
   \<and> child (dayNode (data (snd (update testEnv 0 ingestWorld))) today) 1700006400000 = None
   \<and> child (dayNode (data (snd (update testEnv 0 ingestWorld))) today) 1700008200000
        = Some (snapshotDocument testEnv 1700008200000 sampleA)
   \<and> (\<exists>w''. update testEnv 0 (snd (update testEnv 0 ingestWorld))
          = (Inr (JObj [(''ok'', JStr ''Solis Data updated successfully'')]), w'')
        \<and> dayNode (data w'') today = dayNode (data (snd (update testEnv 0 ingestWorld))) today)"
proof -
  let ?ok = "JObj [(''ok'', JStr ''Solis Data updated successfully'')]"
  let ?w' = "snd (update testEnv 0 ingestWorld)"
  let ?snaps = "[sampleZero, sampleA]"
  let ?after = "dayNode (data ?w') today"
  have mid: "timeIndex (atMidnight testEnv 0) = today"
    by (simp add: testEnv_def utcDate_def)
  have run: "fst (inverterDayAPI testEnv 0 (ingestWorld\<lparr>calls := cs, data := st\<rparr>)) = Inr dayResponse"
    for cs st
    by (simp add: run_api ingestWorld_def emptyWorld_def dayResponse_def testEnv_def)
  have "ingestWorld\<lparr>calls := [], data := []\<rparr> = ingestWorld"
    by (simp add: ingestWorld_def emptyWorld_def)
  with run [of "[]" "[]"] obtain w1 where api: "inverterDayAPI testEnv 0 ingestWorld = (Inr dayResponse, w1)"
    by (metis prod.collapse)
  have noerr: "hasError dayResponse = Inr False"
    by (simp add: hasError_def dayResponse_def)
  have kz: "sampleKey sampleZero = Some 1700006400000" and ka: "sampleKey sampleA = Some 1700008200000"
    by (simp_all add: sampleKey_def sampleZero_def sampleA_def isDigit_def digitVal_def)
  have lz: "\<not> notZero (sampleLoad sampleZero)" and la: "notZero (sampleLoad sampleA)"
    by (simp_all add: sampleLoad_def notZero_def readProp_def sampleZero_def sampleA_def)
  have arr: "readProp dayResponse ''data'' = JArr ?snaps"
    by (simp add: readProp_def dayResponse_def)
  have before: "child (dayNode (data ingestWorld) today) t = None" for t
    by (simp add: ingestWorld_def emptyWorld_def dayNode_def child_def)
  obtain thrown dy' where loop: "update_loop testEnv (dayNode (data w1) today) ?snaps = (thrown, dy')"
    by force
  have d1: "data w1 = data ingestWorld"
    using inverterDayAPI_frame [OF api] by (rule frame_data)
  have "dayNode (data w1) today = []"
    by (simp add: d1 ingestWorld_def emptyWorld_def dayNode_def child_def)
  with loop have thrown: "thrown = None"
    by (simp add: update_snapshot_def sampleZero_def sampleA_def isDigit_def digitVal_def
          notZero_def readProp_def child_def)
  have w': "?w' = w1\<lparr>data := storeDay today dy' (data w1)\<rparr>" and ok: "fst (update testEnv 0 ingestWorld) = Inr ?ok"
    using update_unfold [OF api noerr arr, unfolded mid, OF loop] thrown by simp_all
  then have upd: "update testEnv 0 ingestWorld = (Inr ?ok, ?w')"
    by (metis prod.collapse)
  note inst = update_idempotent_ingestion [OF api noerr upd, unfolded Let_def mid]
  from inst arr have written: "\<forall>t. child (dayNode (data ingestWorld) today) t = None \<and> child ?after t \<noteq> None \<longrightarrow>
             (\<exists>s \<in> set ?snaps. sampleKey s = Some t \<and> notZero (sampleLoad s)
                \<and> child ?after t = Some (snapshotDocument testEnv t s))"
    by auto
  from inst arr have stored: "\<forall>s \<in> set ?snaps. \<forall>t. sampleKey s = Some t \<and> notZero (sampleLoad s)
         \<longrightarrow> child ?after t \<noteq> None"
    by auto
  from inst have again: "\<forall>w2. inverterDayAPI testEnv 0 ?w' = (Inr dayResponse, w2) \<longrightarrow>
             (\<exists>w''. update testEnv 0 ?w' = (Inr ?ok, w'')
                \<and> (\<forall>d'. dayNode (data w'') d' = dayNode (data ?w') d'))"
    by auto
  have c1: "child ?after 1700006400000 = None"
  proof (rule ccontr)
    assume "child ?after 1700006400000 \<noteq> None"
    with written before obtain s where "s \<in> set ?snaps"
      "sampleKey s = Some 1700006400000" "notZero (sampleLoad s)"
      by blast
    with kz ka lz show False by auto
  qed
  have "child ?after 1700008200000 \<noteq> None"
    using stored ka la by auto
  with written before obtain s where s: "s \<in> set ?snaps" "sampleKey s = Some 1700008200000"
      "child ?after 1700008200000 = Some (snapshotDocument testEnv 1700008200000 s)"
    by blast
  with kz have "s = sampleA" by auto
  with s have c2: "child ?after 1700008200000 = Some (snapshotDocument testEnv 1700008200000 sampleA)"
    by simp
  have "w1 = ingestWorld\<lparr>calls := calls w1\<rparr>"
    using inverterDayAPI_frame [OF api] by (rule frame_shape)
  then have "?w' = ingestWorld\<lparr>calls := calls w1, data := storeDay today dy' (data w1)\<rparr>"
    using w' by (metis (no_types, lifting) world.update_convs(6) world.surjective)
  with run obtain w2 where "inverterDayAPI testEnv 0 ?w' = (Inr dayResponse, w2)"
    by (metis prod.collapse)
  with again have c3: "\<exists>w''. update testEnv 0 ?w' = (Inr ?ok, w'')
       \<and> dayNode (data w'') today = dayNode (data ?w') today"
    by blast
  show ?thesis using ok c1 c2 c3 by simp
qed

lemma snapshot_scenario:
  "map_of (snapshotDocument testEnv 1700008200000 sampleA) ''pvOutputNow'' = Some (JNum 0.5)
   \<and> map_of (snapshotDocument testEnv 1700008200000 sampleA) ''pvOutputTotal'' = Some (JNum 2)
   \<and> map_of (snapshotDocument testEnv 1700008200000 sampleA) ''houseLoadNow'' = Some (JNum 0.3)
   \<and> map_of (snapshotDocument testEnv 1700008200000 sampleA) ''houseLoadTotal'' = Some (JNum 1.5)"
  by (simp add: snapshotDocument_def sampleA_def readProp_def jsDiv_def jsSub_def Let_def)

subsection \<open>Slot deltas\<close>

lemma history_loop_numeral:
  "history_loop ev w dateIdx (numeral k) timeIdx running =
     (let timeIdx = timeIdx + 1800000 in
      if timeIdx > timeIndex (now w) then Inr []
      else
        (case powerAt w dateIdx timeIdx of
           Inl e \<Rightarrow> Inl e
         | Inr JUndefined \<Rightarrow> Inl (TypeError ''time'')
         | Inr (JObj dat) \<Rightarrow>
             (let dat = setField ''time'' (JStr (timeText (dateAt ev timeIdx))) dat;
                  dat = setField ''price'' (priceAt w dateIdx timeIdx) dat;
                  (dat, running) = fold (deltaStep ev) (map fst running) (dat, running)
              in case history_loop ev w dateIdx (pred_numeral k) timeIdx running of
                   Inl e \<Rightarrow> Inl e
                 | Inr history \<Rightarrow> Inr (JObj dat # history))
         | Inr other \<Rightarrow> Inl (TypeError ''time'')))"
proof -
  have "history_loop ev w dateIdx (numeral k) timeIdx running
      = history_loop ev w dateIdx (Suc (pred_numeral k)) timeIdx running"
    by (simp only: numeral_eq_Suc)
  then show ?thesis by (simp only: history_loop.simps)
qed

lemma hw_day: "dayNode (data historyWorld) 1700006400000 =
      [(1700008200000,
        [(''batteryLevel'', JNum 40), (''houseLoadTotal'', JNum 1.5),
         (''gridExportTotal'', JNum 0), (''gridImportTotal'', JNum 0.4),
         (''pvOutputTotal'', JNum 2.004)]),
       (1700010000000,
        [(''batteryLevel'', JNum 45), (''houseLoadTotal'', JNum 2),
         (''gridExportTotal'', JNum 0.1),
         (''gridImportTotal'', JNum 0.6),
         (''pvOutputTotal'', JNum 2.758)])]"
  by (simp add: dayNode_def child_def historyWorld_def emptyWorld_def twoBoundaries_def today_def)

lemma hw_power:
  "powerAt historyWorld 1700006400000 1700008200000 =
      Inr (JObj [(''batteryLevel'', JNum 40), (''houseLoadTotal'', JNum 1.5),
             (''gridExportTotal'', JNum 0), (''gridimportTotal'', JStr []),
             (''pvOutputTotal'', JNum 2.004)])"
  "powerAt historyWorld 1700006400000 1700010000000 =
      Inr (JObj [(''batteryLevel'', JNum 45), (''houseLoadTotal'', JNum 2),
             (''gridExportTotal'', JNum 0.1), (''gridimportTotal'', JStr []),
             (''pvOutputTotal'', JNum 2.758)])"
  by (simp_all add: powerAt_def hw_day child_def exactView_def fieldValue_def)

lemma hw_fields: "timeIndex (now historyWorld) = 1700010000000" "octopusAgile historyWorld = []"
  by (simp_all add: historyWorld_def emptyWorld_def utcDate_def today_def)

lemma dateAt_text: "timeText (dateAt testEnv t) = clockText t"
  by (simp add: testEnv_def utcDate_def)

lemma hw_clock: "clockText 1700008200000 = ''00:30''" "clockText 1700010000000 = ''01:00''"
  by (simp_all add: clockText_def twoDigits_def digitChar_def)

lemma testEnv_difference: "fixedDifference testEnv x y = hundredths (x - y)"
  by (simp add: testEnv_def)

lemma round_examples: "round (1002 / 5 :: real) = 200" "round (377 / 5 :: real) = 75"
  by (simp_all add: round_def floor_divide_real_eq_div)

lemma historyWorld_history:
  "getHistory testEnv historyWorld 1700006400000 =
      Inr (JArr
            [JObj [(''batteryLevel'', JNum 40), (''houseLoadTotal'', JNum 1.5),
                   (''gridExportTotal'', JNum 0), (''gridimportTotal'', JStr []),
                   (''pvOutputTotal'', JNum 2), (''time'', JStr ''00:30''),
                   (''price'', JStr ''not available''), (''gridImportTotal'', JNaN)],
             JObj [(''batteryLevel'', JNum 45), (''houseLoadTotal'', JNum 0.5),
                   (''gridExportTotal'', JNum 0.1), (''gridimportTotal'', JStr []),
                   (''pvOutputTotal'', JNum 0.75), (''time'', JStr ''01:00''),
                   (''price'', JStr ''not available''), (''gridImportTotal'', JNaN)]])"
  by (simp add: getHistory_def dayExists_def hw_day history_loop_numeral hw_power hw_fields dateAt_text
      Let_def priceAt_def child_def hw_clock deltaStep_def readProp_def jsAdd_def isTextual_def
      jsAddNum_def deltaOf_def testEnv_difference hundredths_def round_examples)

lemma historyWorld_cumulative:
  "cumulative historyWorld 1700006400000 1700008200000 ''houseLoadTotal'' = JNum 1.5"
  "cumulative historyWorld 1700006400000 1700010000000 ''houseLoadTotal'' = JNum 2"
  "cumulative historyWorld 1700006400000 1700008200000 ''pvOutputTotal'' = JNum 2.004"
  "cumulative historyWorld 1700006400000 1700010000000 ''pvOutputTotal'' = JNum 2.758"
  by (simp_all add: cumulative_def hw_power readProp_def)

lemma map_of_setField:
  "map_of (setField k v kvs) k' = (if k' = k then Some v else map_of kvs k')"
  by (induction kvs) auto

lemma keys_setField: "k \<in> set (map fst kvs) \<Longrightarrow> map fst (setField k v kvs) = map fst kvs"
  by (induction kvs) auto

lemma readProp_setField:
  "readProp (JObj (setField k v kvs)) k' = (if k' = k then v else readProp (JObj kvs) k')"
  by (simp add: readProp_def map_of_setField)

lemma fold_deltaStep:
  assumes "fold (deltaStep ev) names (dat, run) = (dat', run')"
    and "distinct names" and "set names \<subseteq> set (map fst run)"
  shows "map fst run' = map fst run
    \<and> (\<forall>name \<in> set names.
          readProp (JObj dat') name
            = deltaOf ev (jsAdd ev (readProp (JObj dat) name) (JNum 0)) (readProp (JObj run) name)
          \<and> readProp (JObj run') name = jsAdd ev (readProp (JObj dat) name) (JNum 0))
    \<and> (\<forall>name. name \<notin> set names \<longrightarrow>
          readProp (JObj dat') name = readProp (JObj dat) name
          \<and> readProp (JObj run') name = readProp (JObj run) name)"
  using assms
proof (induction names arbitrary: dat run)
  case Nil
  then show ?case by simp
next
  case (Cons nm rest)
  let ?v = "jsAdd ev (readProp (JObj dat) nm) (JNum 0)"
  let ?dat1 = "setField nm (deltaOf ev ?v (readProp (JObj run) nm)) dat"
  let ?run1 = "setField nm ?v run"
  have step: "deltaStep ev nm (dat, run) = (?dat1, ?run1)"
    by (simp add: deltaStep_def Let_def)
  from Cons.prems have f: "fold (deltaStep ev) rest (?dat1, ?run1) = (dat', run')"
    by (simp add: step)
  have keys1: "map fst ?run1 = map fst run"
    using Cons.prems(3) by (simp add: keys_setField)
  from Cons.prems have d: "distinct rest" "nm \<notin> set rest" "set rest \<subseteq> set (map fst ?run1)"
    by (auto simp: keys1)
  note ih = Cons.IH [OF f d(1) d(3)]
  show ?case
  proof (intro conjI ballI allI impI)
    show "map fst run' = map fst run" using ih keys1 by simp
  next
    fix name assume n: "name \<in> set (nm # rest)"
    show "readProp (JObj dat') name
            = deltaOf ev (jsAdd ev (readProp (JObj dat) name) (JNum 0)) (readProp (JObj run) name)"
    proof (cases "name = nm")
      case True
      with d(2) ih have "readProp (JObj dat') name = readProp (JObj ?dat1) name" by blast
      with True show ?thesis by (simp add: readProp_setField)
    next
      case False
      with n have "name \<in> set rest" by simp
      with ih False show ?thesis by (simp add: readProp_setField)
    qed
    show "readProp (JObj run') name = jsAdd ev (readProp (JObj dat) name) (JNum 0)"
    proof (cases "name = nm")
      case True
      with d(2) ih have "readProp (JObj run') name = readProp (JObj ?run1) name" by blast
      with True show ?thesis by (simp add: readProp_setField)
    next
      case False
      with n have "name \<in> set rest" by simp
      with ih False show ?thesis by (simp add: readProp_setField)
    qed
  next
    fix name assume n: "name \<notin> set (nm # rest)"
    with ih show "readProp (JObj dat') name = readProp (JObj dat) name"
      by (simp add: readProp_setField)
    from n ih show "readProp (JObj run') name = readProp (JObj run) name"
      by (simp add: readProp_setField)
  qed
qed

lemma history_loop_deltas:
  assumes "history_loop ev w d n t run = Inr history"
    and "distinct (map fst run)" and "name \<in> set (map fst run)"
    and "''time'' \<notin> set (map fst run)" and "''price'' \<notin> set (map fst run)"
  shows "length history \<le> n
    \<and> (length history < n \<longrightarrow> timeIndex (now w) < t + (length history + 1) * 1800000)
    \<and> (\<forall>i < length history.
          t + (i + 1) * 1800000 \<le> timeIndex (now w)
        \<and> readProp (history ! i) ''time'' = JStr (timeText (dateAt ev (t + (i + 1) * 1800000)))
        \<and> readProp (history ! i) name
            = deltaOf ev (jsAdd ev (cumulative w d (t + (i + 1) * 1800000) name) (JNum 0))
                (if i = 0 then readProp (JObj run) name
                 else jsAdd ev (cumulative w d (t + i * 1800000) name) (JNum 0)))"
  using assms
proof (induction n arbitrary: t run history)
  case 0
  then show ?case by simp
next
  case (Suc n)
  let ?t = "t + 1800000"
  show ?case
  proof (cases "?t > timeIndex (now w)")
    case True
    with Suc.prems(1) have "history = []" by (simp add: Let_def)
    with True show ?thesis by simp
  next
    case False
    from Suc.prems(1) False obtain dat0 where p: "powerAt w d ?t = Inr (JObj dat0)"
      by (auto simp: Let_def split: sum.splits jsval.splits)
    let ?dat2 = "setField ''price'' (priceAt w d ?t)
                   (setField ''time'' (JStr (timeText (dateAt ev ?t))) dat0)"
    obtain dat' run' where f: "fold (deltaStep ev) (map fst run) (?dat2, run) = (dat', run')"
      by force
    from Suc.prems(1) False p f obtain rest where
      rest: "history_loop ev w d n ?t run' = Inr rest" and h: "history = JObj dat' # rest"
      by (auto simp: Let_def split: sum.splits)
    note fd = fold_deltaStep [OF f Suc.prems(2)]
    have keys: "map fst run' = map fst run" using fd by blast
    have nt: "name \<noteq> ''time''" and np: "name \<noteq> ''price''" using Suc.prems(3,4,5) by blast+
    have x2: "readProp (JObj ?dat2) name = cumulative w d ?t name"
      using p nt np by (simp add: readProp_setField cumulative_def)
    have subset: "set (map fst run) \<subseteq> set (map fst run)" by simp
    from fd [OF subset] Suc.prems(3)
    have a: "readProp (JObj dat') name
        = deltaOf ev (jsAdd ev (readProp (JObj ?dat2) name) (JNum 0)) (readProp (JObj run) name)"
      and b: "readProp (JObj run') name = jsAdd ev (readProp (JObj ?dat2) name) (JNum 0)"
      by blast+
    from fd [OF subset] Suc.prems(4)
    have "readProp (JObj dat') ''time'' = readProp (JObj ?dat2) ''time''" by blast
    then have tm: "readProp (JObj dat') ''time'' = JStr (timeText (dateAt ev ?t))"
      by (simp add: readProp_setField)
    have delta: "readProp (JObj dat') name
        = deltaOf ev (jsAdd ev (cumulative w d ?t name) (JNum 0)) (readProp (JObj run) name)"
      using a x2 by simp
    have run1: "readProp (JObj run') name = jsAdd ev (cumulative w d ?t name) (JNum 0)"
      using b x2 by simp
    have d': "distinct (map fst run')" and n': "name \<in> set (map fst run')"
      and t': "''time'' \<notin> set (map fst run')" and p': "''price'' \<notin> set (map fst run')"
      using keys Suc.prems(2,3,4,5) by simp_all
    note ih = Suc.IH [OF rest d' n' t' p']
    have len: "length history \<le> Suc n" using ih h by simp
    have stop: "length history < Suc n \<longrightarrow> timeIndex (now w) < t + (length history + 1) * 1800000"
    proof
      assume "length history < Suc n"
      with h have "length rest < n" by simp
      with ih have "timeIndex (now w) < ?t + (length rest + 1) * 1800000" by blast
      moreover have "?t + (length rest + 1) * 1800000 = t + (length history + 1) * 1800000"
        using h by simp
      ultimately show "timeIndex (now w) < t + (length history + 1) * 1800000" by simp
    qed
    have slots: "\<forall>i < length history.
          t + (i + 1) * 1800000 \<le> timeIndex (now w)
        \<and> readProp (history ! i) ''time'' = JStr (timeText (dateAt ev (t + (i + 1) * 1800000)))
        \<and> readProp (history ! i) name
            = deltaOf ev (jsAdd ev (cumulative w d (t + (i + 1) * 1800000) name) (JNum 0))
                (if i = 0 then readProp (JObj run) name
                 else jsAdd ev (cumulative w d (t + i * 1800000) name) (JNum 0))"
    proof (intro allI impI)
      fix i assume i: "i < length history"
      show "t + (i + 1) * 1800000 \<le> timeIndex (now w)
        \<and> readProp (history ! i) ''time'' = JStr (timeText (dateAt ev (t + (i + 1) * 1800000)))
        \<and> readProp (history ! i) name
            = deltaOf ev (jsAdd ev (cumulative w d (t + (i + 1) * 1800000) name) (JNum 0))
                (if i = 0 then readProp (JObj run) name
                 else jsAdd ev (cumulative w d (t + i * 1800000) name) (JNum 0))"
      proof (cases i)
        case 0
        with h delta tm False show ?thesis by simp
      next
        case (Suc j)
        with i h have j: "j < length rest" by simp
        have e1: "t + (Suc j + 1) * 1800000 = ?t + (j + 1) * 1800000" by simp
        have e2: "t + Suc j * 1800000 = ?t + j * 1800000" by simp
        from ih j have
          "?t + (j + 1) * 1800000 \<le> timeIndex (now w)
           \<and> readProp (rest ! j) ''time'' = JStr (timeText (dateAt ev (?t + (j + 1) * 1800000)))
           \<and> readProp (rest ! j) name
            = deltaOf ev (jsAdd ev (cumulative w d (?t + (j + 1) * 1800000) name) (JNum 0))
                (if j = 0 then readProp (JObj run') name
                 else jsAdd ev (cumulative w d (?t + j * 1800000) name) (JNum 0))"
          by blast
        moreover have "(if j = 0 then readProp (JObj run') name
                 else jsAdd ev (cumulative w d (?t + j * 1800000) name) (JNum 0))
            = jsAdd ev (cumulative w d (?t + j * 1800000) name) (JNum 0)"
          using run1 by simp
        ultimately show ?thesis
          unfolding Suc using h by (simp only: e1 e2 nth_Cons_Suc nat.simps if_False)
      qed
    qed
    show ?thesis using len stop slots by blast
  qed
qed

lemma powerAt_returns:
  assumes day: "dayNode (data w) d \<noteq> []"
    and positive: "\<forall>e \<in> set (dayNode (data w) d). 0 < fst e"
  shows "\<exists>dat. powerAt w d t = Inr (JObj dat)"
proof (cases "child (dayNode (data w) d) t")
  case (Some doc)
  with day show ?thesis by (simp add: powerAt_def exactView_def)
next
  case None
  let ?dy = "dayNode (data w) d"
  from day obtain e where e: "e \<in> set ?dy" by (cases ?dy) auto
  from None have "t \<notin> fst ` set ?dy" by (simp add: child_def map_of_eq_None_iff)
  with e have "fst e < t \<or> t < fst e" by force
  then have some: "childBefore ?dy t \<noteq> None \<or> childAfter ?dy t \<noteq> None"
    using e by (auto simp: childBefore_def childAfter_def filter_empty_conv split: list.splits)
  have nz: "childBefore ?dy t = Some b \<Longrightarrow> fst b \<noteq> 0" for b
    using childBefore_Some [of ?dy t b] positive by auto
  show ?thesis
    using day None some nz
    by (auto simp: powerAt_def Let_def neighbourView_def split: option.splits)
qed

lemma history_loop_returns:
  assumes day: "dayNode (data w) d \<noteq> []"
    and positive: "\<forall>e \<in> set (dayNode (data w) d). 0 < fst e"
  shows "\<exists>history. history_loop ev w d n t run = Inr history"
proof (induction n arbitrary: t run)
  case 0
  show ?case by simp
next
  case (Suc n)
  from powerAt_returns [OF day positive] obtain dat where
    p: "powerAt w d (t + 1800000) = Inr (JObj dat)" by blast
  obtain dat' run' where f: "fold (deltaStep ev) (map fst run)
      (setField ''price'' (priceAt w d (t + 1800000))
         (setField ''time'' (JStr (timeText (dateAt ev (t + 1800000)))) dat), run) = (dat', run')"
    by force
  from Suc [of "t + 1800000" run'] obtain rest where
    "history_loop ev w d n (t + 1800000) run' = Inr rest" by blast
  then show ?case by (simp add: Let_def p f)
qed

lemma deltaOf_numbers:
  "deltaOf ev (jsAdd ev (JNum x) (JNum 0)) (JNum y) = JNum (fixedDifference ev x y)"
  "deltaOf ev (jsAdd ev (JNum x) (JNum 0)) (jsAdd ev (JNum y) (JNum 0)) = JNum (fixedDifference ev x y)"
  by (simp_all add: deltaOf_def jsAdd_def isTextual_def jsAddNum_def)

text \<open>
  C2, as the code has it. The history has one record per half-hour boundary of
  the day up to now, at most 47, each labelled with the boundary's time of day.
  For each cumulative field, the record at a boundary carries
  \<^verbatim>\<open>+(value - previous).toFixed(2)\<close>, where \<open>value\<close> is what \<^verbatim>\<open>powerAt\<close> reports
  for the field at that boundary (plus zero) and \<open>previous\<close> is the same at the
  boundary before; for slot 0, \<open>previous\<close> is zero. On numbers this is the
  runtime's rounded difference of the two. A stored day with positive keys does
  have a history.
\<close>

theorem getHistory_slot_deltas:
  assumes name: "name \<in> {''houseLoadTotal'', ''gridExportTotal'', ''gridImportTotal'', ''pvOutputTotal''}"
  shows "(\<forall>history. getHistory ev w d = Inr (JArr history) \<longrightarrow>
            length history \<le> 47
          \<and> (length history < 47 \<longrightarrow> timeIndex (now w) < d + (length history + 1) * 1800000)
          \<and> (\<forall>i < length history.
                d + (i + 1) * 1800000 \<le> timeIndex (now w)
              \<and> readProp (history ! i) ''time'' = JStr (timeText (dateAt ev (d + (i + 1) * 1800000)))
              \<and> readProp (history ! i) name
                  = deltaOf ev (jsAdd ev (cumulative w d (d + (i + 1) * 1800000) name) (JNum 0))
                      (if i = 0 then JNum 0
                       else jsAdd ev (cumulative w d (d + i * 1800000) name) (JNum 0))
              \<and> (\<forall>x. cumulative w d (d + (i + 1) * 1800000) name = JNum x \<longrightarrow>
                    (i = 0 \<longrightarrow> readProp (history ! i) name = JNum (fixedDifference ev x 0))
                  \<and> (\<forall>y. 0 < i \<and> cumulative w d (d + i * 1800000) name = JNum y \<longrightarrow>
                         readProp (history ! i) name = JNum (fixedDifference ev x y)))))
    \<and> (dayExists (data w) d \<and> (\<forall>e \<in> set (dayNode (data w) d). 0 < fst e) \<longrightarrow>
          (\<exists>history. getHistory ev w d = Inr (JArr history)))"
proof -
  let ?run = "[(''houseLoadTotal'', JNum 0), (''gridExportTotal'', JNum 0),
               (''gridImportTotal'', JNum 0), (''pvOutputTotal'', JNum 0)]"
  have dist: "distinct (map fst ?run)" by simp
  have mem: "name \<in> set (map fst ?run)" using name by auto
  have nt: "''time'' \<notin> set (map fst ?run)" and np: "''price'' \<notin> set (map fst ?run)" by simp_all
  have zero: "readProp (JObj ?run) name = JNum 0"
    using name by (auto simp: readProp_def)
  have slots: "length history \<le> 47
          \<and> (length history < 47 \<longrightarrow> timeIndex (now w) < d + (length history + 1) * 1800000)
          \<and> (\<forall>i < length history.
                d + (i + 1) * 1800000 \<le> timeIndex (now w)
              \<and> readProp (history ! i) ''time'' = JStr (timeText (dateAt ev (d + (i + 1) * 1800000)))
              \<and> readProp (history ! i) name
                  = deltaOf ev (jsAdd ev (cumulative w d (d + (i + 1) * 1800000) name) (JNum 0))
                      (if i = 0 then JNum 0
                       else jsAdd ev (cumulative w d (d + i * 1800000) name) (JNum 0))
              \<and> (\<forall>x. cumulative w d (d + (i + 1) * 1800000) name = JNum x \<longrightarrow>
                    (i = 0 \<longrightarrow> readProp (history ! i) name = JNum (fixedDifference ev x 0))
                  \<and> (\<forall>y. 0 < i \<and> cumulative w d (d + i * 1800000) name = JNum y \<longrightarrow>
                         readProp (history ! i) name = JNum (fixedDifference ev x y))))"
    if hist: "getHistory ev w d = Inr (JArr history)" for history
  proof -
    from hist have loop: "history_loop ev w d 47 d ?run = Inr history"
      by (auto simp: getHistory_def Let_def split: if_splits sum.splits)
    note l = history_loop_deltas [OF loop dist mem nt np, unfolded zero]
    have nums: "(\<forall>x. cumulative w d (d + (i + 1) * 1800000) name = JNum x \<longrightarrow>
                    (i = 0 \<longrightarrow> readProp (history ! i) name = JNum (fixedDifference ev x 0))
                  \<and> (\<forall>y. 0 < i \<and> cumulative w d (d + i * 1800000) name = JNum y \<longrightarrow>
                         readProp (history ! i) name = JNum (fixedDifference ev x y)))"
      if i: "i < length history" for i
    proof -
      from l i have r: "readProp (history ! i) name
                  = deltaOf ev (jsAdd ev (cumulative w d (d + (i + 1) * 1800000) name) (JNum 0))
                      (if i = 0 then JNum 0
                       else jsAdd ev (cumulative w d (d + i * 1800000) name) (JNum 0))"
        by blast
      show ?thesis unfolding r by (auto simp: deltaOf_numbers)
    qed
    show ?thesis using l nums by blast
  qed
  have returns: "\<exists>history. getHistory ev w d = Inr (JArr history)"
    if "dayExists (data w) d \<and> (\<forall>e \<in> set (dayNode (data w) d). 0 < fst e)"
  proof -
    from that have day: "dayNode (data w) d \<noteq> []" and pos: "\<forall>e \<in> set (dayNode (data w) d). 0 < fst e"
      by (simp_all add: dayExists_def)
    from history_loop_returns [OF day pos, of ev 47 d ?run] obtain history where
      "history_loop ev w d 47 d ?run = Inr history" by blast
    with that show ?thesis by (simp add: getHistory_def Let_def)
  qed
  show ?thesis using slots returns by blast
qed

theorem getHistory_slot_deltas_witness:
  "(\<exists>history. getHistory testEnv historyWorld 1700006400000 = Inr (JArr history))
   \<and> readProp
        ([JObj [(''batteryLevel'', JNum 40), (''houseLoadTotal'', JNum 1.5),
                (''gridExportTotal'', JNum 0), (''gridimportTotal'', JStr []),
                (''pvOutputTotal'', JNum 2), (''time'', JStr ''00:30''),
                (''price'', JStr ''not available''), (''gridImportTotal'', JNaN)],
          JObj [(''batteryLevel'', JNum 45), (''houseLoadTotal'', JNum 0.5),
                (''gridExportTotal'', JNum 0.1), (''gridimportTotal'', JStr []),
                (''pvOutputTotal'', JNum 0.75), (''time'', JStr ''01:00''),
                (''price'', JStr ''not available''), (''gridImportTotal'', JNaN)]] ! 0)
        ''houseLoadTotal'' = JNum (fixedDifference testEnv 1.5 0)
   \<and> readProp
        ([JObj [(''batteryLevel'', JNum 40), (''houseLoadTotal'', JNum 1.5),
                (''gridExportTotal'', JNum 0), (''gridimportTotal'', JStr []),
                (''pvOutputTotal'', JNum 2), (''time'', JStr ''00:30''),
                (''price'', JStr ''not available''), (''gridImportTotal'', JNaN)],
          JObj [(''batteryLevel'', JNum 45), (''houseLoadTotal'', JNum 0.5),
                (''gridExportTotal'', JNum 0.1), (''gridimportTotal'', JStr []),
                (''pvOutputTotal'', JNum 0.75), (''time'', JStr ''01:00''),
                (''price'', JStr ''not available''), (''gridImportTotal'', JNaN)]] ! 1)
        ''houseLoadTotal'' = JNum (fixedDifference testEnv 2 1.5)"
proof -
  let ?h = "[JObj [(''batteryLevel'', JNum 40), (''houseLoadTotal'', JNum 1.5),
            (''gridExportTotal'', JNum 0), (''gridimportTotal'', JStr []),
            (''pvOutputTotal'', JNum 2), (''time'', JStr ''00:30''),
            (''price'', JStr ''not available''), (''gridImportTotal'', JNaN)],
      JObj [(''batteryLevel'', JNum 45), (''houseLoadTotal'', JNum 0.5),
            (''gridExportTotal'', JNum 0.1), (''gridimportTotal'', JStr []),
            (''pvOutputTotal'', JNum 0.75), (''time'', JStr ''01:00''),
            (''price'', JStr ''not available''), (''gridImportTotal'', JNaN)]]"
  have h: "getHistory testEnv historyWorld 1700006400000 = Inr (JArr ?h)"
    by (rule historyWorld_history)
  have nm: "''houseLoadTotal'' \<in> {''houseLoadTotal'', ''gridExportTotal'', ''gridImportTotal'', ''pvOutputTotal''}"
    by simp
  have c0: "cumulative historyWorld 1700006400000 (1700006400000 + (0 + 1) * 1800000) ''houseLoadTotal''
      = JNum 1.5"
    and c1: "cumulative historyWorld 1700006400000 (1700006400000 + (1 + 1) * 1800000) ''houseLoadTotal''
      = JNum 2"
    and c1p: "cumulative historyWorld 1700006400000 (1700006400000 + 1 * 1800000) ''houseLoadTotal''
      = JNum 1.5"
    by (simp_all add: historyWorld_cumulative)
  have i0: "(0::nat) < length ?h" and i1: "(1::nat) < length ?h" and pos: "(0::nat) < 1" by simp_all
  have stored: "dayExists (data historyWorld) 1700006400000
      \<and> (\<forall>e \<in> set (dayNode (data historyWorld) 1700006400000). 0 < fst e)"
    by (simp add: dayExists_def hw_day)
  note inst = getHistory_slot_deltas [OF nm, of testEnv historyWorld 1700006400000]
  from inst stored have ex: "\<exists>history. getHistory testEnv historyWorld 1700006400000 = Inr (JArr history)"
    by blast
  from inst h i0 c0 have d0: "readProp (?h ! 0) ''houseLoadTotal'' = JNum (fixedDifference testEnv 1.5 0)"
    by blast
  from inst h i1 c1 c1p pos have d1: "readProp (?h ! 1) ''houseLoadTotal'' = JNum (fixedDifference testEnv 2 1.5)"
    by blast
  from ex d0 d1 show ?thesis by blast
qed

text \<open>
  C2 as stated fails. A day with 1.5 recorded at 00:30 and 2.0 at 01:00 yields
  the deltas 1.5 and 0.5: slot 0 is measured from zero, and the deltas sum to 2.0,
  not to last minus first (0.5). And with 2.004 and 2.758 recorded, the deltas are
  2.00 and 0.75, each rounded to two decimals: they sum to 2.75, which is neither
  last minus first (0.754) nor the last value (2.758).
\<close>

theorem getHistory_baseline_counterexample:
  "getHistory testEnv historyWorld 1700006400000 =
      Inr (JArr
            [JObj [(''batteryLevel'', JNum 40), (''houseLoadTotal'', JNum 1.5),
                   (''gridExportTotal'', JNum 0), (''gridimportTotal'', JStr []),
                   (''pvOutputTotal'', JNum 2), (''time'', JStr ''00:30''),
                   (''price'', JStr ''not available''), (''gridImportTotal'', JNaN)],
             JObj [(''batteryLevel'', JNum 45), (''houseLoadTotal'', JNum 0.5),
                   (''gridExportTotal'', JNum 0.1), (''gridimportTotal'', JStr []),
                   (''pvOutputTotal'', JNum 0.75), (''time'', JStr ''01:00''),
                   (''price'', JStr ''not available''), (''gridImportTotal'', JNaN)]])
   \<and> cumulative historyWorld 1700006400000 1700008200000 ''houseLoadTotal'' = JNum 1.5
   \<and> cumulative historyWorld 1700006400000 1700010000000 ''houseLoadTotal'' = JNum 2
   \<and> (1.5 + 0.5 :: real) \<noteq> 2 - 1.5
   \<and> cumulative historyWorld 1700006400000 1700008200000 ''pvOutputTotal'' = JNum 2.004
   \<and> cumulative historyWorld 1700006400000 1700010000000 ''pvOutputTotal'' = JNum 2.758
   \<and> (2 + 0.75 :: real) \<noteq> 2.758 - 2.004
   \<and> (2 + 0.75 :: real) \<noteq> 2.758 - 0"
  using historyWorld_history historyWorld_cumulative by simp

subsection \<open>Request signing\<close>






lemma api_authorization:
  assumes "signedAuthorization ev w payload url meth ''application/json'' (utcNow w) (key ev w) (secret w) = Inr auth"
    and "url \<noteq> []" and "auth \<noteq> []"
  shows "\<exists>sent. calls (snd (api ev url payload meth w)) = calls w @ [sent]
     \<and> map_of (callHeaders sent) ''Authorization'' = Some (JStr auth)"
proof -
  from assms(1) obtain sts sg where
    s: "stringToSign ev w payload url meth ''application/json'' (utcNow w) = Inr sts"
    and g: "signature ev (stsText sts) (secret w) = Inr sg"
    and a: "auth = ''API '' @ key ev w @ '':'' @ sg"
    by (auto simp: signedAuthorization_def split: sum.splits)
  have s': "stringToSign ev w payload url (orElse meth ''POST'') ''application/json'' (utcNow w) = Inr sts"
    using s by (simp add: stringToSign_def orElse_def Let_def)
  show ?thesis
    using assms(2) a
    by (auto simp: api_def s' g Let_def request_def split: fetchOutcome.splits option.splits)
qed


lemma plainJson_example: "plainJson (JObj [(''a'', JNum 1)]) = ''{'' @ [CHR 0x22] @ ''a'' @ [CHR 0x22] @ '':1}''"
  by (simp add: natText.simps digitChar_def)




subsection \<open>Manual discharge\<close>

lemma getFirmwareVersion_cached:
  "map_of (config w) ''firmwareVersion'' = Some v \<Longrightarrow> getFirmwareVersion ev w = (Inr v, w)"
  by (simp add: getFirmwareVersion_def fieldValue_def)

lemma inverterDischargeBetween_post4B00:
  "map_of (config w) ''firmwareVersion'' = Some (JStr ''post-4B00'') \<Longrightarrow>
     inverterDischargeBetween ev fromTimeText toTimeText w = (Inl (ReferenceError ''fromD''), w)"
  by (simp add: inverterDischargeBetween_def andThen_def getFirmwareVersion_cached throw_def)

lemmas run_request = api_def stringToSign_def signature_def secret_def key_def inverterSn_def
  endpoint_def fieldValue_def request_def Let_def orElse_def md5_def controlAPI_def
  andThen_def attempt_def return_def hasError_def readProp_def errorObject_def

text \<open>
  C3. With the post-4B00 dialect cached, \<^verbatim>\<open>inverterDischargeBetween\<close> throws a
  \<^verbatim>\<open>ReferenceError\<close> for \<^verbatim>\<open>fromD\<close> and sends nothing, whatever the two time texts
  are, where its siblings \<^verbatim>\<open>inverterChargeBetween\<close> and
  \<^verbatim>\<open>inverterGridPowerBetween\<close> return the vendor's failure as an error object.
\<close>

theorem inverterDischargeBetween_throws:
  "inverterDischargeBetween testEnv ''02:00'' ''03:00'' post4B00World
     = (Inl (ReferenceError ''fromD''), post4B00World)
   \<and> fst (inverterChargeBetween testEnv ''02:00'' ''03:00'' post4B00World)
     = Inr (JObj [(''error'', JStr ''solis.request failed''), (''err'', JObj [])])
   \<and> fst (inverterGridPowerBetween testEnv ''02:00'' ''03:00'' post4B00World)
     = Inr (JObj [(''error'', JStr ''solis.request failed''), (''err'', JObj [])])"
proof -
  have cached: "map_of (config post4B00World) ''firmwareVersion'' = Some (JStr ''post-4B00'')"
    by (simp add: post4B00World_def emptyWorld_def)
  have a: "inverterDischargeBetween testEnv ''02:00'' ''03:00'' post4B00World
     = (Inl (ReferenceError ''fromD''), post4B00World)"
    by (rule inverterDischargeBetween_post4B00 [OF cached])
  have b: "fst (inverterChargeBetween testEnv ''02:00'' ''03:00'' post4B00World)
     = Inr (JObj [(''error'', JStr ''solis.request failed''), (''err'', JObj [])])"
    unfolding inverterChargeBetween_def andThen_def getFirmwareVersion_cached [OF cached]
    by (simp add: post4B00Charge_def chargeCurrent_def run_request post4B00World_def emptyWorld_def testEnv_def)
  have c: "fst (inverterGridPowerBetween testEnv ''02:00'' ''03:00'' post4B00World)
     = Inr (JObj [(''error'', JStr ''solis.request failed''), (''err'', JObj [])])"
    unfolding inverterGridPowerBetween_def andThen_def getFirmwareVersion_cached [OF cached]
    by (simp add: post4B00Discharge_def dischargeCurrent_def run_request post4B00World_def emptyWorld_def testEnv_def)
  show ?thesis using a b c by simp
qed

text \<open>Under the pre-4B00 dialect the same operation reads, rewrites and writes the settings.\<close>

lemma inverterDischargeBetween_pre4B00_example:
  "fst (inverterDischargeBetween testEnv ''02:00'' ''03:00'' pre4B00World)
     = Inr (JObj [(''status'', JStr ''Inverter set to discharge between 02:00 and 03:00'')])
   \<and> map callUrl (calls (snd (inverterDischargeBetween testEnv ''02:00'' ''03:00'' pre4B00World)))
     = [''https://www.soliscloud.com:13333/v2/api/atRead'',
        ''https://www.soliscloud.com:13333/v2/api/control'']"
proof -
  have cached: "map_of (config pre4B00World) ''firmwareVersion'' = Some (JStr ''pre-4B00'')"
    by (simp add: pre4B00World_def emptyWorld_def)
  show ?thesis
    unfolding inverterDischargeBetween_def andThen_def getFirmwareVersion_cached [OF cached]
    by (simp add: atReadAPI_def dischargeAPI_def checked_def sliceIs_def isString_def statusObject_def
        dischargeTimeString_def dischargeCurrent_def setIndex_def
        run_request pre4B00World_def emptyWorld_def testEnv_def natText.simps digitChar_def)
qed

subsection \<open>Disabled operations\<close>

lemma status_shape:
  "getProp (statusObject msg) ''status'' = Inr (JStr msg) \<and> getProp (statusObject msg) ''error'' = Inr JUndefined"
  by (simp add: statusObject_def)

lemma error_shape:
  "getProp (errorObject msg) ''error'' = Inr (JStr msg) \<and> getProp (errorObject msg) ''status'' = Inr JUndefined"
  by (simp add: errorObject_def)

text \<open>
  C5, as the code has it. Called without override while the governing flag is
  false, \<^verbatim>\<open>inverterCharge\<close>, \<^verbatim>\<open>inverterGridOnly\<close> and \<^verbatim>\<open>inverterDischarge\<close> leave
  the world as it is (nothing is sent) and return a status object, which has a
  \<^verbatim>\<open>status\<close> and no \<^verbatim>\<open>error\<close>; \<^verbatim>\<open>inverterResetNow\<close> also leaves the world as it is
  but returns an error object, which has an \<^verbatim>\<open>error\<close> and no \<^verbatim>\<open>status\<close>.
\<close>

theorem disabled_operations_send_nothing:
  "(\<not> chargingEnabled w \<longrightarrow>
       inverterCharge ev False w = (Inr (statusObject ''Inverter Charge task ignored''), w)
     \<and> inverterGridOnly ev False w = (Inr (statusObject ''Inverter Grid Only task ignored''), w)
     \<and> inverterResetNow ev False w
         = (Inr (errorObject ''Charging logic is currently disabled, so no reset command sent''), w))
   \<and> (\<not> dischargingEnabled w \<longrightarrow>
       inverterDischarge ev False w = (Inr (statusObject ''Inverter Discharge task ignored''), w))
   \<and> getProp (statusObject msg) ''status'' = Inr (JStr msg)
   \<and> getProp (statusObject msg) ''error'' = Inr JUndefined
   \<and> getProp (errorObject msg) ''error'' = Inr (JStr msg)
   \<and> getProp (errorObject msg) ''status'' = Inr JUndefined"
  by (simp add: inverterCharge_def inverterGridOnly_def inverterResetNow_def inverterDischarge_def
      statusObject_def errorObject_def)

theorem disabled_operations_send_nothing_witness:
  "\<not> chargingEnabled disabledWorld \<and> \<not> dischargingEnabled disabledWorld
   \<and> inverterCharge testEnv False disabledWorld
        = (Inr (JObj [(''status'', JStr ''Inverter Charge task ignored'')]), disabledWorld)
   \<and> inverterGridOnly testEnv False disabledWorld
        = (Inr (JObj [(''status'', JStr ''Inverter Grid Only task ignored'')]), disabledWorld)
   \<and> inverterDischarge testEnv False disabledWorld
        = (Inr (JObj [(''status'', JStr ''Inverter Discharge task ignored'')]), disabledWorld)
   \<and> calls disabledWorld = []"
proof -
  have c: "\<not> chargingEnabled disabledWorld" and d: "\<not> dischargingEnabled disabledWorld"
    and e: "calls disabledWorld = []"
    by (simp_all add: disabledWorld_def emptyWorld_def)
  from disabled_operations_send_nothing [of disabledWorld testEnv] c d e
  show ?thesis by (simp add: statusObject_def)
qed

text \<open>
  C5 as stated fails for the reset: with charging disabled, \<^verbatim>\<open>inverterResetNow\<close>
  answers with an \<^verbatim>\<open>error\<close> field and no \<^verbatim>\<open>status\<close>.
\<close>

theorem disabled_reset_counterexample:
  "\<not> chargingEnabled disabledWorld
   \<and> inverterResetNow testEnv False disabledWorld
        = (Inr (JObj [(''error'', JStr ''Charging logic is currently disabled, so no reset command sent'')]),
           disabledWorld)
   \<and> getProp (JObj [(''error'', JStr ''Charging logic is currently disabled, so no reset command sent'')])
        ''status'' = Inr JUndefined
   \<and> truthy (JStr ''Charging logic is currently disabled, so no reset command sent'')"
  by (simp add: inverterResetNow_def errorObject_def disabledWorld_def emptyWorld_def)

subsection \<open>Scheduled reset\<close>

lemma request_grows: "\<exists>cs. calls (snd (request ev args w)) = calls w @ cs"
  by (auto simp: request_def Let_def split: fetchOutcome.splits)

lemma api_grows: "\<exists>cs. calls (snd (api ev url payload meth w)) = calls w @ cs"
  using request_grows by (auto simp: api_def Let_def split: sum.splits)

lemma andThen_grows:
  assumes "\<And>w. \<exists>cs. calls (snd (m w)) = calls w @ cs"
    and "\<And>a w. \<exists>cs. calls (snd (f a w)) = calls w @ cs"
  shows "\<exists>cs. calls (snd (andThen m f w)) = calls w @ cs"
proof (cases "m w")
  case (Pair r w1)
  from assms(1) [of w] Pair obtain cs where c1: "calls w1 = calls w @ cs" by auto
  show ?thesis
  proof (cases r)
    case (Inl e)
    with Pair c1 show ?thesis by (simp add: andThen_def)
  next
    case (Inr a)
    from assms(2) [of a w1] obtain cs' where "calls (snd (f a w1)) = calls w1 @ cs'" by auto
    with Pair Inr c1 show ?thesis by (simp add: andThen_def)
  qed
qed

lemma return_grows: "\<exists>cs. calls (snd (return a w)) = calls w @ cs"
  by (simp add: return_def)

lemma throw_grows: "\<exists>cs. calls (snd (throw e w)) = calls w @ cs"
  by (simp add: throw_def)

lemma attempt_grows: "\<exists>cs. calls (snd (attempt r w)) = calls w @ cs"
  by (simp add: attempt_def)

lemma controlAPI_grows: "\<exists>cs. calls (snd (controlAPI ev cid v w)) = calls w @ cs"
  using api_grows by (simp add: controlAPI_def Let_def)

lemma checked_grows: "\<exists>cs. calls (snd (checked msg resp w)) = calls w @ cs"
  unfolding checked_def
  by (intro andThen_grows attempt_grows) (simp add: return_grows)

lemma chargeAPI_grows: "\<exists>cs. calls (snd (chargeAPI ev s w)) = calls w @ cs"
  unfolding chargeAPI_def by (intro andThen_grows controlAPI_grows checked_grows)

lemma atReadAPI_grows: "\<exists>cs. calls (snd (atReadAPI ev w)) = calls w @ cs"
  unfolding atReadAPI_def Let_def
  apply (intro andThen_grows api_grows attempt_grows)
  apply (simp add: return_grows)
  apply (intro conjI impI andThen_grows attempt_grows)
  apply (simp_all add: return_grows)
  apply (intro conjI impI andThen_grows attempt_grows)
  apply (simp_all add: return_grows)
  done

lemma post4B00Charge_grows:
  "\<exists>cs. calls (snd (post4B00Charge ev fromTimeText toTimeText current w)) = calls w @ cs"
  unfolding post4B00Charge_def
  apply (intro andThen_grows controlAPI_grows attempt_grows)
  apply (simp add: return_grows)
  apply (intro conjI impI andThen_grows controlAPI_grows attempt_grows)
  apply (simp add: return_grows)
  apply (intro conjI impI andThen_grows controlAPI_grows attempt_grows)
  apply (simp add: return_grows)
  done

lemma setFirmwareVersion_grows: "\<exists>cs. calls (snd (setFirmwareVersion ev w)) = calls w @ cs"
  unfolding setFirmwareVersion_def Let_def
  apply (intro andThen_grows api_grows)
  apply (simp add: return_grows)
  apply (intro conjI impI andThen_grows api_grows)
  apply (simp add: return_grows)
  apply (intro conjI impI andThen_grows attempt_grows)
  apply (simp add: return_grows split: option.splits)
  done

lemma getFirmwareVersion_grows: "\<exists>cs. calls (snd (getFirmwareVersion ev w)) = calls w @ cs"
  unfolding getFirmwareVersion_def
  apply (simp, intro conjI impI andThen_grows setFirmwareVersion_grows)
  apply simp
  done

lemma api_sends:
  assumes "secret w = JStr s" and "url \<noteq> []"
  shows "length (calls w) < length (calls (snd (api ev url (JObj b) meth w)))"
  using assms
  by (auto simp: api_def stringToSign_def signature_def request_def Let_def split: fetchOutcome.splits)

lemma andThen_sends:
  assumes "length (calls w) < length (calls (snd (m w)))"
    and "\<And>a w. \<exists>cs. calls (snd (f a w)) = calls w @ cs"
  shows "length (calls w) < length (calls (snd (andThen m f w)))"
proof (cases "m w")
  case (Pair r w1)
  show ?thesis
  proof (cases r)
    case (Inl e)
    with Pair assms(1) show ?thesis by (simp add: andThen_def)
  next
    case (Inr a)
    from assms(2) [of a w1] obtain cs where "calls (snd (f a w1)) = calls w1 @ cs" by auto
    with Pair Inr assms(1) show ?thesis by (simp add: andThen_def)
  qed
qed

lemma resetTail_grows:
  "\<exists>cs. calls (snd ((\<lambda>resp. andThen (attempt (hasError resp))
       (\<lambda>err. if err then return resp
          else (case readProp (readProp resp ''data'') ''msg'' of
                  JStr chargeString \<Rightarrow>
                    andThen (\<lambda>w. chargeAPI ev (resetTimeString ev chargeString) w)
                      (\<lambda>resp. andThen (attempt (hasError resp))
                         (\<lambda>err. if err then return resp
                            else return (statusObject ''Inverter reset successfully'')))
                | other \<Rightarrow> throw (TypeError ''split'')))) resp w)) = calls w @ cs"
  apply (intro andThen_grows attempt_grows)
  apply (simp add: return_grows)
  apply (intro impI)
  apply (cases "readProp (readProp resp ''data'') ''msg''")
  apply (simp_all add: throw_grows)
  apply (intro andThen_grows attempt_grows chargeAPI_grows)
  apply (simp add: return_grows)
  done

lemma inverterResetNow_sends:
  assumes en: "chargingEnabled w" and sec: "secret w = JStr s"
  shows "length (calls w) < length (calls (snd (inverterResetNow ev False w)))"
proof (cases "map_of (config w) ''firmwareVersion''")
  case (Some v)
  note g = getFirmwareVersion_cached [OF Some, of ev]
  show ?thesis
  proof (cases "v = JStr ''post-4B00''")
    case True
    have "length (calls w) < length (calls (snd (post4B00Charge ev ''00:00'' ''00:00'' (JNum 0) w)))"
      unfolding post4B00Charge_def
      by (rule andThen_sends, simp add: controlAPI_def Let_def api_sends [OF sec],
          intro andThen_grows attempt_grows conjI impI controlAPI_grows; simp add: return_grows;
          intro andThen_grows attempt_grows conjI impI controlAPI_grows; simp add: return_grows;
          intro andThen_grows attempt_grows conjI impI controlAPI_grows; simp add: return_grows)
    with en True g show ?thesis by (simp add: inverterResetNow_def andThen_def)
  next
    case False
    have "length (calls w) < length (calls (snd (atReadAPI ev w)))"
      unfolding atReadAPI_def Let_def
      by (rule andThen_sends, simp add: api_sends [OF sec],
          intro andThen_grows attempt_grows conjI impI; simp add: return_grows;
          intro andThen_grows attempt_grows conjI impI; simp add: return_grows;
          intro andThen_grows attempt_grows conjI impI; simp add: return_grows)
    then have "length (calls w) < length (calls (snd (andThen (atReadAPI ev)
       (\<lambda>resp. andThen (attempt (hasError resp))
       (\<lambda>err. if err then return resp
          else (case readProp (readProp resp ''data'') ''msg'' of
                  JStr chargeString \<Rightarrow>
                    andThen (\<lambda>w. chargeAPI ev (resetTimeString ev chargeString) w)
                      (\<lambda>resp. andThen (attempt (hasError resp))
                         (\<lambda>err. if err then return resp
                            else return (statusObject ''Inverter reset successfully'')))
                | other \<Rightarrow> throw (TypeError ''split'')))) w)))"
      by (rule andThen_sends) (rule resetTail_grows)
    with en False g show ?thesis by (simp add: inverterResetNow_def andThen_def)
  qed
next
  case None
  have first: "length (calls w) < length (calls (snd (setFirmwareVersion ev w)))"
    unfolding setFirmwareVersion_def Let_def
    apply (rule andThen_sends)
     apply (simp add: api_sends [OF sec])
    apply (simp add: return_grows)
    apply (intro conjI impI andThen_grows api_grows)
    apply (simp add: return_grows)
    apply (intro conjI impI andThen_grows attempt_grows)
    apply (simp add: return_grows split: option.splits)
    done
  have gf: "length (calls w) < length (calls (snd (getFirmwareVersion ev w)))"
    unfolding getFirmwareVersion_def using None
    by (simp, intro andThen_sends first) simp
  have "length (calls w) < length (calls (snd (andThen (getFirmwareVersion ev)
          (\<lambda>firmwareVersion.
             if firmwareVersion = JStr ''post-4B00''
             then post4B00Charge ev ''00:00'' ''00:00'' (JNum 0)
             else
               andThen (atReadAPI ev)
       (\<lambda>resp. andThen (attempt (hasError resp))
       (\<lambda>err. if err then return resp
          else (case readProp (readProp resp ''data'') ''msg'' of
                  JStr chargeString \<Rightarrow>
                    andThen (\<lambda>w. chargeAPI ev (resetTimeString ev chargeString) w)
                      (\<lambda>resp. andThen (attempt (hasError resp))
                         (\<lambda>err. if err then return resp
                            else return (statusObject ''Inverter reset successfully'')))
                | other \<Rightarrow> throw (TypeError ''split''))))) w)))"
    apply (rule andThen_sends [where m = "getFirmwareVersion ev", OF gf])
    apply (simp add: post4B00Charge_grows)
    apply (intro impI)
    apply (rule andThen_grows)
     apply (rule atReadAPI_grows)
    apply (rule resetTail_grows)
    done
  with en show ?thesis by (simp add: inverterResetNow_def)
qed

text \<open>
  C4, as the code has it. \<^verbatim>\<open>inverterReset\<close> is \<^verbatim>\<open>inverterResetNow\<close> (without
  override) when the time text is \<^verbatim>\<open>00:00\<close>, midnight; at any other time it leaves
  the world as it is and returns the status \<^verbatim>\<open>Inverter reset only done at midnight\<close>.
  At midnight, with charging enabled and a text for a secret, at least one request is sent.
\<close>

theorem inverterReset_only_at_midnight:
  "(timeText (now w) = ''00:00'' \<longrightarrow> inverterReset ev w = inverterResetNow ev False w)
   \<and> (timeText (now w) \<noteq> ''00:00'' \<longrightarrow>
        inverterReset ev w = (Inr (statusObject ''Inverter reset only done at midnight''), w))
   \<and> (timeText (now w) = ''00:00'' \<and> chargingEnabled w \<and> secret w = JStr s \<longrightarrow>
        length (calls w) < length (calls (snd (inverterReset ev w))))"
proof -
  have "length (calls w) < length (calls (snd (inverterReset ev w)))"
    if "timeText (now w) = ''00:00''" "chargingEnabled w" "secret w = JStr s"
    using that inverterResetNow_sends [of w s ev] by (simp add: inverterReset_def Let_def)
  then show ?thesis by (simp add: inverterReset_def Let_def)
qed

lemma midnight_clock: "timeText (now emptyWorld) = ''00:00''"
  by (simp add: emptyWorld_def utcDate_def clockText_def twoDigits_def digitChar_def today_def)

lemma oneOClock_clock: "timeText (now oneOClockWorld) = ''01:00''" "minute (now oneOClockWorld) = 0"
  by (simp_all add: oneOClockWorld_def utcDate_def clockText_def twoDigits_def digitChar_def today_def)

theorem inverterReset_only_at_midnight_witness:
  "timeText (now emptyWorld) = ''00:00''
   \<and> length (calls emptyWorld) < length (calls (snd (inverterReset testEnv emptyWorld)))
   \<and> inverterReset testEnv emptyWorld = inverterResetNow testEnv False emptyWorld
   \<and> timeText (now oneOClockWorld) \<noteq> ''00:00''
   \<and> inverterReset testEnv oneOClockWorld
        = (Inr (JObj [(''status'', JStr ''Inverter reset only done at midnight'')]), oneOClockWorld)"
proof -
  have en: "chargingEnabled emptyWorld" and sec: "secret emptyWorld = JStr ''S''"
    by (simp_all add: emptyWorld_def secret_def fieldValue_def)
  have other: "timeText (now oneOClockWorld) \<noteq> ''00:00''"
    by (simp add: oneOClock_clock)
  note at_midnight = inverterReset_only_at_midnight [of emptyWorld testEnv "''S''"]
  note at_one = inverterReset_only_at_midnight [of oneOClockWorld testEnv "''S''"]
  from at_midnight midnight_clock en sec
  have a: "length (calls emptyWorld) < length (calls (snd (inverterReset testEnv emptyWorld)))"
    and b: "inverterReset testEnv emptyWorld = inverterResetNow testEnv False emptyWorld"
    by blast+
  from at_one other
  have c: "inverterReset testEnv oneOClockWorld
        = (Inr (JObj [(''status'', JStr ''Inverter reset only done at midnight'')]), oneOClockWorld)"
    unfolding statusObject_def by blast
  show ?thesis using midnight_clock a b other c by blast
qed

text \<open>
  C4 as stated fails: 01:00 is the top of an hour, at minute 0, and with charging
  enabled the scheduled reset still sends nothing and reports the no-op status.
\<close>

theorem inverterReset_top_of_hour_counterexample:
  "minute (now oneOClockWorld) = 0
   \<and> timeText (now oneOClockWorld) = ''01:00''
   \<and> chargingEnabled oneOClockWorld
   \<and> inverterReset testEnv oneOClockWorld
        = (Inr (JObj [(''status'', JStr ''Inverter reset only done at midnight'')]), oneOClockWorld)"
  by (simp add: oneOClock_clock inverterReset_def Let_def statusObject_def)
     (simp add: oneOClockWorld_def emptyWorld_def)

subsection \<open>Averages across midnight\<close>

lemma jsDiv_numeric: "\<not> isTextual (jsDiv a b)"
  by (auto simp: jsDiv_def isTextual_def split: jsval.splits)

lemma averagePowerBetween_numeric:
  assumes "averagePowerBetween ev w from to = Inr p"
  shows "\<not> isTextual (load p) \<and> \<not> isTextual (pv p)"
proof -
  have z: "\<not> isTextual (JNum 0)" by (simp add: isTextual_def)
  from assms z jsDiv_numeric show ?thesis
    by (auto simp: averagePowerBetween_def Let_def split: if_splits sum.splits)
qed

lemma completeDays_empty: "data w = [] \<Longrightarrow> completeDays w = []"
  by (simp add: completeDays_def lastChild_def)

lemma averagePowerBetween_days:
  "averagePowerBetween ev w from to =
     (if completeDays w = [] then Inr \<lparr>load = JNum 0, pv = JNum 0\<rparr>
      else case average_loop ev w (orElse from ''00:00'') (orElse to ''23:59'') (completeDays w) 0 (JNum 0, JNum 0) of
             Inl e \<Rightarrow> Inl e
           | Inr totals \<Rightarrow>
               Inr \<lparr>load = jsDiv (fst totals) (JNum (real (length (completeDays w)))),
                    pv = jsDiv (snd totals) (JNum (real (length (completeDays w))))\<rparr>)"
  using completeDays_empty [of w]
  by (auto simp: averagePowerBetween_def Let_def split: sum.splits)

text \<open>
  C8. When the two instants fall on different calendar days and the two same-day
  averages (from the from-time-of-day to 23:30, and from 00:00 to the
  to-time-of-day) return, \<^verbatim>\<open>averagePowerBetweenTimeIndices\<close> returns, for load and
  for pv, their numeric sum; and both averages are totals over the same list of
  days, \<open>completeDays\<close>, divided by the same count.
\<close>

theorem averagePower_midnight_split:
  assumes crossing: "dateIndex (dateAt ev fromTimeIndex) \<noteq> dateIndex (dateAt ev toTimeIndex)"
    and first: "averagePowerBetween ev w (timeText (dateAt ev fromTimeIndex)) ''23:30'' = Inr p1"
    and second: "averagePowerBetween ev w ''00:00'' (timeText (dateAt ev toTimeIndex)) = Inr p2"
  shows "averagePowerBetweenTimeIndices ev w fromTimeIndex toTimeIndex
           = Inr \<lparr>load = jsAddNum (load p1) (load p2), pv = jsAddNum (pv p1) (pv p2)\<rparr>
    \<and> (\<forall>x y. load p1 = JNum x \<and> load p2 = JNum y \<longrightarrow>
          map_sum id load (averagePowerBetweenTimeIndices ev w fromTimeIndex toTimeIndex) = Inr (JNum (x + y)))
    \<and> (\<forall>x y. pv p1 = JNum x \<and> pv p2 = JNum y \<longrightarrow>
          map_sum id pv (averagePowerBetweenTimeIndices ev w fromTimeIndex toTimeIndex) = Inr (JNum (x + y)))
    \<and> (completeDays w \<noteq> [] \<longrightarrow>
          (\<exists>totals1 totals2.
              average_loop ev w (orElse (timeText (dateAt ev fromTimeIndex)) ''00:00'') ''23:30''
                (completeDays w) 0 (JNum 0, JNum 0) = Inr totals1
            \<and> average_loop ev w ''00:00'' (orElse (timeText (dateAt ev toTimeIndex)) ''23:59'')
                (completeDays w) 0 (JNum 0, JNum 0) = Inr totals2
            \<and> p1 = \<lparr>load = jsDiv (fst totals1) (JNum (real (length (completeDays w)))),
                     pv = jsDiv (snd totals1) (JNum (real (length (completeDays w))))\<rparr>
            \<and> p2 = \<lparr>load = jsDiv (fst totals2) (JNum (real (length (completeDays w)))),
                     pv = jsDiv (snd totals2) (JNum (real (length (completeDays w))))\<rparr>))"
proof -
  note n1 = averagePowerBetween_numeric [OF first] and n2 = averagePowerBetween_numeric [OF second]
  have eq: "averagePowerBetweenTimeIndices ev w fromTimeIndex toTimeIndex
           = Inr \<lparr>load = jsAddNum (load p1) (load p2), pv = jsAddNum (pv p1) (pv p2)\<rparr>"
    using crossing first second n1 n2
    by (simp add: averagePowerBetweenTimeIndices_def Let_def jsAdd_def)
  have days: "\<exists>totals1 totals2.
              average_loop ev w (orElse (timeText (dateAt ev fromTimeIndex)) ''00:00'') ''23:30''
                (completeDays w) 0 (JNum 0, JNum 0) = Inr totals1
            \<and> average_loop ev w ''00:00'' (orElse (timeText (dateAt ev toTimeIndex)) ''23:59'')
                (completeDays w) 0 (JNum 0, JNum 0) = Inr totals2
            \<and> p1 = \<lparr>load = jsDiv (fst totals1) (JNum (real (length (completeDays w)))),
                     pv = jsDiv (snd totals1) (JNum (real (length (completeDays w))))\<rparr>
            \<and> p2 = \<lparr>load = jsDiv (fst totals2) (JNum (real (length (completeDays w)))),
                     pv = jsDiv (snd totals2) (JNum (real (length (completeDays w))))\<rparr>"
    if "completeDays w \<noteq> []"
    using that first second
    by (auto simp: averagePowerBetween_days orElse_def split: sum.splits)
  show ?thesis unfolding eq using days by (simp add: jsAddNum_def)
qed

lemma averageWorld_days:
  "completeDays averageWorld =
     [(1699920000000,
       [(1699920000000, [(''houseLoadTotal'', JNum 0.1), (''pvOutputTotal'', JNum 0)]),
        (1699927200000, [(''houseLoadTotal'', JNum 0.5), (''pvOutputTotal'', JNum 0)]),
        (1699999200000, [(''houseLoadTotal'', JNum 9), (''pvOutputTotal'', JNum 6)]),
        (1700004600000, [(''houseLoadTotal'', JNum 10), (''pvOutputTotal'', JNum 6)])]),
      (1699833600000,
       [(1699833600000, [(''houseLoadTotal'', JNum 0.2), (''pvOutputTotal'', JNum 0)]),
        (1699840800000, [(''houseLoadTotal'', JNum 0.8), (''pvOutputTotal'', JNum 0)]),
        (1699912800000, [(''houseLoadTotal'', JNum 7), (''pvOutputTotal'', JNum 4)]),
        (1699918200000, [(''houseLoadTotal'', JNum 7.6), (''pvOutputTotal'', JNum 4)])])]"
  by (simp add: completeDays_def lastChild_def childBefore_def averageWorld_def emptyWorld_def threeDays_def)

lemma clockOffsets:
  "clockOffset ''00:00'' = 0" "clockOffset ''02:00'' = 7200000"
  "clockOffset ''22:00'' = 79200000" "clockOffset ''23:30'' = 84600000"
  by (simp_all add: clockOffset_def isDigit_def digitVal_def)

lemma averageWorld_data:
  "getDataAt testEnv averageWorld ''22:00'' (- 1) = JObj [(''houseLoadTotal'', JNum 9), (''pvOutputTotal'', JNum 6)]"
  "getDataAt testEnv averageWorld ''23:30'' (- 1) = JObj [(''houseLoadTotal'', JNum 10), (''pvOutputTotal'', JNum 6)]"
  "getDataAt testEnv averageWorld ''00:00'' (- 1) = JObj [(''houseLoadTotal'', JNum 0.1), (''pvOutputTotal'', JNum 0)]"
  "getDataAt testEnv averageWorld ''02:00'' (- 1) = JObj [(''houseLoadTotal'', JNum 0.5), (''pvOutputTotal'', JNum 0)]"
  "getDataAt testEnv averageWorld ''22:00'' (- 2) = JObj [(''houseLoadTotal'', JNum 7), (''pvOutputTotal'', JNum 4)]"
  "getDataAt testEnv averageWorld ''23:30'' (- 2) = JObj [(''houseLoadTotal'', JNum 7.6), (''pvOutputTotal'', JNum 4)]"
  "getDataAt testEnv averageWorld ''00:00'' (- 2) = JObj [(''houseLoadTotal'', JNum 0.2), (''pvOutputTotal'', JNum 0)]"
  "getDataAt testEnv averageWorld ''02:00'' (- 2) = JObj [(''houseLoadTotal'', JNum 0.8), (''pvOutputTotal'', JNum 0)]"
  by (simp_all add: getDataAt_def testEnv_def utcDate_def today_def clockOffsets Let_def
      dayNode_def child_def averageWorld_def emptyWorld_def threeDays_def)

lemma averageWorld_evening:
  "averagePowerBetween testEnv averageWorld ''22:00'' ''23:30'' = Inr \<lparr>load = JNum 0.8, pv = JNum 0\<rparr>"
  by (simp add: averagePowerBetween_days averageWorld_days orElse_def averageWorld_data readProp_def
      jsSub_def jsAdd_def jsAddNum_def isTextual_def jsDiv_def Let_def)

lemma averageWorld_morning:
  "averagePowerBetween testEnv averageWorld ''00:00'' ''02:00'' = Inr \<lparr>load = JNum 0.5, pv = JNum 0\<rparr>"
  by (simp add: averagePowerBetween_days averageWorld_days orElse_def averageWorld_data readProp_def
      jsSub_def jsAdd_def jsAddNum_def isTextual_def jsDiv_def Let_def)

lemma averageWorld_clock:
  "timeText (dateAt testEnv 1699999200000) = ''22:00''" "timeText (dateAt testEnv 1700013600000) = ''02:00''"
  "dateIndex (dateAt testEnv 1699999200000) = 1699920000000"
  "dateIndex (dateAt testEnv 1700013600000) = 1700006400000"
  by (simp_all add: testEnv_def utcDate_def clockText_def twoDigits_def digitChar_def)

theorem averagePower_midnight_split_witness:
  "dateIndex (dateAt testEnv 1699999200000) \<noteq> dateIndex (dateAt testEnv 1700013600000)
   \<and> averagePowerBetween testEnv averageWorld ''22:00'' ''23:30'' = Inr \<lparr>load = JNum 0.8, pv = JNum 0\<rparr>
   \<and> averagePowerBetween testEnv averageWorld ''00:00'' ''02:00'' = Inr \<lparr>load = JNum 0.5, pv = JNum 0\<rparr>
   \<and> averagePowerBetweenTimeIndices testEnv averageWorld 1699999200000 1700013600000
        = Inr \<lparr>load = JNum 1.3, pv = JNum 0\<rparr>"
proof -
  have c: "dateIndex (dateAt testEnv 1699999200000) \<noteq> dateIndex (dateAt testEnv 1700013600000)"
    by (simp add: averageWorld_clock)
  have f: "averagePowerBetween testEnv averageWorld (timeText (dateAt testEnv 1699999200000)) ''23:30''
      = Inr \<lparr>load = JNum 0.8, pv = JNum 0\<rparr>"
    by (simp only: averageWorld_clock averageWorld_evening)
  have g: "averagePowerBetween testEnv averageWorld ''00:00'' (timeText (dateAt testEnv 1700013600000))
      = Inr \<lparr>load = JNum 0.5, pv = JNum 0\<rparr>"
    by (simp only: averageWorld_clock averageWorld_morning)
  from averagePower_midnight_split [OF c f g]
  have "averagePowerBetweenTimeIndices testEnv averageWorld 1699999200000 1700013600000
      = Inr \<lparr>load = jsAddNum (JNum 0.8) (JNum 0.5), pv = jsAddNum (JNum 0) (JNum 0)\<rparr>"
    by simp
  then show ?thesis using c averageWorld_evening averageWorld_morning by (simp add: jsAddNum_def)
qed

end
